(* ===== verification/Prelude.thy ===== *)
theory Prelude
  imports Complex_Main
begin

text \<open>
  Shared material of the development.  Exceptions are values: a Python function that may
  raise returns \<open>exn + 'a\<close>, \<open>Inl\<close> holding the exception.  The message kept with an
  exception is the static text of the source's message; values interpolated into it by an
  f-string are left out.  Strings are lists of characters, one per code point below 256;
  floats are exact rationals with the three special values, which is all the code needs
  where it only compares them.  The rest are arithmetic facts on round-up division and
  list facts on slices, used by every theory that plans buffers.
\<close>

named_theorems constructor_defs "validating constructors of the data model"
named_theorems planner_defs "buffer and schedule planners"

section \<open>Exceptions and results\<close>

datatype exn =
    TypeError string
  | ValueError string
  | KeyError string
  | IndexError string
  | StopIteration
  | AttributeError string
  | RuntimeError string
  | TimeoutError string
  | OverflowError string
  | ZeroDivisionError string
  | ModuleNotFoundError string
  | ImportError string
  | OSError string
  | CalledProcessError string
  | LowBitCommError string
  | ProgramVerificationError string
  | UnsupportedProgram string
  | ExtensionUnavailable string
  | OtherException string

type_synonym 'a res = "exn + 'a"

text \<open>Sequencing: the continuation runs only where no exception was raised.\<close>

fun rbind :: "'a res \<Rightarrow> ('a \<Rightarrow> 'b res) \<Rightarrow> 'b res" where
  "rbind (Inl e) f = Inl e"
| "rbind (Inr x) f = f x"

lemma rbind_eq_Inr [simp]: "rbind m f = Inr y \<longleftrightarrow> (\<exists>x. m = Inr x \<and> f x = Inr y)"
  by (cases m) auto

lemma rbind_eq_Inl: "rbind m f = Inl e \<longleftrightarrow> m = Inl e \<or> (\<exists>x. m = Inr x \<and> f x = Inl e)"
  by (cases m) auto

lemma rbind_assoc: "rbind (rbind m f) g = rbind m (\<lambda>x. rbind (f x) g)"
  by (cases m) auto

lemma rbind_Inr [simp]: "rbind m Inr = m"
  by (cases m) auto

text \<open>A guard that raises, and a lookup that raises, invert without a case split.\<close>

lemma if_Inl_eq_Inr [simp]: "(if c then Inl e else m) = Inr y \<longleftrightarrow> \<not> c \<and> m = (Inr y :: 'a res)"
  by simp

lemma option_Inl_eq_Inr [simp]:
  "(case x of None \<Rightarrow> Inl e | Some z \<Rightarrow> f z) = Inr y \<longleftrightarrow> (\<exists>z. x = Some z \<and> f z = (Inr y :: 'a res))"
  by (cases x) auto

text \<open>A loop that stops at the first exception.\<close>

fun rmap :: "('a \<Rightarrow> 'b res) \<Rightarrow> 'a list \<Rightarrow> 'b list res" where
  "rmap f [] = Inr []"
| "rmap f (x # xs) = rbind (f x) (\<lambda>y. rbind (rmap f xs) (\<lambda>ys. Inr (y # ys)))"

lemma rmap_Inr_iff:
  "rmap f xs = Inr ys \<longleftrightarrow> list_all2 (\<lambda>x y. f x = Inr y) xs ys"
  by (induction xs arbitrary: ys) (auto simp: list_all2_Cons1)

lemma rmap_total: "(\<And>x. x \<in> set xs \<Longrightarrow> f x = Inr (g x)) \<Longrightarrow> rmap f xs = Inr (map g xs)"
  by (induction xs) auto

lemma rmap_length: "rmap f xs = Inr ys \<Longrightarrow> length ys = length xs"
  by (auto simp: rmap_Inr_iff dest: list_all2_lengthD)

lemma rmap_InlD: "rmap f xs = Inl e \<Longrightarrow> \<exists>x \<in> set xs. f x = Inl e"
  by (induction xs) (auto simp: rbind_eq_Inl)

section \<open>Strings\<close>

text \<open>\<open>str.isspace\<close> and \<open>str.strip\<close> on code points below 256.\<close>

definition py_isspace :: "char \<Rightarrow> bool" where
  "py_isspace c =
     (let n = of_char c :: nat
      in 9 \<le> n \<and> n \<le> 13 \<or> 28 \<le> n \<and> n \<le> 32 \<or> n = 133 \<or> n = 160)"

definition py_strip :: "string \<Rightarrow> string" where
  "py_strip s = rev (dropWhile py_isspace (rev (dropWhile py_isspace s)))"

lemma py_strip_eq_Nil: "py_strip s = [] \<longleftrightarrow> (\<forall>c \<in> set s. py_isspace c)"
proof -
  have "py_strip s = [] \<longleftrightarrow> dropWhile py_isspace s = []"
    unfolding py_strip_def
    by (auto simp: dropWhile_eq_Nil_conv) (metis dropWhile_eq_Nil_conv hd_dropWhile hd_in_set, metis set_dropWhileD)
  then show ?thesis
    by (simp add: dropWhile_eq_Nil_conv)
qed

lemma py_strip_id: "(\<And>c. c \<in> set s \<Longrightarrow> \<not> py_isspace c) \<Longrightarrow> py_strip s = s"
proof -
  assume h: "\<And>c. c \<in> set s \<Longrightarrow> \<not> py_isspace c"
  have "dropWhile py_isspace t = t" if "set t \<subseteq> set s" for t
    using h that by (cases t) auto
  then show ?thesis by (simp add: py_strip_def)
qed

text \<open>\<open>str.startswith\<close> and \<open>str.removeprefix\<close>.\<close>

definition py_startswith :: "string \<Rightarrow> string \<Rightarrow> bool" where
  "py_startswith s p \<longleftrightarrow> take (length p) s = p"

definition py_removeprefix :: "string \<Rightarrow> string \<Rightarrow> string" where
  "py_removeprefix s p = (if py_startswith s p then drop (length p) s else s)"

lemma py_startswith_append [simp]: "py_startswith (p @ s) p"
  by (simp add: py_startswith_def)

lemma py_removeprefix_append [simp]: "py_removeprefix (p @ s) p = s"
  by (simp add: py_removeprefix_def)

lemma py_startswith_iff: "py_startswith s p \<longleftrightarrow> (\<exists>t. s = p @ t)"
  by (auto simp: py_startswith_def) (metis append_take_drop_id)

text \<open>\<open>str.split\<close> with a one-character separator: always at least one piece.\<close>

fun py_split :: "char \<Rightarrow> string \<Rightarrow> string list" where
  "py_split sep [] = [[]]"
| "py_split sep (c # s) =
     (if c = sep then [] # py_split sep s
      else (c # hd (py_split sep s)) # tl (py_split sep s))"

lemma py_split_nonempty [simp]: "py_split sep s \<noteq> []"
  by (cases s) auto

lemma py_split_no_sep: "p \<in> set (py_split sep s) \<Longrightarrow> sep \<notin> set p"
proof (induction s arbitrary: p)
  case Nil
  then show ?case by simp
next
  case (Cons c s)
  show ?case
  proof (cases "c = sep")
    case True
    then show ?thesis using Cons by auto
  next
    case False
    have "hd (py_split sep s) \<in> set (py_split sep s)"
      by simp
    then show ?thesis
      using Cons False by (auto dest: list.set_sel(2)[rotated])
  qed
qed

text \<open>
  The builtin \<open>int\<close> on a stripped string: an optional sign, then decimal digits, with
  single underscores allowed between digits; \<open>None\<close> stands for the \<open>ValueError\<close>.
\<close>

definition digit_value :: "char \<Rightarrow> int" where
  "digit_value c = int (of_char c) - 48"

definition is_digit :: "char \<Rightarrow> bool" where
  "is_digit c \<longleftrightarrow> 0 \<le> digit_value c \<and> digit_value c \<le> 9"

fun parse_digits :: "bool \<Rightarrow> int \<Rightarrow> string \<Rightarrow> int option" where
  "parse_digits after_digit acc [] = (if after_digit then Some acc else None)"
| "parse_digits after_digit acc (c # s) =
     (if is_digit c then parse_digits True (acc * 10 + digit_value c) s
      else if c = CHR 0x5F \<and> after_digit then parse_digits False acc s
      else None)"

definition py_int :: "string \<Rightarrow> int option" where
  "py_int s =
     (case s of
        [] \<Rightarrow> None
      | c # r \<Rightarrow>
          if c = CHR ''-'' then map_option uminus (parse_digits False 0 r)
          else if c = CHR ''+'' then parse_digits False 0 r
          else parse_digits False 0 s)"

text \<open>\<open>str\<close> of a natural number and of an integer.\<close>

fun show_nat :: "nat \<Rightarrow> string" where
  "show_nat n =
     (if n < 10 then [char_of (48 + n)] else show_nat (n div 10) @ [char_of (48 + n mod 10)])"

declare show_nat.simps [simp del]

definition py_str_int :: "int \<Rightarrow> string" where
  "py_str_int i = (if i < 0 then CHR ''-'' # show_nat (nat (- i)) else show_nat (nat i))"

lemma digit_char: "d < 10 \<Longrightarrow> of_char (char_of (48 + d) :: char) = (48 + d :: nat)"
  by (simp add: of_char_of)

lemma digit_char_digit:
  "d < 10 \<Longrightarrow> is_digit (char_of (48 + d)) \<and> digit_value (char_of (48 + d)) = int d"
  by (simp add: is_digit_def digit_value_def digit_char del: of_char_of)

lemma parse_digits_append:
  "s \<noteq> [] \<Longrightarrow> (\<forall>c \<in> set s. is_digit c) \<Longrightarrow>
     parse_digits b acc (s @ rest)
       = parse_digits True (foldl (\<lambda>a c. a * 10 + digit_value c) acc s) rest"
proof (induction s arbitrary: b acc)
  case Nil
  then show ?case by simp
next
  case (Cons c s)
  then show ?case by (cases "s = []") auto
qed

lemma show_nat_digits: "(\<forall>c \<in> set (show_nat n). is_digit c) \<and> show_nat n \<noteq> []
    \<and> foldl (\<lambda>a c. a * 10 + digit_value c) 0 (show_nat n) = int n"
proof (induction n rule: show_nat.induct)
  case (1 n)
  show ?case
  proof (cases "n < 10")
    case True
    then show ?thesis
      using digit_char_digit[of n] by (simp add: show_nat.simps[of n])
  next
    case False
    have "int (n div 10) * 10 + int (n mod 10) = int n"
      by (metis div_mult_mod_eq of_nat_add of_nat_mult of_nat_numeral)
    then show ?thesis
      using 1[OF False] digit_char_digit[of "n mod 10"] False
      by (simp add: show_nat.simps[of n] ball_Un)
  qed
qed

lemma not_digit_special [simp]: "\<not> is_digit CHR ''-''" "\<not> is_digit CHR ''+''" "\<not> is_digit CHR '',''"
  by (simp_all add: is_digit_def digit_value_def)

text \<open>The substring test \<open>p in s\<close>.\<close>

fun py_contains :: "string \<Rightarrow> string \<Rightarrow> bool" where
  "py_contains [] p \<longleftrightarrow> p = []"
| "py_contains (c # s) p \<longleftrightarrow> py_startswith (c # s) p \<or> py_contains s p"

lemma py_contains_iff: "py_contains s p \<longleftrightarrow> (\<exists>a b. s = a @ p @ b)"
proof (induction s)
  case Nil
  then show ?case by auto
next
  case (Cons c s)
  then show ?case
    by (auto simp: py_startswith_iff Cons_eq_append_conv)
qed

section \<open>Indexing\<close>

text \<open>\<open>xs[i]\<close> as Python reads it: a negative index counts from the end.\<close>

definition py_index :: "'a list \<Rightarrow> int \<Rightarrow> 'a res" where
  "py_index xs i =
     (if int (length xs) \<le> i \<or> i < - int (length xs) then Inl (IndexError ''index out of range'')
      else Inr (xs ! nat (if 0 \<le> i then i else int (length xs) + i)))"

lemma py_index_in_range [simp]: "0 \<le> i \<Longrightarrow> i < int (length xs) \<Longrightarrow> py_index xs i = Inr (xs ! nat i)"
  by (simp add: py_index_def)

section \<open>Floats, where they are only compared\<close>

datatype pyfloat = Fin rat | PosInf | NegInf | NaN

fun fl_less :: "pyfloat \<Rightarrow> pyfloat \<Rightarrow> bool" where
  "fl_less NaN y \<longleftrightarrow> False"
| "fl_less x NaN \<longleftrightarrow> False"
| "fl_less (Fin a) (Fin b) \<longleftrightarrow> a < b"
| "fl_less PosInf y \<longleftrightarrow> False"
| "fl_less x NegInf \<longleftrightarrow> False"
| "fl_less x PosInf \<longleftrightarrow> True"
| "fl_less NegInf y \<longleftrightarrow> True"

fun fl_le :: "pyfloat \<Rightarrow> pyfloat \<Rightarrow> bool" where
  "fl_le NaN y \<longleftrightarrow> False"
| "fl_le x NaN \<longleftrightarrow> False"
| "fl_le x y \<longleftrightarrow> \<not> fl_less y x"

fun fl_isfinite :: "pyfloat \<Rightarrow> bool" where
  "fl_isfinite (Fin a) \<longleftrightarrow> True"
| "fl_isfinite x \<longleftrightarrow> False"

lemma fl_le_Fin [simp]: "fl_le (Fin a) (Fin b) \<longleftrightarrow> a \<le> b"
  by auto

lemma fl_less_NaN [simp]: "\<not> fl_less x NaN"
  by (cases x) auto

lemma fl_le_NaN [simp]: "\<not> fl_le x NaN"
  by (cases x) auto

section \<open>Round-up division and alignment\<close>

text \<open>The quotient \<open>(n + g - 1) // g\<close> and the padded size \<open>((n + g - 1) // g) * g\<close>.\<close>

lemma ceil_div_bounds:
  fixes n g :: int
  assumes "0 < g"
  shows "n \<le> (n + g - 1) div g * g" and "(n + g - 1) div g * g < n + g"
proof -
  have e: "(n + g - 1) div g * g = n + g - 1 - (n + g - 1) mod g"
    by (simp add: minus_mod_eq_div_mult)
  have "0 \<le> (n + g - 1) mod g" and "(n + g - 1) mod g < g"
    using assms by simp_all
  with e show "n \<le> (n + g - 1) div g * g" and "(n + g - 1) div g * g < n + g"
    by linarith+
qed

lemma ceil_div_least:
  fixes n g m :: int
  assumes "0 < g" and "n \<le> m * g"
  shows "(n + g - 1) div g \<le> m"
proof -
  have "(n + g - 1) div g * g < (m + 1) * g"
    using ceil_div_bounds(2)[OF assms(1), of n] assms by (simp add: algebra_simps)
  then show ?thesis
    using assms(1) by (simp add: mult_less_cancel_right)
qed

lemma ceil_div_exact: "0 < g \<Longrightarrow> (k * g + g - 1) div g = (k :: int)"
proof -
  assume g: "0 < g"
  have "(k * g + g - 1) div g \<le> k"
    using g by (intro ceil_div_least) auto
  moreover have "k * g \<le> (k * g + g - 1) div g * g"
    using g by (rule ceil_div_bounds(1))
  ultimately show ?thesis
    using g by (simp add: mult_le_cancel_right)
qed

lemma ceil_div_zero [simp]: "0 < g \<Longrightarrow> (g - 1) div g = (0 :: int)"
  using ceil_div_exact[of g 0] by simp

lemma ceil_div_nonneg: "0 < g \<Longrightarrow> 0 \<le> n \<Longrightarrow> 0 \<le> (n + g - 1) div (g :: int)"
  by (simp add: pos_imp_zdiv_nonneg_iff)

lemma ceil_div_pos: "0 < g \<Longrightarrow> 0 < n \<Longrightarrow> 0 < (n + g - 1) div (g :: int)"
  by (simp add: pos_imp_zdiv_pos_iff)

lemma ceil_div_eq_0: "0 < g \<Longrightarrow> 0 \<le> n \<Longrightarrow> (n + g - 1) div (g :: int) = 0 \<longleftrightarrow> n = 0"
  using ceil_div_pos[of g n] by (auto simp: less_le)

lemma le_div_2_iff: "a \<le> m div 2 \<longleftrightarrow> 2 * a \<le> (m :: int)"
  by presburger

lemma div_le_self: "0 \<le> x \<Longrightarrow> 0 < y \<Longrightarrow> x div y \<le> (x :: int)"
  using zdiv_mono2[of x 1 y] by simp

lemma ex_le_Suc: "(\<exists>k \<le> Suc m. P k) \<longleftrightarrow> P 0 \<or> (\<exists>k \<le> m. P (Suc k))"
  by (metis Suc_le_mono le0 not0_implies_Suc)

lemma ex_pow2: "0 < (l :: int) \<Longrightarrow> \<exists>d. 2 ^ d \<le> l \<and> l < 2 ^ Suc d"
proof -
  assume l: "0 < l"
  then obtain d where "2 ^ d \<le> nat l" "nat l < 2 ^ (d + 1)"
    using ex_power_ivl1[of 2 "nat l"] l
    by (metis One_nat_def Suc_leI order_refl zero_less_nat_eq)
  then have "int (2 ^ d) \<le> l" "l < int (2 ^ (d + 1))"
    using l by linarith+
  then show ?thesis by auto
qed

section \<open>Slices of lists\<close>

text \<open>\<open>tensor.narrow(0, start, length)\<close>, and the slice \<open>xs[a:b]\<close> with \<open>0 \<le> a \<le> b\<close>.\<close>

definition narrow :: "'a list \<Rightarrow> nat \<Rightarrow> nat \<Rightarrow> 'a list" where
  "narrow xs start len = take len (drop start xs)"

lemma length_narrow [simp]: "start + len \<le> length xs \<Longrightarrow> length (narrow xs start len) = len"
  by (simp add: narrow_def)

lemma concat_chunks:
  "concat (map (\<lambda>i. narrow xs (i * s) s) [0..<n]) = take (n * s) xs"
proof (induction n)
  case 0
  then show ?case by simp
next
  case (Suc n)
  have "take (Suc n * s) xs = take (n * s + s) xs"
    by (simp add: add.commute)
  also have "\<dots> = take (n * s) xs @ narrow xs (n * s) s"
    by (simp add: take_add narrow_def)
  finally show ?case
    using Suc by simp
qed

lemma narrow_concat:
  assumes "\<And>x. x \<in> set xss \<Longrightarrow> length x = s" and "i < length xss"
  shows "narrow (concat xss) (i * s) s = xss ! i"
  using assms
proof (induction xss arbitrary: i)
  case Nil
  then show ?case by simp
next
  case (Cons x xss)
  show ?case
  proof (cases i)
    case 0
    then show ?thesis using Cons.prems by (simp add: narrow_def)
  next
    case (Suc j)
    then have "narrow (concat xss) (j * s) s = xss ! j"
      using Cons by simp
    with Suc Cons.prems(1)[of x] show ?thesis
      by (simp add: narrow_def)
  qed
qed

lemma narrow_prefix:
  assumes "\<And>x. x \<in> set xss \<Longrightarrow> length x = s" and "i < length xss" and "k \<le> s"
  shows "narrow (concat xss) (i * s) k = take k (xss ! i)"
proof -
  have "narrow (concat xss) (i * s) k = take k (narrow (concat xss) (i * s) s)"
    using assms(3) by (simp add: narrow_def min_absorb1)
  then show ?thesis
    using narrow_concat[of xss s i] assms by simp
qed

lemma length_concat_const:
  "(\<And>x. x \<in> set xss \<Longrightarrow> length x = s) \<Longrightarrow> length (concat xss) = length xss * s"
  by (induction xss) auto

end
