(* ===== verification/Core_Types.thy ===== *)
theory Core_Types
  imports Prelude
begin

text \<open>
  The Semantic IR of \<open>core/types.py\<close>, \<open>core/operations.py\<close>, \<open>core/program.py\<close>,
  \<open>core/context.py\<close>, \<open>core/lowered.py\<close>, \<open>core/backend.py\<close> and \<open>core/execution_info.py\<close>.
  A frozen dataclass is a record (or a datatype constructor), and its \<open>__post_init__\<close> is a
  validating constructor \<open>make_...\<close> that takes the untyped arguments Python receives, a
  \<open>pyval\<close> wherever the code tests the argument's type, and returns the object or the
  exception.  Objects of classes the package does not know are opaque: they are kept with
  their class name.
\<close>

section \<open>Enumerations and untyped arguments\<close>

datatype data_type = FP16 | BF16 | FP32

datatype error_feedback_domain = EF_NONE | EF_GRADIENT | EF_PARAMETER_DELTA

datatype pyval =
    PNone
  | PBool bool
  | PInt int
  | PFloat pyfloat
  | PStr string
  | PDataType data_type
  | PErrorFeedback error_feedback_domain
  | PObject string

text \<open>\<open>isinstance(v, int) and not isinstance(v, bool)\<close>.\<close>

fun is_plain_int :: "pyval \<Rightarrow> bool" where
  "is_plain_int (PInt _) \<longleftrightarrow> True"
| "is_plain_int _ \<longleftrightarrow> False"

fun the_int :: "pyval \<Rightarrow> int" where
  "the_int (PInt i) = i"
| "the_int (PBool b) = (if b then 1 else 0)"
| "the_int _ = 0"

fun is_str :: "pyval \<Rightarrow> bool" where
  "is_str (PStr _) \<longleftrightarrow> True"
| "is_str _ \<longleftrightarrow> False"

fun the_str :: "pyval \<Rightarrow> string" where
  "the_str (PStr s) = s"
| "the_str _ = []"

fun is_bool :: "pyval \<Rightarrow> bool" where
  "is_bool (PBool _) \<longleftrightarrow> True"
| "is_bool _ \<longleftrightarrow> False"

fun the_bool :: "pyval \<Rightarrow> bool" where
  "the_bool (PBool b) = b"
| "the_bool _ = False"

fun is_data_type :: "pyval \<Rightarrow> bool" where
  "is_data_type (PDataType _) \<longleftrightarrow> True"
| "is_data_type _ \<longleftrightarrow> False"

fun the_data_type :: "pyval \<Rightarrow> data_type" where
  "the_data_type (PDataType d) = d"
| "the_data_type _ = FP16"

fun is_error_feedback :: "pyval \<Rightarrow> bool" where
  "is_error_feedback (PErrorFeedback _) \<longleftrightarrow> True"
| "is_error_feedback _ \<longleftrightarrow> False"

fun the_error_feedback :: "pyval \<Rightarrow> error_feedback_domain" where
  "the_error_feedback (PErrorFeedback e) = e"
| "the_error_feedback _ = EF_NONE"

lemma is_plain_intE: "is_plain_int v \<Longrightarrow> (\<And>i. v = PInt i \<Longrightarrow> P) \<Longrightarrow> P"
  by (cases v) auto

lemma is_strE: "is_str v \<Longrightarrow> (\<And>s. v = PStr s \<Longrightarrow> P) \<Longrightarrow> P"
  by (cases v) auto

lemma is_boolE: "is_bool v \<Longrightarrow> (\<And>b. v = PBool b \<Longrightarrow> P) \<Longrightarrow> P"
  by (cases v) auto

lemma is_data_typeE: "is_data_type v \<Longrightarrow> (\<And>d. v = PDataType d \<Longrightarrow> P) \<Longrightarrow> P"
  by (cases v) auto

lemma is_error_feedbackE:
  "is_error_feedback v \<Longrightarrow> (\<And>d. v = PErrorFeedback d \<Longrightarrow> P) \<Longrightarrow> P"
  by (cases v) auto

lemma PInt_the_int [simp]: "is_plain_int v \<Longrightarrow> PInt (the_int v) = v"
  by (cases v) auto

lemmas pyval_elims = is_plain_intE is_strE is_boolE is_data_typeE is_error_feedbackE

text \<open>\<open>isinstance(v, str) and v.strip()\<close>, the test for a usable name.\<close>

definition non_empty_string :: "pyval \<Rightarrow> bool" where
  "non_empty_string v \<longleftrightarrow> is_str v \<and> py_strip (the_str v) \<noteq> []"

lemma non_empty_string_PStr [simp]: "non_empty_string (PStr s) \<longleftrightarrow> py_strip s \<noteq> []"
  by (simp add: non_empty_string_def)

section \<open>Wires\<close>

record quantized_wire =
  qw_bit :: int
  qw_group_size :: int
  qw_quant_type :: string
  qw_compact :: bool

definition make_QuantizedWire ::
    "pyval \<Rightarrow> pyval \<Rightarrow> pyval \<Rightarrow> pyval \<Rightarrow> quantized_wire res" where
  [constructor_defs]:
  "make_QuantizedWire b group_size quant_type cmp =
     (if \<not> is_plain_int b then Inl (TypeError ''bit must be an integer'')
      else if the_int b \<notin> {4, 8} then Inl (ValueError ''bit must be 4 or 8'')
      else if \<not> is_plain_int group_size then Inl (TypeError ''group_size must be an integer'')
      else if the_int group_size \<notin> {16, 32, 64}
        then Inl (ValueError ''group_size must be 16, 32, or 64'')
      else if \<not> non_empty_string quant_type
        then Inl (ValueError ''quant_type must be a non-empty string'')
      else if \<not> is_bool cmp then Inl (TypeError ''compact must be a bool'')
      else Inr \<lparr>qw_bit = the_int b, qw_group_size = the_int group_size,
                qw_quant_type = the_str quant_type, qw_compact = the_bool cmp\<rparr>)"

text \<open>What the constructor establishes, and exactly what it accepts.\<close>

definition valid_wire :: "quantized_wire \<Rightarrow> bool" where
  "valid_wire w \<longleftrightarrow>
     qw_bit w \<in> {4, 8} \<and> qw_group_size w \<in> {16, 32, 64} \<and> py_strip (qw_quant_type w) \<noteq> []"

lemma make_QuantizedWire_Inr_iff:
  "make_QuantizedWire b g q c = Inr w \<longleftrightarrow>
     valid_wire w \<and> b = PInt (qw_bit w) \<and> g = PInt (qw_group_size w)
     \<and> q = PStr (qw_quant_type w) \<and> c = PBool (qw_compact w)"
  by (cases b; cases g; cases q; cases c)
    (auto simp: make_QuantizedWire_def valid_wire_def non_empty_string_def)

lemma valid_wire_group_pos: "valid_wire w \<Longrightarrow> 0 < qw_group_size w"
  by (auto simp: valid_wire_def)

lemma valid_wire_bit_pos: "valid_wire w \<Longrightarrow> 0 < qw_bit w"
  by (auto simp: valid_wire_def)

datatype wire =
    QuantizedWire quantized_wire
  | FullPrecisionWire data_type
  | OtherWire string

definition require_dtype :: "pyval \<Rightarrow> data_type res" where
  "require_dtype v =
     (if \<not> is_data_type v then Inl (TypeError ''dtype must be a DataType'')
      else Inr (the_data_type v))"

lemma require_dtype_Inr [simp]: "require_dtype v = Inr d \<longleftrightarrow> v = PDataType d"
  by (cases v) (auto simp: require_dtype_def)

definition make_FullPrecisionWire :: "pyval \<Rightarrow> wire res" where
  "make_FullPrecisionWire dtype = rbind (require_dtype dtype) (\<lambda>d. Inr (FullPrecisionWire d))"

section \<open>Outputs, operations, algorithms\<close>

text \<open>An output of an unknown class is kept with its \<open>dtype\<close> attribute, if that is a DataType.\<close>

datatype output_type =
    FullTensor data_type
  | ReducedShard data_type int
  | OtherOutput "data_type option"

fun output_dtype :: "output_type \<Rightarrow> data_type option" where
  "output_dtype (FullTensor d) = Some d"
| "output_dtype (ReducedShard d _) = Some d"
| "output_dtype (OtherOutput d) = d"

fun is_FullTensor :: "output_type \<Rightarrow> bool" where
  "is_FullTensor (FullTensor _) \<longleftrightarrow> True"
| "is_FullTensor _ \<longleftrightarrow> False"

fun is_ReducedShard :: "output_type \<Rightarrow> bool" where
  "is_ReducedShard (ReducedShard _ _) \<longleftrightarrow> True"
| "is_ReducedShard _ \<longleftrightarrow> False"

definition make_FullTensor :: "pyval \<Rightarrow> output_type res" where
  "make_FullTensor dtype = rbind (require_dtype dtype) (\<lambda>d. Inr (FullTensor d))"

definition make_ReducedShard :: "pyval \<Rightarrow> pyval \<Rightarrow> output_type res" where
  [constructor_defs]:
  "make_ReducedShard dtype layout_version =
     rbind (require_dtype dtype) (\<lambda>d.
       if \<not> is_plain_int layout_version
         then Inl (TypeError ''layout_version must be an integer'')
       else if the_int layout_version < 0 then Inl (ValueError ''layout_version must be >= 0'')
       else Inr (ReducedShard d (the_int layout_version)))"

lemma make_ReducedShard_Inr_iff:
  "make_ReducedShard d v = Inr out \<longleftrightarrow>
     (\<exists>dt i. d = PDataType dt \<and> v = PInt i \<and> 0 \<le> i \<and> out = ReducedShard dt i)"
  by (cases v) (auto simp: make_ReducedShard_def)

datatype operation = ReduceMean | ReduceSum | OtherOperation string

datatype algorithm =
    AutoAlgorithm
  | NativeAllReduce
  | CompressedAllGather
  | CompressedReduceScatter
  | CompressedReduceScatterAllGather
  | OtherAlgorithm string

section \<open>Programs\<close>

record program =
  prog_operation :: operation
  prog_output :: output_type
  prog_wire :: wire
  prog_algorithm :: algorithm
  prog_async_op :: bool
  prog_error_feedback :: error_feedback_domain

text \<open>The four semantic fields may be Python's \<open>None\<close>, which is refused in field order.\<close>

definition make_CommunicationProgram ::
    "operation option \<Rightarrow> output_type option \<Rightarrow> wire option \<Rightarrow> algorithm option
     \<Rightarrow> pyval \<Rightarrow> pyval \<Rightarrow> program res" where
  [constructor_defs]:
  "make_CommunicationProgram operation output wire algorithm async_op error_feedback =
     (case operation of None \<Rightarrow> Inl (TypeError ''operation must not be None'') | Some op \<Rightarrow>
      case output of None \<Rightarrow> Inl (TypeError ''output must not be None'') | Some out \<Rightarrow>
      case wire of None \<Rightarrow> Inl (TypeError ''wire must not be None'') | Some w \<Rightarrow>
      case algorithm of None \<Rightarrow> Inl (TypeError ''algorithm must not be None'') | Some alg \<Rightarrow>
      if \<not> is_bool async_op then Inl (TypeError ''async_op must be a bool'')
      else if \<not> is_error_feedback error_feedback
        then Inl (TypeError ''error_feedback must be an ErrorFeedbackDomain'')
      else Inr \<lparr>prog_operation = op, prog_output = out, prog_wire = w, prog_algorithm = alg,
                prog_async_op = the_bool async_op,
                prog_error_feedback = the_error_feedback error_feedback\<rparr>)"

lemma make_CommunicationProgram_Inr_iff:
  "make_CommunicationProgram op out w alg a ef = Inr p \<longleftrightarrow>
     op = Some (prog_operation p) \<and> out = Some (prog_output p) \<and> w = Some (prog_wire p)
     \<and> alg = Some (prog_algorithm p) \<and> a = PBool (prog_async_op p)
     \<and> ef = PErrorFeedback (prog_error_feedback p)"
  by (cases a; cases ef) (auto simp: make_CommunicationProgram_def split: option.splits)

section \<open>Compilation context and runtime bindings\<close>

record compile_context =
  ctx_rank :: int
  ctx_world_size :: int
  ctx_shape :: "int list"
  ctx_dtype :: data_type
  ctx_device_type :: string
  ctx_device_architecture :: string
  ctx_topology_signature :: string
  ctx_layout_generation :: int
  ctx_workspace_budget_bytes :: "int option"

text \<open>
  \<open>shape\<close> is any iterable, given by its elements; \<open>layout_generation\<close> and the budget are
  compared with 0 without a type test, so they are integers here.
\<close>

definition make_CompileContext ::
    "pyval \<Rightarrow> pyval \<Rightarrow> pyval list \<Rightarrow> pyval \<Rightarrow> pyval \<Rightarrow> pyval \<Rightarrow> pyval \<Rightarrow> int \<Rightarrow> int option
     \<Rightarrow> compile_context res" where
  [constructor_defs]:
  "make_CompileContext rank world_size shape dtype device_type device_architecture
      topology_signature layout_generation workspace_budget_bytes =
     (if \<not> is_plain_int world_size then Inl (TypeError ''world_size must be an integer'')
      else if the_int world_size \<le> 0 then Inl (ValueError ''world_size must be > 0'')
      else if \<not> is_plain_int rank then Inl (TypeError ''rank must be an integer'')
      else if the_int rank < 0 \<or> the_int world_size \<le> the_int rank
        then Inl (ValueError ''rank must be within world_size'')
      else if (\<exists>size \<in> set shape. \<not> is_plain_int size \<or> the_int size < 0)
        then Inl (ValueError ''shape dimensions must be non-negative integers'')
      else if \<not> is_data_type dtype then Inl (TypeError ''dtype must be a DataType'')
      else if \<not> non_empty_string device_type
        then Inl (ValueError ''device_type must be a non-empty string'')
      else if \<not> non_empty_string device_architecture
        then Inl (ValueError ''device_architecture must be a non-empty string'')
      else if \<not> non_empty_string topology_signature
        then Inl (ValueError ''topology_signature must be a non-empty string'')
      else if layout_generation < 0 then Inl (ValueError ''layout_generation must be >= 0'')
      else if (case workspace_budget_bytes of None \<Rightarrow> False | Some b \<Rightarrow> b < 0)
        then Inl (ValueError ''workspace_budget_bytes must be >= 0'')
      else Inr \<lparr>ctx_rank = the_int rank, ctx_world_size = the_int world_size,
                ctx_shape = map the_int shape, ctx_dtype = the_data_type dtype,
                ctx_device_type = the_str device_type,
                ctx_device_architecture = the_str device_architecture,
                ctx_topology_signature = the_str topology_signature,
                ctx_layout_generation = layout_generation,
                ctx_workspace_budget_bytes = workspace_budget_bytes\<rparr>)"

definition valid_context :: "compile_context \<Rightarrow> bool" where
  "valid_context c \<longleftrightarrow>
     0 < ctx_world_size c \<and> 0 \<le> ctx_rank c \<and> ctx_rank c < ctx_world_size c
     \<and> (\<forall>d \<in> set (ctx_shape c). 0 \<le> d)
     \<and> py_strip (ctx_device_type c) \<noteq> [] \<and> py_strip (ctx_device_architecture c) \<noteq> []
     \<and> py_strip (ctx_topology_signature c) \<noteq> [] \<and> 0 \<le> ctx_layout_generation c
     \<and> (\<forall>b. ctx_workspace_budget_bytes c = Some b \<longrightarrow> 0 \<le> b)"

lemma make_CompileContext_valid:
  "make_CompileContext r w s d dev arch topo gen bud = Inr c \<Longrightarrow> valid_context c"
  by (auto simp: make_CompileContext_def valid_context_def non_empty_string_def
      not_less split: if_splits option.splits)

lemma make_CompileContext_complete:
  assumes "valid_context c"
  shows "make_CompileContext (PInt (ctx_rank c)) (PInt (ctx_world_size c))
           (map PInt (ctx_shape c)) (PDataType (ctx_dtype c)) (PStr (ctx_device_type c))
           (PStr (ctx_device_architecture c)) (PStr (ctx_topology_signature c))
           (ctx_layout_generation c) (ctx_workspace_budget_bytes c) = Inr c"
  using assms
  by (auto simp: make_CompileContext_def valid_context_def o_def split: option.splits)

text \<open>Opaque objects the caller owns; the compiler only carries them.\<close>

record runtime_bindings =
  rb_process_group :: pyval
  rb_backend_runtime :: pyval
  rb_stream_provider :: pyval
  rb_allocator :: pyval

section \<open>Lowered programs\<close>

record lowered_stage =
  st_name :: string
  st_wire :: wire
  st_collective :: bool

definition make_LoweredStage :: "pyval \<Rightarrow> wire option \<Rightarrow> bool \<Rightarrow> lowered_stage res" where
  [constructor_defs]:
  "make_LoweredStage name wire collective =
     (if \<not> non_empty_string name
        then Inl (ValueError ''lowered stage name must be a non-empty string'')
      else case wire of None \<Rightarrow> Inl (TypeError ''lowered stage wire must not be None'')
      | Some w \<Rightarrow> Inr \<lparr>st_name = the_str name, st_wire = w, st_collective = collective\<rparr>)"

record lowered_program =
  low_target :: string
  low_program :: program
  low_stages :: "lowered_stage list"
  low_context :: compile_context
  low_bindings :: runtime_bindings

definition make_LoweredProgram ::
    "pyval \<Rightarrow> program \<Rightarrow> lowered_stage list \<Rightarrow> compile_context \<Rightarrow> runtime_bindings
     \<Rightarrow> lowered_program res" where
  [constructor_defs]:
  "make_LoweredProgram target program stages context bindings =
     (if \<not> non_empty_string target
        then Inl (ValueError ''lowered target must be a non-empty string'')
      else if stages = []
        then Inl (ValueError ''lowered program must contain at least one stage'')
      else Inr \<lparr>low_target = the_str target, low_program = program, low_stages = stages,
                low_context = context, low_bindings = bindings\<rparr>)"

section \<open>Backend capabilities and the record of a decision\<close>

record backend_capabilities =
  cap_target :: string
  cap_supported_bits :: "int set"
  cap_supported_algorithms :: "string set"
  cap_supports_full_tensor :: bool
  cap_supports_reduced_shard :: bool

definition make_BackendCapabilities ::
    "pyval \<Rightarrow> int set \<Rightarrow> string set \<Rightarrow> bool \<Rightarrow> bool \<Rightarrow> backend_capabilities res" where
  [constructor_defs]:
  "make_BackendCapabilities target bits algorithms full shard =
     (if \<not> non_empty_string target
        then Inl (ValueError ''backend target must be a non-empty string'')
      else Inr \<lparr>cap_target = the_str target, cap_supported_bits = bits,
                cap_supported_algorithms = algorithms, cap_supports_full_tensor = full,
                cap_supports_reduced_shard = shard\<rparr>)"

text \<open>The default of the \<open>supported_algorithms\<close> field.\<close>

definition default_supported_algorithms :: "string set" where
  "default_supported_algorithms =
     {''native'', ''compressed_all_gather'', ''compressed_reduce_scatter'', ''compressed_rs_ag''}"

record execution_info =
  ei_requested_algorithm :: string
  ei_effective_algorithm :: string
  ei_requested_wire :: wire
  ei_effective_wire :: wire
  ei_fallback_reason :: "string option"
  ei_evidence_id :: "string option"

end
