(* ===== verification/Ring.thy ===== *)
theory Ring
  imports Core_Types
begin

text \<open>
  \<open>backends/cuda/transports/ring.py\<close>: the immutable ring schedule.  The module computes
  schedules only; what they are for is stated here by running all ranks' schedules in
  lock step over per-rank chunk buffers (\<open>reduce_phase\<close>, \<open>gather_phase\<close>), which is the
  abstract specification the schedule is proved against.
\<close>

section \<open>Schedules\<close>

record ring_step =
  rs_send_peer :: int
  rs_recv_peer :: int
  rs_send_chunk :: int
  rs_recv_chunk :: int

record ring_schedule =
  ring_rank :: int
  ring_world_size :: int
  ring_reduce_scatter :: "ring_step list"
  ring_all_gather :: "ring_step list"

definition ring_validate :: "pyval \<Rightarrow> pyval \<Rightarrow> unit res" where
  "ring_validate world_size rank =
     (if \<not> is_plain_int world_size then Inl (TypeError ''world_size must be an integer'')
      else if the_int world_size \<le> 0 then Inl (ValueError ''world_size must be positive'')
      else if \<not> is_plain_int rank then Inl (TypeError ''rank must be an integer'')
      else if the_int rank < 0 \<or> the_int world_size \<le> the_int rank
        then Inl (ValueError ''rank must be within world_size'')
      else Inr ())"

definition reduce_step :: "int \<Rightarrow> int \<Rightarrow> int \<Rightarrow> ring_step" where
  "reduce_step world_size rank step =
     \<lparr>rs_send_peer = (rank + 1) mod world_size, rs_recv_peer = (rank - 1) mod world_size,
      rs_send_chunk = (rank - step) mod world_size,
      rs_recv_chunk = (rank - step - 1) mod world_size\<rparr>"

definition gather_step :: "int \<Rightarrow> int \<Rightarrow> int \<Rightarrow> ring_step" where
  "gather_step world_size rank step =
     \<lparr>rs_send_peer = (rank + 1) mod world_size, rs_recv_peer = (rank - 1) mod world_size,
      rs_send_chunk = (rank - step + 1) mod world_size,
      rs_recv_chunk = (rank - step) mod world_size\<rparr>"

definition compile_ring_schedule :: "pyval \<Rightarrow> pyval \<Rightarrow> ring_schedule res" where
  [planner_defs]:
  "compile_ring_schedule world_size rank =
     rbind (ring_validate world_size rank) (\<lambda>_.
       let n = the_int world_size; r = the_int rank;
           steps = map int [0 ..< nat (n - 1)]
       in Inr \<lparr>ring_rank = r, ring_world_size = n,
               ring_reduce_scatter = map (reduce_step n r) steps,
               ring_all_gather = map (gather_step n r) steps\<rparr>)"

lemma ring_validate_Inr [simp]:
  "ring_validate w r = Inr u \<longleftrightarrow> (\<exists>n k. w = PInt n \<and> r = PInt k \<and> 0 \<le> k \<and> k < n)"
  by (cases w; cases r) (auto simp: ring_validate_def)

lemma compile_ring_schedule_Inr:
  "compile_ring_schedule w r = Inr s \<longleftrightarrow>
     (\<exists>n k. w = PInt n \<and> r = PInt k \<and> 0 \<le> k \<and> k < n \<and>
        s = \<lparr>ring_rank = k, ring_world_size = n,
             ring_reduce_scatter = map (\<lambda>i. reduce_step n k (int i)) [0 ..< nat (n - 1)],
             ring_all_gather = map (\<lambda>i. gather_step n k (int i)) [0 ..< nat (n - 1)]\<rparr>)"
  by (auto simp: compile_ring_schedule_def Let_def o_def)

definition the_ring :: "int \<Rightarrow> int \<Rightarrow> ring_schedule" where
  "the_ring n k =
     \<lparr>ring_rank = k, ring_world_size = n,
      ring_reduce_scatter = map (\<lambda>i. reduce_step n k (int i)) [0 ..< nat (n - 1)],
      ring_all_gather = map (\<lambda>i. gather_step n k (int i)) [0 ..< nat (n - 1)]\<rparr>"

lemma compile_ring_schedule_the_ring:
  "0 \<le> k \<Longrightarrow> k < n \<Longrightarrow> compile_ring_schedule (PInt n) (PInt k) = Inr (the_ring n k)"
  by (simp add: compile_ring_schedule_Inr the_ring_def)

section \<open>Pairing of sends and receives\<close>

text \<open>Two schedules agree at a step: what one receives is what the other sends to it.\<close>

definition paired :: "int \<Rightarrow> ring_step \<Rightarrow> ring_step \<Rightarrow> bool" where
  "paired rank mine peers \<longleftrightarrow>
     rs_send_peer peers = rank \<and> rs_send_chunk peers = rs_recv_chunk mine"

lemma mod_pred_succ: "0 \<le> k \<Longrightarrow> k < n \<Longrightarrow> ((k - 1) mod n + 1) mod n = (k :: int)"
  by (metis diff_add_cancel mod_add_left_eq mod_pos_pos_trivial)

lemma mod_pred_diff: "((k - 1) mod n - i) mod n = (k - i - 1) mod (n :: int)"
proof -
  have "((k - 1) mod n - i) mod n = (k - 1 - i) mod n"
    by (rule mod_diff_left_eq)
  moreover have "k - 1 - i = k - i - 1" by simp
  ultimately show ?thesis by presburger
qed

lemma mod_pred_diff_succ: "((k - 1) mod n - i + 1) mod n = (k - i) mod (n :: int)"
  using mod_pred_diff[of k n "i - 1"] by (simp add: diff_diff_eq2 diff_add_eq)

lemma reduce_step_paired:
  "0 \<le> k \<Longrightarrow> k < n \<Longrightarrow> paired k (reduce_step n k i) (reduce_step n ((k - 1) mod n) i)"
  by (simp add: paired_def reduce_step_def mod_pred_succ mod_pred_diff)

lemma gather_step_paired:
  "0 \<le> k \<Longrightarrow> k < n \<Longrightarrow> paired k (gather_step n k i) (gather_step n ((k - 1) mod n) i)"
  by (simp add: paired_def gather_step_def mod_pred_succ mod_pred_diff_succ)

section \<open>Running the schedules\<close>

text \<open>
  The world holds, for every rank and chunk index, the partial result of that chunk.  In
  one step every rank receives, from its receive peer, the chunk that peer sends; the
  reduce-scatter phase adds it to its own, the all-gather phase overwrites.
\<close>

type_synonym 'a world = "int \<Rightarrow> int \<Rightarrow> 'a"

definition reduce_round :: "(int \<Rightarrow> ring_step) \<Rightarrow> 'a::comm_monoid_add world \<Rightarrow> 'a world" where
  "reduce_round st b = (\<lambda>r c.
     if c = rs_recv_chunk (st r)
     then b r c + b (rs_recv_peer (st r)) (rs_send_chunk (st (rs_recv_peer (st r))))
     else b r c)"

definition gather_round :: "(int \<Rightarrow> ring_step) \<Rightarrow> 'a world \<Rightarrow> 'a world" where
  "gather_round st b = (\<lambda>r c.
     if c = rs_recv_chunk (st r)
     then b (rs_recv_peer (st r)) (rs_send_chunk (st (rs_recv_peer (st r))))
     else b r c)"

definition reduce_phase ::
    "(int \<Rightarrow> ring_schedule) \<Rightarrow> nat \<Rightarrow> 'a::comm_monoid_add world \<Rightarrow> 'a world" where
  "reduce_phase sched m b =
     fold (\<lambda>i. reduce_round (\<lambda>r. ring_reduce_scatter (sched r) ! i)) [0 ..< m] b"

definition gather_phase :: "(int \<Rightarrow> ring_schedule) \<Rightarrow> nat \<Rightarrow> 'a world \<Rightarrow> 'a world" where
  "gather_phase sched m b =
     fold (\<lambda>i. gather_round (\<lambda>r. ring_all_gather (sched r) ! i)) [0 ..< m] b"

lemma reduce_phase_Suc:
  "reduce_phase sched (Suc m) b =
     reduce_round (\<lambda>r. ring_reduce_scatter (sched r) ! m) (reduce_phase sched m b)"
  by (simp add: reduce_phase_def)

lemma gather_phase_Suc:
  "gather_phase sched (Suc m) b =
     gather_round (\<lambda>r. ring_all_gather (sched r) ! m) (gather_phase sched m b)"
  by (simp add: gather_phase_def)

lemma mod_sub_inj:
  assumes "(r - i) mod n = (r - j) mod (n :: int)"
    and "0 \<le> i" "i < n" "0 \<le> j" "j < n"
  shows "i = j"
proof -
  have "n dvd (r - i) - (r - j)"
    using assms(1) by (rule mod_eq_dvd_iff[THEN iffD1])
  then have "n dvd j - i" by simp
  moreover have "\<bar>j - i\<bar> < n" using assms(2-) by linarith
  ultimately show ?thesis
    by (metis dvd_imp_le_int abs_of_nonneg abs_of_nat eq_iff_diff_eq_0 linorder_not_le
        order.strict_trans2 zdvd_not_zless zero_less_abs_iff dvd_abs_iff)
qed

text \<open>
  After \<open>m\<close> reduce-scatter steps rank \<open>r\<close> holds, for its chunk at distance \<open>k\<close> behind it,
  the sum over itself and its \<open>min k m\<close> predecessors when \<open>k \<le> m\<close>, else its own
  contribution only.
\<close>

lemma reduce_phase_invariant:
  fixes b :: "'a::comm_monoid_add world"
  assumes n: "0 < n" and m: "int m \<le> n - 1"
    and r: "0 \<le> r" "r < n" and k: "0 \<le> k" "k < n"
  shows "reduce_phase (the_ring n) m b r ((r - k) mod n) =
     (if k \<le> int m then (\<Sum>j\<le>nat k. b ((r - int j) mod n) ((r - k) mod n))
      else b r ((r - k) mod n))"
  using m r k
proof (induction m arbitrary: r k)
  case 0
  then show ?case by (auto simp: reduce_phase_def)
next
  case (Suc m)
  let ?b = "reduce_phase (the_ring n) m b"
  let ?p = "(r - 1) mod n"
  have p: "0 \<le> ?p" "?p < n" using n by simp_all
  have mb: "m < nat (n - 1)" using Suc.prems(1) by linarith
  have step: "reduce_phase (the_ring n) (Suc m) b r c =
      (if c = (r - (int m + 1)) mod n then ?b r c + ?b ?p ((?p - int m) mod n) else ?b r c)" for c
    using mb by (simp add: reduce_phase_Suc reduce_round_def the_ring_def reduce_step_def
        algebra_simps)
  have pm: "(?p - int m) mod n = (r - (int m + 1)) mod n"
    by (simp add: mod_pred_diff diff_diff_eq)
  have pj: "(?p - int j) mod n = (r - int (Suc j)) mod n" for j
    by (simp add: mod_pred_diff diff_diff_eq add.commute)
  show ?case
  proof (cases "k = int m + 1")
    case True
    have own: "?b r ((r - k) mod n) = b r ((r - k) mod n)"
      using Suc.IH[of r k] Suc.prems True by simp
    have "?b ?p ((?p - int m) mod n) =
        (\<Sum>j\<le>nat (int m). b ((?p - int j) mod n) ((?p - int m) mod n))"
      using Suc.IH[of ?p "int m"] Suc.prems p by simp
    also have "\<dots> = (\<Sum>j\<le>m. b ((r - int (Suc j)) mod n) ((r - k) mod n))"
      unfolding pm by (simp only: nat_int pj True)
    finally have "?b ?p ((?p - int m) mod n) =
        (\<Sum>j\<le>m. b ((r - int (Suc j)) mod n) ((r - k) mod n))" .
    moreover have "nat k = Suc m" using True by simp
    ultimately show ?thesis
      using own True Suc.prems by (simp add: step sum.atMost_Suc_shift del: sum.atMost_Suc)
  next
    case False
    then have "(r - k) mod n \<noteq> (r - (int m + 1)) mod n"
      using mod_sub_inj[of r k n "int m + 1"] Suc.prems by auto
    then show ?thesis
      using Suc.IH[of r k] Suc.prems False by (auto simp: step)
  qed
qed

text \<open>Going once round the ring backwards meets every rank exactly once.\<close>

lemma sum_around:
  fixes f :: "int \<Rightarrow> 'a::comm_monoid_add"
  assumes n: "0 < n"
  shows "(\<Sum>j<nat n. f ((r - int j) mod n)) = (\<Sum>q \<in> {0..<n}. f q)"
proof (rule sum.reindex_bij_betw)
  have inj: "inj_on (\<lambda>j. (r - int j) mod n) {..<nat n}"
  proof (rule inj_onI)
    fix i j assume "i \<in> {..<nat n}" "j \<in> {..<nat n}"
      and "(r - int i) mod n = (r - int j) mod n"
    then show "i = j" using mod_sub_inj[of r "int i" n "int j"] by simp
  qed
  moreover have "(\<lambda>j. (r - int j) mod n) ` {..<nat n} = {0..<n}"
  proof (rule card_subset_eq)
    show "(\<lambda>j. (r - int j) mod n) ` {..<nat n} \<subseteq> {0..<n}"
      using n by auto
    show "card ((\<lambda>j. (r - int j) mod n) ` {..<nat n}) = card {0..<n}"
      using inj by (simp add: card_image)
  qed simp
  ultimately show "bij_betw (\<lambda>j. (r - int j) mod n) {..<nat n} {0..<n}"
    by (simp add: bij_betw_def)
qed

lemma reduce_phase_complete:
  fixes b :: "'a::comm_monoid_add world"
  assumes "0 \<le> r" "r < n"
  shows "reduce_phase (the_ring n) (nat (n - 1)) b r ((r + 1) mod n)
     = (\<Sum>q \<in> {0..<n}. b q ((r + 1) mod n))"
proof -
  have n: "0 < n" using assms by simp
  have c: "(r - (n - 1)) mod n = (r + 1) mod n"
    by (metis add_diff_eq diff_add_eq minus_mod_self2 diff_diff_eq2)
  have "Suc (nat (n - 1)) = nat n" using n by simp
  then have "{..nat (n - 1)} = {..<nat n}"
    by (metis lessThan_Suc_atMost)
  then show ?thesis
    using reduce_phase_invariant[OF n _ assms, of "nat (n - 1)" "n - 1" b] n
      sum_around[OF n, of "\<lambda>q. b q ((r + 1) mod n)" r]
    by (simp add: c)
qed

text \<open>
  The all-gather phase starts where every rank holds the finished chunk after its own, and
  spreads it: after \<open>m\<close> steps the \<open>m + 1\<close> chunks ending there are finished.
\<close>

lemma gather_phase_invariant:
  assumes n: "0 < n" and m: "int m \<le> n - 1"
    and start: "\<And>r. 0 \<le> r \<Longrightarrow> r < n \<Longrightarrow> b r ((r + 1) mod n) = full ((r + 1) mod n)"
    and r: "0 \<le> r" "r < n" and k: "0 \<le> k" "k \<le> int m"
  shows "gather_phase (the_ring n) m b r ((r + 1 - k) mod n) = full ((r + 1 - k) mod n)"
  using m r k
proof (induction m arbitrary: r k)
  case 0
  then show ?case by (simp add: gather_phase_def start)
next
  case (Suc m)
  let ?b = "gather_phase (the_ring n) m b"
  let ?p = "(r - 1) mod n"
  have p: "0 \<le> ?p" "?p < n" using n by simp_all
  have mb: "m < nat (n - 1)" using Suc.prems(1) by linarith
  have step: "gather_phase (the_ring n) (Suc m) b r c =
      (if c = (r - int m) mod n then ?b ?p ((?p - int m + 1) mod n) else ?b r c)" for c
    using mb by (simp add: gather_phase_Suc gather_round_def the_ring_def gather_step_def)
  have pm: "(?p - int m + 1) mod n = (r - int m) mod n"
    by (rule mod_pred_diff_succ)
  show ?case
  proof (cases "(r + 1 - k) mod n = (r - int m) mod n")
    case True
    have "?b ?p ((?p - int m + 1) mod n) = full ((?p - int m + 1) mod n)"
      using Suc.IH[of ?p "int m"] Suc.prems p by (simp add: diff_add_eq)
    then show ?thesis
      using True by (simp add: step pm)
  next
    case False
    then have "k \<noteq> int m + 1" by (auto simp: algebra_simps)
    then show ?thesis
      using Suc.IH[of r k] Suc.prems False by (simp add: step)
  qed
qed

lemma gather_phase_complete:
  assumes "\<And>r. 0 \<le> r \<Longrightarrow> r < n \<Longrightarrow> b r ((r + 1) mod n) = full ((r + 1) mod n)"
    and "0 \<le> r" "r < n" and "0 \<le> c" "c < n"
  shows "gather_phase (the_ring n) (nat (n - 1)) b r c = full c"
proof -
  have n: "0 < n" using assms by simp
  let ?k = "(r + 1 - c) mod n"
  have k: "0 \<le> ?k" "?k \<le> n - 1"
    using n pos_mod_bound[OF n, of "r + 1 - c"] by simp_all
  have "(r + 1 - ?k) mod n = c mod n"
    by (simp add: mod_diff_right_eq)
  then have c: "(r + 1 - ?k) mod n = c"
    using assms by simp
  show ?thesis
    using gather_phase_invariant[where b = b and full = full and m = "nat (n - 1)" and r = r
        and k = ?k, OF n _ assms(1)] k n assms c
    by simp
qed

text \<open>A full all-reduce: reduce-scatter, then all-gather.\<close>

definition ring_all_reduce ::
    "(int \<Rightarrow> ring_schedule) \<Rightarrow> nat \<Rightarrow> 'a::comm_monoid_add world \<Rightarrow> 'a world" where
  "ring_all_reduce sched m b = gather_phase sched m (reduce_phase sched m b)"

lemma ring_all_reduce_complete:
  fixes b :: "'a::comm_monoid_add world"
  assumes "0 \<le> r" "r < n" and "0 \<le> c" "c < n"
  shows "ring_all_reduce (the_ring n) (nat (n - 1)) b r c = (\<Sum>q \<in> {0..<n}. b q c)"
  unfolding ring_all_reduce_def
  by (rule gather_phase_complete[where full = "\<lambda>c. \<Sum>q \<in> {0..<n}. b q c"])
    (use assms in \<open>auto simp: reduce_phase_complete\<close>)

section \<open>Properties\<close>

text \<open>The schedule compiled for every rank of a ring.\<close>

definition compiled_ring :: "int \<Rightarrow> int \<Rightarrow> ring_schedule" where
  "compiled_ring n r =
     (case compile_ring_schedule (PInt n) (PInt r) of Inr s \<Rightarrow> s | Inl _ \<Rightarrow> the_ring n r)"

lemma compiled_ring_eq: "compiled_ring n = the_ring n"
  by (rule ext) (auto simp: compiled_ring_def compile_ring_schedule_Inr the_ring_def split: sum.splits)

text \<open>At every step of both phases the peer a rank receives from sends to that rank, and
  sends the chunk the rank expects; every rank takes the same number of steps.\<close>

theorem ring_steps_paired:
  assumes "compile_ring_schedule (PInt n) (PInt r) = Inr mine" and "i < nat (n - 1)"
  shows "\<exists>peer. compile_ring_schedule (PInt n) (PInt (rs_recv_peer (ring_reduce_scatter mine ! i))) = Inr peer
     \<and> rs_recv_peer (ring_all_gather mine ! i) = rs_recv_peer (ring_reduce_scatter mine ! i)
     \<and> paired r (ring_reduce_scatter mine ! i) (ring_reduce_scatter peer ! i)
     \<and> paired r (ring_all_gather mine ! i) (ring_all_gather peer ! i)
     \<and> length (ring_reduce_scatter peer) = length (ring_reduce_scatter mine)
     \<and> length (ring_all_gather peer) = length (ring_all_gather mine)"
proof -
  have r: "0 \<le> r" "r < n" and mine: "mine = the_ring n r"
    using assms(1) by (auto simp: compile_ring_schedule_Inr the_ring_def)
  have peer: "compile_ring_schedule (PInt n) (PInt ((r - 1) mod n)) = Inr (the_ring n ((r - 1) mod n))"
    using r by (intro compile_ring_schedule_the_ring) auto
  have recv: "rs_recv_peer (reduce_step n r (int i)) = (r - 1) mod n"
    "rs_recv_peer (gather_step n r (int i)) = (r - 1) mod n"
    by (simp_all add: reduce_step_def gather_step_def)
  show ?thesis
    using peer recv reduce_step_paired[OF r] gather_step_paired[OF r] assms(2)
    by (simp add: mine the_ring_def)
qed

theorem ring_steps_paired_witness:
  "\<exists>mine peer. compile_ring_schedule (PInt 3) (PInt 0) = Inr mine
     \<and> compile_ring_schedule (PInt 3) (PInt 2) = Inr peer
     \<and> paired 0 (ring_reduce_scatter mine ! 1) (ring_reduce_scatter peer ! 1)"
proof -
  have c: "compile_ring_schedule (PInt 3) (PInt 0) = Inr (the_ring 3 0)"
    by (rule compile_ring_schedule_the_ring) simp_all
  have "rs_recv_peer (ring_reduce_scatter (the_ring 3 0) ! 1) = 2"
    by (simp add: the_ring_def reduce_step_def)
  then show ?thesis
    using ring_steps_paired[OF c, of 1] c by auto
qed

text \<open>C3: running the two phases of the compiled schedules leaves every chunk of every rank
  equal to the sum of that chunk over all ranks.\<close>

theorem ring_all_reduce_sums:
  fixes b :: "int \<Rightarrow> int \<Rightarrow> 'a::comm_monoid_add"
  assumes "0 \<le> r" and "r < n" and "0 \<le> c" and "c < n"
  shows "ring_all_reduce (compiled_ring n) (nat (n - 1)) b r c = (\<Sum>q \<in> {0..<n}. b q c)"
  unfolding compiled_ring_eq by (rule ring_all_reduce_complete[OF assms])

theorem ring_all_reduce_sums_witness:
  "ring_all_reduce (compiled_ring 3) 2 (\<lambda>q c. 10 * q + c :: int) 1 2 = 36"
proof -
  have "{0..<3 :: int} = {0, 1, 2}" by auto
  then show ?thesis
    using ring_all_reduce_sums[of 1 3 2 "\<lambda>q c. 10 * q + c"] by simp
qed

end
