(* ===== verification/Tree_Schedule.thy ===== *)
theory Tree_Schedule
  imports Core_Types
begin

text \<open>
  \<open>backends/cuda/transports/tree.py\<close>: root-relative binary-tree schedules.  Ranks are
  renumbered relative to the root (their logical index), the tree is the binary heap on
  logical indices.  \<open>climb\<close> follows parents and \<open>broadcast_order\<close> follows children; both run
  on the compiled schedules of all ranks and state what the schedules are for.
\<close>

section \<open>The schedule\<close>

record tree_schedule =
  tr_rank :: int
  tr_world_size :: int
  tr_root :: int
  tr_parent :: "int option"
  tr_children :: "int list"

definition tree_rank_check :: "pyval \<Rightarrow> pyval \<Rightarrow> string \<Rightarrow> unit res" where
  "tree_rank_check world_size rank name =
     (if \<not> is_plain_int world_size then Inl (TypeError ''world_size must be an integer'')
      else if the_int world_size \<le> 0 then Inl (ValueError ''world_size must be positive'')
      else if \<not> is_plain_int rank then Inl (TypeError (name @ '' must be an integer''))
      else if the_int rank < 0 \<or> the_int world_size \<le> the_int rank
        then Inl (ValueError (name @ '' must be within world_size''))
      else Inr ())"

text \<open>The schedule computed once both ranks have passed the checks.\<close>

definition the_tree :: "int \<Rightarrow> int \<Rightarrow> int \<Rightarrow> tree_schedule" where
  "the_tree n rt r =
     (let logical = (r - rt) mod n in
      \<lparr>tr_rank = r, tr_world_size = n, tr_root = rt,
       tr_parent = (if logical = 0 then None else Some (((logical - 1) div 2 + rt) mod n)),
       tr_children = map (\<lambda>child. (child + rt) mod n)
         (filter (\<lambda>child. child < n) [2 * logical + 1, 2 * logical + 2])\<rparr>)"

definition compile_tree_schedule :: "pyval \<Rightarrow> pyval \<Rightarrow> pyval \<Rightarrow> tree_schedule res" where
  [planner_defs]:
  "compile_tree_schedule world_size rank root_arg =
     rbind (tree_rank_check world_size rank ''rank'') (\<lambda>_.
     rbind (tree_rank_check world_size root_arg ''root'') (\<lambda>_.
       Inr (the_tree (the_int world_size) (the_int root_arg) (the_int rank))))"

lemma tree_rank_check_Inr [simp]:
  "tree_rank_check w r name = Inr u \<longleftrightarrow> (\<exists>n k. w = PInt n \<and> r = PInt k \<and> 0 \<le> k \<and> k < n)"
  by (cases w; cases r) (auto simp: tree_rank_check_def)

lemma compile_tree_schedule_Inr:
  "compile_tree_schedule w r ra = Inr s \<longleftrightarrow>
     (\<exists>n k rt. w = PInt n \<and> r = PInt k \<and> ra = PInt rt \<and> 0 \<le> k \<and> k < n
        \<and> 0 \<le> rt \<and> rt < n \<and> s = the_tree n rt k)"
  by (auto simp: compile_tree_schedule_def)

section \<open>Logical indices\<close>

definition logical_of :: "int \<Rightarrow> int \<Rightarrow> int \<Rightarrow> int" where
  "logical_of n rt r = (r - rt) mod n"

definition rank_of :: "int \<Rightarrow> int \<Rightarrow> int \<Rightarrow> int" where
  "rank_of n rt l = (l + rt) mod n"

lemma logical_rank [simp]: "0 \<le> l \<Longrightarrow> l < n \<Longrightarrow> logical_of n rt (rank_of n rt l) = l"
  by (simp add: logical_of_def rank_of_def mod_diff_left_eq)

lemma rank_logical [simp]: "0 \<le> r \<Longrightarrow> r < n \<Longrightarrow> rank_of n rt (logical_of n rt r) = r"
  by (simp add: logical_of_def rank_of_def mod_add_left_eq)

lemma rank_of_range [simp]: "0 < n \<Longrightarrow> 0 \<le> rank_of n rt l \<and> rank_of n rt l < n"
  by (simp add: rank_of_def)

lemma logical_of_range [simp]:
  "0 < n \<Longrightarrow> 0 \<le> logical_of n rt r" "0 < n \<Longrightarrow> logical_of n rt r < n"
  by (simp_all add: logical_of_def)

lemma tree_parent:
  "tr_parent (the_tree n rt r) =
     (let l = logical_of n rt r in if l = 0 then None else Some (rank_of n rt ((l - 1) div 2)))"
  by (simp add: the_tree_def logical_of_def rank_of_def Let_def)

lemma tree_children:
  "set (tr_children (the_tree n rt r)) =
     rank_of n rt ` {c. (c = 2 * logical_of n rt r + 1 \<or> c = 2 * logical_of n rt r + 2) \<and> c < n}"
  by (auto simp: the_tree_def logical_of_def rank_of_def Let_def)

lemma parent_child:
  assumes r: "0 \<le> r" "r < n" and q: "0 \<le> q" "q < n"
  shows "q \<in> set (tr_children (the_tree n rt r)) \<longleftrightarrow> tr_parent (the_tree n rt q) = Some r"
proof -
  have n: "0 < n" using r by simp
  let ?l = "logical_of n rt r" and ?m = "logical_of n rt q"
  have l: "0 \<le> ?l" "?l < n" and m: "0 \<le> ?m" "?m < n" using n by auto
  have "q \<in> set (tr_children (the_tree n rt r)) \<longleftrightarrow> ?m = 2 * ?l + 1 \<or> ?m = 2 * ?l + 2"
  proof
    assume "q \<in> set (tr_children (the_tree n rt r))"
    then show "?m = 2 * ?l + 1 \<or> ?m = 2 * ?l + 2"
      using l by (auto simp: tree_children)
  next
    assume h: "?m = 2 * ?l + 1 \<or> ?m = 2 * ?l + 2"
    have "q = rank_of n rt ?m" using q by simp
    then show "q \<in> set (tr_children (the_tree n rt r))"
      using h m(2) unfolding tree_children by blast
  qed
  moreover have "tr_parent (the_tree n rt q) = Some r \<longleftrightarrow> ?m \<noteq> 0 \<and> (?m - 1) div 2 = ?l"
  proof -
    have "?m \<noteq> 0 \<Longrightarrow> 0 \<le> (?m - 1) div 2 \<and> (?m - 1) div 2 < n"
      using m by linarith
    then have "?m \<noteq> 0 \<Longrightarrow> rank_of n rt ((?m - 1) div 2) = r \<longleftrightarrow> (?m - 1) div 2 = ?l"
      using r by (metis logical_rank rank_logical)
    then show ?thesis by (simp add: tree_parent Let_def)
  qed
  moreover have "?m = 2 * ?l + 1 \<or> ?m = 2 * ?l + 2 \<longleftrightarrow> ?m \<noteq> 0 \<and> (?m - 1) div 2 = ?l"
    using l m by presburger
  ultimately show ?thesis by simp
qed

lemma children_range:
  "0 < n \<Longrightarrow> q \<in> set (tr_children (the_tree n rt r)) \<Longrightarrow> 0 \<le> q \<and> q < n"
  by (auto simp: tree_children)

lemma children_distinct:
  assumes "0 < n" shows "distinct (tr_children (the_tree n rt r))"
proof -
  let ?l = "logical_of n rt r"
  have "rank_of n rt (2 * ?l + 1) \<noteq> rank_of n rt (2 * ?l + 2)" if "2 * ?l + 2 < n"
  proof
    assume "rank_of n rt (2 * ?l + 1) = rank_of n rt (2 * ?l + 2)"
    then have "logical_of n rt (rank_of n rt (2 * ?l + 1))
        = logical_of n rt (rank_of n rt (2 * ?l + 2))" by simp
    moreover have "0 \<le> ?l" using assms by simp
    ultimately show False using that by simp
  qed
  then show ?thesis
    by (auto simp: the_tree_def logical_of_def rank_of_def Let_def)
qed

section \<open>Climbing to the root\<close>

fun climb :: "(int \<Rightarrow> tree_schedule) \<Rightarrow> nat \<Rightarrow> int \<Rightarrow> int option" where
  "climb sched 0 r = Some r"
| "climb sched (Suc k) r =
     (case tr_parent (sched r) of None \<Rightarrow> None | Some p \<Rightarrow> climb sched k p)"

lemma climb_eq:
  assumes "0 \<le> r" "r < n"
  shows "climb (the_tree n rt) k r =
    (let l = logical_of n rt r + 1
     in if 2 ^ k \<le> l then Some (rank_of n rt (l div 2 ^ k - 1)) else None)"
  using assms
proof (induction k arbitrary: r)
  case 0
  then show ?case by simp
next
  case (Suc k)
  let ?l = "logical_of n rt r"
  have n: "0 < n" using Suc.prems by simp
  have l: "0 \<le> ?l" "?l < n" using n by auto
  show ?case
  proof (cases "?l = 0")
    case True
    have "\<not> (2::int) ^ Suc k \<le> 1"
      using one_less_power[of "2 :: int" "Suc k"] by linarith
    then show ?thesis using True by (simp add: tree_parent Let_def)
  next
    case False
    let ?p = "rank_of n rt ((?l - 1) div 2)"
    have "0 \<le> (?l - 1) div 2" "(?l - 1) div 2 < n" using l False by linarith+
    then have lp: "logical_of n rt ?p + 1 = (?l + 1) div 2" by simp
    have p: "0 \<le> ?p" "?p < n" using n by simp_all
    have le: "(2::int) ^ k \<le> (?l + 1) div 2 \<longleftrightarrow> 2 ^ Suc k \<le> ?l + 1"
      by (simp add: le_div_2_iff)
    have "(?l + 1) div 2 div 2 ^ k = (?l + 1) div 2 ^ Suc k"
      by (simp add: zdiv_zmult2_eq)
    then show ?thesis
      using Suc.IH[OF p] False unfolding lp by (simp add: tree_parent Let_def le)
  qed
qed

lemma climb_Suc_right:
  "climb sched (Suc k) q = Some r \<longleftrightarrow> (\<exists>c. climb sched k q = Some c \<and> tr_parent (sched c) = Some r)"
  by (induction k arbitrary: q) (auto split: option.splits)

text \<open>Every rank reaches the root after exactly \<open>d\<close> steps, \<open>d\<close> the bit length of its logical index.\<close>

lemma climb_reaches_root:
  assumes "0 \<le> r" "r < n" "0 \<le> rt" "rt < n"
  shows "\<exists>d. climb (the_tree n rt) d r = Some rt \<and> 2 ^ d \<le> logical_of n rt r + 1
           \<and> logical_of n rt r + 1 < 2 ^ Suc d"
proof -
  let ?l = "logical_of n rt r + 1"
  have l: "0 < ?l" using logical_of_range(1)[of n rt r] assms by linarith
  obtain d where d: "2 ^ d \<le> ?l" "?l < 2 ^ Suc d"
    using ex_pow2[OF l] by blast
  have "?l div 2 ^ d = 1"
    using d by (intro int_div_pos_eq[where r = "?l - 2 ^ d"]) auto
  then have "climb (the_tree n rt) d r = Some (rank_of n rt 0)"
    using assms d(1) by (simp add: climb_eq Let_def)
  moreover have "rank_of n rt 0 = rt"
    using assms by (simp add: rank_of_def)
  ultimately show ?thesis using d by auto
qed

section \<open>Broadcasting down the tree\<close>

text \<open>
  The ranks a message from \<open>r\<close> reaches in at most \<open>fuel\<close> hops, every rank forwarding to its
  children.
\<close>

fun broadcast_order :: "(int \<Rightarrow> tree_schedule) \<Rightarrow> nat \<Rightarrow> int \<Rightarrow> int list" where
  "broadcast_order sched 0 r = [r]"
| "broadcast_order sched (Suc fuel) r =
     r # concat (map (broadcast_order sched fuel) (tr_children (sched r)))"

lemma broadcast_range:
  "0 < n \<Longrightarrow> 0 \<le> r \<Longrightarrow> r < n \<Longrightarrow> q \<in> set (broadcast_order (the_tree n rt) fuel r) \<Longrightarrow>
     0 \<le> q \<and> q < n"
proof (induction fuel arbitrary: r)
  case 0
  then show ?case by simp
next
  case (Suc fuel)
  then show ?case using children_range[of n] by fastforce
qed

lemma broadcast_climb:
  assumes "0 \<le> r" "r < n" "0 \<le> q" "q < n"
  shows "q \<in> set (broadcast_order (the_tree n rt) fuel r) \<longleftrightarrow>
    (\<exists>k \<le> fuel. climb (the_tree n rt) k q = Some r)"
  using assms(1,2)
proof (induction fuel arbitrary: r)
  case 0
  then show ?case by auto
next
  case (Suc fuel)
  have n: "0 < n" using Suc.prems by simp
  have in_range: "climb (the_tree n rt) k q = Some c \<Longrightarrow> 0 \<le> c \<and> c < n" for k c
    using n assms(3,4) by (auto simp: climb_eq Let_def split: if_splits)
  have pc: "c \<in> set (tr_children (the_tree n rt r)) \<longleftrightarrow> tr_parent (the_tree n rt c) = Some r"
    if "climb (the_tree n rt) k q = Some c" for k c
    using in_range[OF that] parent_child[OF Suc.prems] by blast
  have ih: "q \<in> set (broadcast_order (the_tree n rt) fuel c) \<longleftrightarrow>
      (\<exists>k \<le> fuel. climb (the_tree n rt) k q = Some c)"
    if "c \<in> set (tr_children (the_tree n rt r))" for c
    using Suc.IH children_range[OF n that] by blast
  have "q \<in> set (broadcast_order (the_tree n rt) (Suc fuel) r) \<longleftrightarrow>
      q = r \<or> (\<exists>c \<in> set (tr_children (the_tree n rt r)).
        q \<in> set (broadcast_order (the_tree n rt) fuel c))"
    by simp
  also have "\<dots> \<longleftrightarrow>
      q = r \<or> (\<exists>c \<in> set (tr_children (the_tree n rt r)). \<exists>k \<le> fuel.
        climb (the_tree n rt) k q = Some c)"
    using ih by simp
  also have "\<dots> \<longleftrightarrow> q = r \<or> (\<exists>k \<le> fuel. climb (the_tree n rt) (Suc k) q = Some r)"
    unfolding climb_Suc_right using pc by (metis (no_types))
  also have "\<dots> \<longleftrightarrow> (\<exists>k \<le> Suc fuel. climb (the_tree n rt) k q = Some r)"
    by (simp only: ex_le_Suc climb.simps(1) option.inject)
  finally show ?case .
qed

lemma climb_inj:
  assumes "0 \<le> q" "q < n" "climb (the_tree n rt) i q = Some c" "climb (the_tree n rt) j q = Some c"
  shows "i = j"
proof -
  let ?l = "logical_of n rt q + 1"
  have n: "0 < n" and l: "?l \<le> n" using assms logical_of_range(2)[of n rt q] by linarith+
  have eq: "?l div 2 ^ k - 1 = logical_of n rt c \<and> 2 ^ k \<le> ?l"
    if "climb (the_tree n rt) k q = Some c" for k
  proof -
    have k: "2 ^ k \<le> ?l" and c: "c = rank_of n rt (?l div 2 ^ k - 1)"
      using that assms(1,2) by (auto simp: climb_eq Let_def split: if_splits)
    have "1 \<le> ?l div 2 ^ k"
      using k by (simp add: pos_imp_zdiv_pos_iff int_one_le_iff_zero_less)
    moreover have "?l div 2 ^ k \<le> ?l"
      using k logical_of_range(1)[OF n, of rt q] by (intro div_le_self) auto
    ultimately have "logical_of n rt c = ?l div 2 ^ k - 1"
      unfolding c using l by (intro logical_rank) linarith+
    then show ?thesis using k by linarith
  qed
  have strict: "?l div 2 ^ b < ?l div 2 ^ a" if "a < b" "2 ^ b \<le> ?l" for a b
  proof -
    obtain d where b: "b = a + Suc d" using less_imp_Suc_add[OF \<open>a < b\<close>] by auto
    have e: "?l div 2 ^ b = ?l div 2 ^ a div 2 ^ Suc d"
      unfolding b power_add by (rule zdiv_zmult2_eq) simp
    have "0 < ?l div 2 ^ b"
      using that by (simp add: pos_imp_zdiv_pos_iff)
    then have "2 ^ Suc d \<le> ?l div 2 ^ a"
      unfolding e by (subst (asm) pos_imp_zdiv_pos_iff) auto
    then have "0 < ?l div 2 ^ a"
      using zero_less_power[of "2 :: int" "Suc d"] by linarith
    then show ?thesis
      unfolding e using one_less_power[of "2 :: int" "Suc d"] by (intro int_div_less_self) auto
  qed
  show ?thesis
    using eq[OF assms(3)] eq[OF assms(4)] strict[of i j] strict[of j i]
    by (metis diff_add_cancel linorder_neqE_nat order_less_irrefl)
qed

text \<open>No rank receives the message twice.\<close>

lemma broadcast_distinct:
  assumes "0 \<le> r" "r < n"
  shows "distinct (broadcast_order (the_tree n rt) fuel r)"
  using assms
proof (induction fuel arbitrary: r)
  case 0
  then show ?case by simp
next
  case (Suc fuel)
  let ?t = "the_tree n rt"
  have n: "0 < n" using Suc.prems by simp
  have up: "\<exists>k. climb ?t (Suc k) q = Some r \<and> climb ?t k q = Some c"
    if "c \<in> set (tr_children (?t r))" "q \<in> set (broadcast_order ?t fuel c)" for c q
  proof -
    have c: "0 \<le> c" "c < n" using children_range[OF n that(1)] by auto
    have q: "0 \<le> q" "q < n" using broadcast_range[OF n c that(2)] by auto
    note reached = that(2)
    obtain k where k: "climb ?t k q = Some c"
      using reached broadcast_climb[OF c q] by blast
    moreover have "tr_parent (?t c) = Some r"
      using parent_child[OF Suc.prems c] that(1) by blast
    ultimately show ?thesis unfolding climb_Suc_right by blast
  qed
  have rng: "0 \<le> q \<and> q < n"
    if "c \<in> set (tr_children (?t r))" "q \<in> set (broadcast_order ?t fuel c)" for c q
    using children_range[OF n that(1)] broadcast_range[OF n] that(2) by blast
  have disj: "set (broadcast_order ?t fuel c) \<inter> set (broadcast_order ?t fuel d) = {}"
    if "c \<in> set (tr_children (?t r))" "d \<in> set (tr_children (?t r))" "c \<noteq> d" for c d
  proof (rule ccontr)
    assume "\<not> ?thesis"
    then obtain q where q: "q \<in> set (broadcast_order ?t fuel c)" "q \<in> set (broadcast_order ?t fuel d)"
      by auto
    note cd = that
    obtain i j where ij: "climb ?t (Suc i) q = Some r" "climb ?t i q = Some c"
        "climb ?t (Suc j) q = Some r" "climb ?t j q = Some d"
      using up[OF cd(1) q(1)] up[OF cd(2) q(2)] by blast
    then have "Suc i = Suc j"
      using climb_inj[of q n rt "Suc i" r "Suc j"] rng[OF cd(1) q(1)] by blast
    then show False using ij cd(3) by simp
  qed
  have self: "r \<notin> set (broadcast_order ?t fuel c)" if "c \<in> set (tr_children (?t r))" for c
  proof
    assume "r \<in> set (broadcast_order ?t fuel c)"
    from up[OF that this] obtain k where "climb ?t (Suc k) r = Some r" by blast
    then show False using climb_inj[of r n rt "Suc k" r 0] Suc.prems by auto
  qed
  have "distinct (broadcast_order ?t fuel c)" if "c \<in> set (tr_children (?t r))" for c
    using Suc.IH children_range[OF n that] by blast
  moreover have "distinct (map (broadcast_order ?t fuel) (tr_children (?t r)))"
    using children_distinct[OF n, of rt r] disj
    by (auto simp: distinct_map inj_on_def) (metis broadcast_order.elims disjoint_iff list.set_intros(1))
  ultimately have "distinct (concat (map (broadcast_order ?t fuel) (tr_children (?t r))))"
    using disj by (intro distinct_concat) auto
  then show ?case using self by auto
qed

lemma broadcast_all:
  assumes "0 \<le> rt" "rt < n" and fuel: "n \<le> 2 ^ fuel"
  shows "set (broadcast_order (the_tree n rt) fuel rt) = {0..<n}"
proof (intro equalityI subsetI)
  fix q assume "q \<in> set (broadcast_order (the_tree n rt) fuel rt)"
  then show "q \<in> {0..<n}" using broadcast_range[of n rt q rt fuel] assms by auto
next
  fix q assume "q \<in> {0..<n}"
  then have q: "0 \<le> q" "q < n" by auto
  obtain d where d: "climb (the_tree n rt) d q = Some rt" "2 ^ d \<le> logical_of n rt q + 1"
    using climb_reaches_root[OF q assms(1,2)] by blast
  have "(2::int) ^ d \<le> 2 ^ fuel"
    using d(2) fuel logical_of_range(2)[of n rt q] q by linarith
  then have "d \<le> fuel" by (metis one_less_numeral_iff power_le_imp_le_exp semiring_norm(76))
  then show "q \<in> set (broadcast_order (the_tree n rt) fuel rt)"
    using broadcast_climb[OF assms(1,2) q] d(1) by blast
qed

section \<open>Properties\<close>

text \<open>The schedule compiled for every rank of a tree.\<close>

definition compiled_tree :: "int \<Rightarrow> int \<Rightarrow> int \<Rightarrow> tree_schedule" where
  "compiled_tree n rt r =
     (case compile_tree_schedule (PInt n) (PInt r) (PInt rt) of Inr s \<Rightarrow> s | Inl _ \<Rightarrow> the_tree n rt r)"

lemma compiled_tree_eq: "compiled_tree n rt = the_tree n rt"
  by (rule ext) (auto simp: compiled_tree_def compile_tree_schedule_def split: sum.splits)

text \<open>The compiled schedules of two ranks agree on every edge: a rank lists another as a
  child exactly when that other has it as its parent, and only the root has no parent.\<close>

theorem tree_edges_agree:
  assumes "compile_tree_schedule (PInt n) (PInt p) (PInt rt) = Inr parent"
    and "compile_tree_schedule (PInt n) (PInt c) (PInt rt) = Inr child"
  shows "(c \<in> set (tr_children parent) \<longleftrightarrow> tr_parent child = Some p)
     \<and> (tr_parent child = None \<longleftrightarrow> c = rt) \<and> distinct (tr_children parent)"
proof -
  have h: "0 \<le> p" "p < n" "0 \<le> c" "c < n" "0 \<le> rt" "rt < n"
    and e: "parent = the_tree n rt p" "child = the_tree n rt c"
    using assms by (auto simp: compile_tree_schedule_Inr)
  have "tr_parent child = None \<longleftrightarrow> logical_of n rt c = 0"
    by (simp add: e the_tree_def logical_of_def Let_def)
  also have "\<dots> \<longleftrightarrow> c = rt"
  proof
    assume "logical_of n rt c = 0"
    then have "rank_of n rt 0 = c" using rank_logical[of c n rt] h by simp
    then show "c = rt" using h by (simp add: rank_of_def)
  qed (simp add: logical_of_def)
  finally show ?thesis
    using parent_child[of p n c rt] children_distinct[of n rt p] h by (simp add: e)
qed

theorem tree_edges_agree_witness:
  "\<exists>parent child. compile_tree_schedule (PInt 5) (PInt 3) (PInt 2) = Inr parent
     \<and> compile_tree_schedule (PInt 5) (PInt 0) (PInt 2) = Inr child
     \<and> 0 \<in> set (tr_children parent) \<and> tr_parent child = Some 3"
proof -
  have c: "compile_tree_schedule (PInt 5) (PInt 3) (PInt 2) = Inr (the_tree 5 2 3)"
    "compile_tree_schedule (PInt 5) (PInt 0) (PInt 2) = Inr (the_tree 5 2 0)"
    by (simp_all add: compile_tree_schedule_Inr)
  have "0 \<in> set (tr_children (the_tree 5 2 3))"
    by (simp add: the_tree_def Let_def)
  then show ?thesis
    using tree_edges_agree[OF c] c by auto
qed

text \<open>C18: forwarding a message down the compiled tree from the root delivers it to every rank
  exactly once, within as many hops as the bit length of the world size.\<close>

theorem tree_broadcast_once:
  assumes "0 \<le> rt" and "rt < n" and "n \<le> 2 ^ hops"
  shows "distinct (broadcast_order (compiled_tree n rt) hops rt)
     \<and> set (broadcast_order (compiled_tree n rt) hops rt) = {0..<n}"
  unfolding compiled_tree_eq using broadcast_distinct broadcast_all assms by blast

theorem tree_broadcast_once_witness:
  "set (broadcast_order (compiled_tree 5 2) 3 2) = {0..<5}
     \<and> distinct (broadcast_order (compiled_tree 5 2) 3 2)"
  using tree_broadcast_once[of 2 5 3] by simp

text \<open>C19: from every rank, following the compiled parents reaches the root after \<open>d\<close> hops, where
  \<open>2 ^ d\<close> is at most the world size.\<close>

theorem tree_depth_logarithmic:
  assumes "0 \<le> r" and "r < n" and "0 \<le> rt" and "rt < n"
  shows "\<exists>d. climb (compiled_tree n rt) d r = Some rt \<and> 2 ^ d \<le> n"
proof -
  obtain d where "climb (the_tree n rt) d r = Some rt" "2 ^ d \<le> logical_of n rt r + 1"
    using climb_reaches_root[OF assms] by blast
  moreover have "logical_of n rt r < n"
    using assms by (simp add: logical_of_def)
  ultimately show ?thesis
    unfolding compiled_tree_eq by (intro exI[of _ d]) linarith
qed

theorem tree_depth_logarithmic_witness:
  "\<exists>d. climb (compiled_tree 5 2) d 0 = Some 2 \<and> 2 ^ d \<le> (5 :: int)"
  using tree_depth_logarithmic[of 0 5 2] by simp

end
