(* ===== verification/Topology.thy ===== *)
theory Topology
  imports Core_Types
begin

text \<open>
  \<open>compiler/passes/topology.py\<close>: parsing \<open>node_ids=<id per rank>\<close> into immutable rank
  groups.  The lemmas say that the groups partition the ranks by node id, in order of
  first appearance, and that the leaders are the least ranks of their groups.
\<close>

section \<open>Definitions\<close>

record topology =
  tp_node_ids :: "int list"
  tp_node_groups :: "int list list"
  tp_leaders :: "int list"

definition topology_world_size :: "topology \<Rightarrow> int" where
  "topology_world_size t = int (length (tp_node_ids t))"

text \<open>\<open>next(group for group in groups if node_ids[group[0]] == node_id)\<close>.\<close>

fun first_group :: "int list \<Rightarrow> int \<Rightarrow> int list list \<Rightarrow> int list res" where
  "first_group ids node_id [] = Inl StopIteration"
| "first_group ids node_id (g # gs) =
     rbind (py_index g 0) (\<lambda>r.
     rbind (py_index ids r) (\<lambda>i.
       if i = node_id then Inr g else first_group ids node_id gs))"

definition group_for_rank :: "topology \<Rightarrow> pyval \<Rightarrow> int list res" where
  "group_for_rank t rank =
     (if \<not> is_plain_int rank then Inl (TypeError ''rank must be an integer'')
      else if the_int rank < 0 \<or> topology_world_size t \<le> the_int rank
        then Inl (ValueError ''rank must be within world_size'')
      else rbind (py_index (tp_node_ids t) (the_int rank)) (\<lambda>node_id.
             first_group (tp_node_ids t) node_id (tp_node_groups t)))"

text \<open>\<open>dict.fromkeys\<close>: the elements in order of first appearance.\<close>

fun dict_fromkeys :: "'a list \<Rightarrow> 'a list" where
  "dict_fromkeys [] = []"
| "dict_fromkeys (x # xs) = x # filter (\<lambda>y. y \<noteq> x) (dict_fromkeys xs)"

text \<open>The ranks whose node id is \<open>node_id\<close>, ascending.\<close>

definition ranks_of_node :: "int list \<Rightarrow> int \<Rightarrow> int list" where
  "ranks_of_node ids node_id = map int (filter (\<lambda>r. ids ! r = node_id) [0 ..< length ids])"

fun parse_ids :: "string list \<Rightarrow> int list option" where
  "parse_ids [] = Some []"
| "parse_ids (p # ps) =
     (case py_int (py_strip p) of
        None \<Rightarrow> None
      | Some i \<Rightarrow> map_option (\<lambda>is. i # is) (parse_ids ps))"

definition parse_topology_signature :: "pyval \<Rightarrow> pyval \<Rightarrow> topology res" where
  [planner_defs]:
  "parse_topology_signature signature world_size =
     (if \<not> is_plain_int world_size then Inl (TypeError ''world_size must be an integer'')
      else if the_int world_size \<le> 0 then Inl (ValueError ''world_size must be positive'')
      else if \<not> is_str signature \<or> \<not> py_startswith (the_str signature) ''node_ids=''
        then Inl (ValueError ''topology signature must use node_ids=<comma-separated ids>'')
      else case parse_ids (py_split CHR '','' (py_removeprefix (the_str signature) ''node_ids='')) of
          None \<Rightarrow> Inl (ValueError ''topology node ids must be integers'')
        | Some node_ids \<Rightarrow>
          if int (length node_ids) \<noteq> the_int world_size
            then Inl (ValueError ''topology rank count does not match world_size'')
          else if list_ex (\<lambda>node_id. node_id < 0) node_ids
            then Inl (ValueError ''topology node ids must be non-negative'')
          else
            let ordered_ids = dict_fromkeys node_ids;
                groups = map (ranks_of_node node_ids) ordered_ids
            in Inr \<lparr>tp_node_ids = node_ids, tp_node_groups = groups, tp_leaders = map hd groups\<rparr>)"

section \<open>Grouping\<close>

lemma set_dict_fromkeys [simp]: "set (dict_fromkeys xs) = set xs"
  by (induction xs) auto

lemma distinct_dict_fromkeys [simp]: "distinct (dict_fromkeys xs)"
  by (induction xs) auto

definition topology_of :: "int list \<Rightarrow> topology" where
  "topology_of ids =
     \<lparr>tp_node_ids = ids, tp_node_groups = map (ranks_of_node ids) (dict_fromkeys ids),
      tp_leaders = map hd (map (ranks_of_node ids) (dict_fromkeys ids))\<rparr>"

lemma parse_topology_signature_Inr:
  "parse_topology_signature s w = Inr t \<Longrightarrow>
     \<exists>n ids. w = PInt n \<and> 0 < n \<and> int (length ids) = n \<and> (\<forall>i \<in> set ids. 0 \<le> i)
       \<and> t = topology_of ids"
  by (cases w)
    (auto simp: parse_topology_signature_def topology_of_def Let_def list_ex_iff not_less)

lemma set_ranks_of_node:
  "set (ranks_of_node ids i) = {int r | r. r < length ids \<and> ids ! r = i}"
  by (auto simp: ranks_of_node_def)

lemma ranks_of_node_nonempty: "i \<in> set ids \<Longrightarrow> ranks_of_node ids i \<noteq> []"
  using set_ranks_of_node[of ids i] by (auto simp: in_set_conv_nth)

lemma distinct_ranks_of_node [simp]: "distinct (ranks_of_node ids i)"
  by (simp add: ranks_of_node_def distinct_map)

lemma sorted_ranks_of_node [simp]: "sorted (ranks_of_node ids i)"
  by (simp add: ranks_of_node_def sorted_map sorted_filter[where f = "\<lambda>x. x", simplified]
      sorted_wrt_filter sorted_wrt_map)

definition partitions :: "int \<Rightarrow> int list list \<Rightarrow> bool" where
  "partitions n gs \<longleftrightarrow> distinct (concat gs) \<and> set (concat gs) = {0..<n} \<and> [] \<notin> set gs"

lemma groups_partition:
  "partitions (int (length ids)) (tp_node_groups (topology_of ids))"
proof -
  have "distinct (concat (map (ranks_of_node ids) (dict_fromkeys ids)))"
  proof (rule distinct_concat)
    show "distinct (map (ranks_of_node ids) (dict_fromkeys ids))"
      unfolding distinct_map
    proof
      show "inj_on (ranks_of_node ids) (set (dict_fromkeys ids))"
      proof (rule inj_onI)
        fix i j assume i: "i \<in> set (dict_fromkeys ids)"
          and eq: "ranks_of_node ids i = ranks_of_node ids j"
        obtain r where "r < length ids" "ids ! r = i"
          using i by (auto simp: in_set_conv_nth)
        then have "int r \<in> set (ranks_of_node ids i)" "ids ! r = i"
          by (auto simp: set_ranks_of_node)
        then show "i = j" unfolding eq by (auto simp: set_ranks_of_node)
      qed
    qed simp
  qed (auto simp: set_ranks_of_node)
  moreover have "set (concat (map (ranks_of_node ids) (dict_fromkeys ids))) = {0..<int (length ids)}"
    by (auto simp: set_ranks_of_node) (metis nat_less_iff nth_mem int_nat_eq)
  ultimately show ?thesis
    using ranks_of_node_nonempty[of _ ids]
    by (simp add: partitions_def topology_of_def image_iff) metis
qed

lemma same_group_iff_same_node:
  assumes "g \<in> set (tp_node_groups (topology_of ids))" "int r \<in> set g" "q < length ids"
  shows "int q \<in> set g \<longleftrightarrow> ids ! q = ids ! r"
  using assms by (auto simp: topology_of_def set_ranks_of_node)

lemma leader_least:
  assumes "g \<in> set (tp_node_groups (topology_of ids))" "r \<in> set g"
  shows "hd g \<le> r" and "hd g \<in> set g"
proof -
  obtain i where g: "g = ranks_of_node ids i"
    using assms(1) by (auto simp: topology_of_def)
  have "g \<noteq> []" using assms(2) by auto
  then obtain x xs where gx: "g = x # xs" by (cases g) auto
  have "sorted g" using g by simp
  then show "hd g \<le> r" "hd g \<in> set g" using assms(2) by (auto simp: gx)
qed

section \<open>Lookup\<close>

lemma first_group_ranks:
  assumes "\<And>i. i \<in> set is \<Longrightarrow> i \<in> set ids" and "j \<in> set is"
  shows "first_group ids j (map (ranks_of_node ids) is) = Inr (ranks_of_node ids j)"
  using assms
proof (induction "is")
  case Nil
  then show ?case by simp
next
  case (Cons i "is")
  have ne: "ranks_of_node ids i \<noteq> []"
    using Cons.prems(1)[of i] by (simp add: ranks_of_node_nonempty)
  then obtain r rs where r: "ranks_of_node ids i = r # rs" by (cases "ranks_of_node ids i") auto
  then have "r \<in> set (ranks_of_node ids i)" by simp
  then obtain k where k: "r = int k" "k < length ids" "ids ! k = i"
    by (auto simp: set_ranks_of_node)
  then have "py_index ids r = Inr i" by simp
  then show ?case
    using Cons r by auto
qed

lemma group_for_rank_topology_of:
  assumes "0 \<le> r" "r < int (length ids)"
  shows "group_for_rank (topology_of ids) (PInt r) = Inr (ranks_of_node ids (ids ! nat r))"
proof -
  have "ids ! nat r \<in> set ids" using assms by simp
  then show ?thesis
    using assms first_group_ranks[of "dict_fromkeys ids" ids "ids ! nat r"]
    by (simp add: group_for_rank_def topology_of_def topology_world_size_def)
qed

lemma group_for_rank_member:
  assumes "0 \<le> r" "r < int (length ids)"
  shows "\<exists>g. group_for_rank (topology_of ids) (PInt r) = Inr g \<and> r \<in> set g
     \<and> g \<in> set (tp_node_groups (topology_of ids))"
proof -
  have "r \<in> set (ranks_of_node ids (ids ! nat r))"
    using assms by (auto simp: set_ranks_of_node) (metis int_nat_eq nat_less_iff)
  moreover have "ids ! nat r \<in> set ids" using assms by simp
  ultimately show ?thesis
    using group_for_rank_topology_of[OF assms] by (auto simp: topology_of_def)
qed

section \<open>Signatures are read back\<close>

text \<open>A launcher's rendering of a list of node ids, and the parser reading it back.\<close>

fun join_commas :: "string list \<Rightarrow> string" where
  "join_commas [] = []"
| "join_commas [x] = x"
| "join_commas (x # y # xs) = x @ CHR '','' # join_commas (y # xs)"

definition signature_of :: "nat list \<Rightarrow> string" where
  "signature_of ids = ''node_ids='' @ join_commas (map show_nat ids)"

lemma show_nat_no_comma: "CHR '','' \<notin> set (show_nat n)"
  using show_nat_digits[of n] not_digit_special(3) by blast

lemma digit_not_space: "is_digit c \<Longrightarrow> \<not> py_isspace c"
  by (auto simp: is_digit_def digit_value_def py_isspace_def Let_def)

lemma py_int_show_nat: "py_int (py_strip (show_nat n)) = Some (int n)"
proof -
  note d = show_nat_digits[of n]
  obtain c s where cs: "show_nat n = c # s" using d by (cases "show_nat n") auto
  have "py_strip (show_nat n) = show_nat n"
    using d by (intro py_strip_id) (auto dest: digit_not_space)
  moreover have "is_digit c" using d cs by auto
  then have "c \<noteq> CHR ''-''" "c \<noteq> CHR ''+''" by auto
  moreover have "parse_digits False 0 (show_nat n @ []) = Some (int n)"
    using d by (subst parse_digits_append) auto
  ultimately show ?thesis
    by (simp add: py_int_def cs)
qed

lemma py_split_single: "sep \<notin> set s \<Longrightarrow> py_split sep s = [s]"
  by (induction s) auto

lemma py_split_append: "sep \<notin> set s \<Longrightarrow> py_split sep (s @ sep # t) = s # py_split sep t"
  by (induction s) auto

lemma split_join_commas:
  "xs \<noteq> [] \<Longrightarrow> (\<And>x. x \<in> set xs \<Longrightarrow> CHR '','' \<notin> set x) \<Longrightarrow>
     py_split CHR '','' (join_commas xs) = xs"
  by (induction xs rule: join_commas.induct) (auto simp: py_split_single py_split_append)

lemma parse_ids_show_nat: "parse_ids (map show_nat ids) = Some (map int ids)"
  by (induction ids) (auto simp: py_int_show_nat)

lemma parse_signature_of:
  assumes "ids \<noteq> []"
  shows "parse_topology_signature (PStr (signature_of ids)) (PInt (int (length ids)))
     = Inr (topology_of (map int ids))"
proof -
  have "py_split CHR '','' (join_commas (map show_nat ids)) = map show_nat ids"
    using assms by (intro split_join_commas) (auto simp: show_nat_no_comma)
  then show ?thesis
    using assms
    by (simp add: parse_topology_signature_def signature_of_def parse_ids_show_nat topology_of_def
        Let_def list_ex_iff del: append.simps append_Cons)
qed

section \<open>Properties\<close>

text \<open>C20: a parsed signature partitions the ranks into one group per node: the group looked up
  for a rank holds exactly the ranks with its node id, it is one of the topology's groups, and
  its first rank, the leader, is its least.\<close>

theorem topology_groups_by_node:
  assumes "parse_topology_signature signature w = Inr t" and "0 \<le> r" and "r < topology_world_size t"
  shows "\<exists>g. group_for_rank t (PInt r) = Inr g \<and> g \<in> set (tp_node_groups t) \<and> r \<in> set g
     \<and> (\<forall>q. q \<in> set g \<longleftrightarrow> 0 \<le> q \<and> q < topology_world_size t
          \<and> tp_node_ids t ! nat q = tp_node_ids t ! nat r)
     \<and> hd g \<le> r \<and> hd g \<in> set (tp_leaders t)
     \<and> partitions (topology_world_size t) (tp_node_groups t)"
proof -
  obtain ids where t: "t = topology_of ids"
    using parse_topology_signature_Inr[OF assms(1)] by blast
  have n: "topology_world_size t = int (length ids)" "tp_node_ids t = ids"
    by (simp_all add: t topology_of_def topology_world_size_def)
  obtain g where g: "group_for_rank t (PInt r) = Inr g" "r \<in> set g" "g \<in> set (tp_node_groups t)"
    using group_for_rank_member[of r ids] assms(2,3) n t by auto
  have "g = ranks_of_node ids (ids ! nat r)"
    using group_for_rank_topology_of[of r ids] g(1) assms(2,3) n t by simp
  then have "q \<in> set g \<longleftrightarrow> 0 \<le> q \<and> q < int (length ids) \<and> ids ! nat q = ids ! nat r" for q
    by (auto simp: set_ranks_of_node) (metis int_nat_eq nat_less_iff)
  moreover have "hd g \<in> set (tp_leaders t)"
    using g(3) by (auto simp: t topology_of_def)
  moreover have "hd g \<le> r"
    using leader_least(1)[of g ids r] g(2,3) t by simp
  ultimately show ?thesis
    using g groups_partition[of ids] n t by auto
qed

theorem topology_groups_by_node_witness:
  "\<exists>t g. parse_topology_signature (PStr ''node_ids=1,0,1'') (PInt 3) = Inr t
     \<and> group_for_rank t (PInt 2) = Inr g \<and> 0 \<in> set g \<and> 1 \<notin> set g \<and> hd g \<le> 2"
proof -
  have p: "parse_topology_signature (PStr ''node_ids=1,0,1'') (PInt 3) = Inr (topology_of [1, 0, 1])"
  proof -
    have "signature_of [1, 0, 1] = ''node_ids=1,0,1''" by code_simp
    then show ?thesis using parse_signature_of[of "[1, 0, 1]"] by simp
  qed
  have w: "topology_world_size (topology_of [1, 0, 1]) = 3" "tp_node_ids (topology_of [1, 0, 1]) = [1, 0, 1]"
    by (simp_all add: topology_world_size_def topology_of_def)
  then show ?thesis
    using topology_groups_by_node[OF p, of 2] p by auto
qed

text \<open>Every list of node ids is the topology read back from its written signature, and a
  signature is accepted only for the world size it lists.\<close>

theorem topology_signature_roundtrip:
  assumes "ids \<noteq> []"
  shows "parse_topology_signature (PStr (signature_of ids)) (PInt (int (length ids)))
       = Inr (topology_of (map int ids))
     \<and> (parse_topology_signature (PStr (signature_of ids)) w = Inr t \<longrightarrow> w = PInt (int (length ids)))"
proof (intro conjI impI)
  show p: "parse_topology_signature (PStr (signature_of ids)) (PInt (int (length ids)))
      = Inr (topology_of (map int ids))"
    by (rule parse_signature_of[OF assms])
  assume "parse_topology_signature (PStr (signature_of ids)) w = Inr t"
  then show "w = PInt (int (length ids))"
    using p by (cases w) (auto simp: parse_topology_signature_def Let_def split: if_splits option.splits)
qed

theorem topology_signature_roundtrip_witness:
  "parse_topology_signature (PStr (signature_of [0, 12])) (PInt 2) = Inr (topology_of [0, 12])"
  using topology_signature_roundtrip[of "[0, 12]"] by simp

end
