(* ===== verification/Hierarchical.thy ===== *)
theory Hierarchical
  imports Topology
begin

text \<open>
  \<open>backends/cuda/transports/hierarchical.py\<close>: the hierarchy plan of a rank and the
  three-stage mean.  A rank's run is the list of blocking calls it issues; the world runs
  the programs of all ranks under any interleaving.  A collective fires when every member
  of its group has reached it, with its documented effect (after \<open>reduce\<close> only the
  destination's buffer is determined).  Every interleaving ends, none deadlocks, and every
  end state holds the mean on every rank.
\<close>

section \<open>Plans\<close>

record hierarchy_plan =
  hp_rank :: int
  hp_local_group :: "int list"
  hp_local_leader :: int
  hp_leader_group :: "int list"
  hp_is_leader :: bool
  hp_stage_order :: "string list"

text \<open>A process group is given by its members.\<close>

record hierarchy_bindings =
  hb_local_group :: "int list"
  hb_leader_group :: "int list"

text \<open>\<open>None\<close> is an argument that is not a Topology.\<close>

definition compile_hierarchy :: "topology option \<Rightarrow> pyval \<Rightarrow> hierarchy_plan res" where
  [planner_defs]:
  "compile_hierarchy topology rank =
     (case topology of
        None \<Rightarrow> Inl (TypeError ''topology must be a Topology'')
      | Some t \<Rightarrow>
          rbind (group_for_rank t rank) (\<lambda>local_group.
          rbind (py_index local_group 0) (\<lambda>leader.
          Inr \<lparr>hp_rank = the_int rank, hp_local_group = local_group, hp_local_leader = leader,
               hp_leader_group = tp_leaders t, hp_is_leader = (the_int rank = leader),
               hp_stage_order = [''intra_reduce'', ''inter_reduce'', ''intra_broadcast'']\<rparr>)))"

datatype call =
    Reduce int "int list"
  | AllReduce "int list"
  | DivBy int
  | Broadcast int "int list"

definition execute_hierarchical_mean ::
    "hierarchy_plan \<Rightarrow> hierarchy_bindings \<Rightarrow> int \<Rightarrow> call list" where
  "execute_hierarchical_mean plan bindings world_size =
     [Reduce (hp_local_leader plan) (hb_local_group bindings)]
     @ (if hp_is_leader plan then [AllReduce (hb_leader_group bindings), DivBy world_size] else [])
     @ [Broadcast (hp_local_leader plan) (hb_local_group bindings)]"

section \<open>The world\<close>

record 'a hier_world =
  hw_prog :: "int \<Rightarrow> call list"
  hw_val :: "int \<Rightarrow> 'a"

definition all_at :: "'a hier_world \<Rightarrow> int list \<Rightarrow> call \<Rightarrow> bool" where
  "all_at s g c \<longleftrightarrow> (\<forall>q \<in> set g. \<exists>rest. hw_prog s q = c # rest)"

definition advance :: "'a hier_world \<Rightarrow> int list \<Rightarrow> int \<Rightarrow> call list" where
  "advance s g = (\<lambda>q. if q \<in> set g then tl (hw_prog s q) else hw_prog s q)"

text \<open>\<open>scale x n\<close> is the element division of \<open>tensor.div_(n)\<close>.\<close>

inductive hier_step ::
    "('a::comm_monoid_add \<Rightarrow> int \<Rightarrow> 'a) \<Rightarrow> 'a hier_world \<Rightarrow> 'a hier_world \<Rightarrow> bool"
  for scale where
  reduce: "dst \<in> set g \<Longrightarrow> all_at s g (Reduce dst g) \<Longrightarrow>
     v dst = (\<Sum>q \<in> set g. hw_val s q) \<Longrightarrow> (\<And>q. q \<notin> set g \<Longrightarrow> v q = hw_val s q) \<Longrightarrow>
     hier_step scale s \<lparr>hw_prog = advance s g, hw_val = v\<rparr>"
| all_reduce: "g \<noteq> [] \<Longrightarrow> all_at s g (AllReduce g) \<Longrightarrow>
     v = (\<lambda>q. if q \<in> set g then \<Sum>q \<in> set g. hw_val s q else hw_val s q) \<Longrightarrow>
     hier_step scale s \<lparr>hw_prog = advance s g, hw_val = v\<rparr>"
| scale: "hw_prog s q = DivBy n # rest \<Longrightarrow>
     hier_step scale s \<lparr>hw_prog = advance s [q],
                        hw_val = (hw_val s)(q := scale (hw_val s q) n)\<rparr>"
| broadcast: "src \<in> set g \<Longrightarrow> all_at s g (Broadcast src g) \<Longrightarrow>
     v = (\<lambda>q. if q \<in> set g then hw_val s src else hw_val s q) \<Longrightarrow>
     hier_step scale s \<lparr>hw_prog = advance s g, hw_val = v\<rparr>"

inductive hier_reachable ::
    "('a::comm_monoid_add \<Rightarrow> int \<Rightarrow> 'a) \<Rightarrow> 'a hier_world \<Rightarrow> 'a hier_world \<Rightarrow> bool"
  for scale s0 where
  start: "hier_reachable scale s0 s0"
| step: "hier_reachable scale s0 s \<Longrightarrow> hier_step scale s t \<Longrightarrow> hier_reachable scale s0 t"

text \<open>Every rank runs the plan compiled for it, with process groups created from that plan.\<close>

definition rank_program :: "int list \<Rightarrow> int \<Rightarrow> call list" where
  "rank_program ids r =
     (case compile_hierarchy (Some (topology_of ids)) (PInt r) of
        Inl _ \<Rightarrow> []
      | Inr plan \<Rightarrow> execute_hierarchical_mean plan
          \<lparr>hb_local_group = hp_local_group plan, hb_leader_group = hp_leader_group plan\<rparr>
          (int (length ids)))"

definition initial_world :: "int list \<Rightarrow> (int \<Rightarrow> 'a) \<Rightarrow> 'a hier_world" where
  "initial_world ids v0 = \<lparr>hw_prog = rank_program ids, hw_val = v0\<rparr>"

definition finished :: "'a hier_world \<Rightarrow> bool" where
  "finished s \<longleftrightarrow> (\<forall>r. hw_prog s r = [])"

section \<open>Phases of a group\<close>

datatype phase = Start | Reduced | Summed | Scaled | Done

fun phase_prog :: "int list \<Rightarrow> int \<Rightarrow> int list \<Rightarrow> phase \<Rightarrow> int \<Rightarrow> call list" where
  "phase_prog L n g Start r =
     Reduce (hd g) g # (if r = hd g then [AllReduce L, DivBy n] else []) @ [Broadcast (hd g) g]"
| "phase_prog L n g Reduced r =
     (if r = hd g then [AllReduce L, DivBy n] else []) @ [Broadcast (hd g) g]"
| "phase_prog L n g Summed r = (if r = hd g then [DivBy n] else []) @ [Broadcast (hd g) g]"
| "phase_prog L n g Scaled r = [Broadcast (hd g) g]"
| "phase_prog L n g Done r = []"

fun phase_val :: "(int \<Rightarrow> 'a::comm_monoid_add) \<Rightarrow> 'a \<Rightarrow> 'a \<Rightarrow> int list \<Rightarrow> phase \<Rightarrow> (int \<Rightarrow> 'a) \<Rightarrow> bool"
  where
  "phase_val v0 tot mean g Start v \<longleftrightarrow> (\<forall>r \<in> set g. v r = v0 r)"
| "phase_val v0 tot mean g Reduced v \<longleftrightarrow> v (hd g) = (\<Sum>r \<in> set g. v0 r)"
| "phase_val v0 tot mean g Summed v \<longleftrightarrow> v (hd g) = tot"
| "phase_val v0 tot mean g Scaled v \<longleftrightarrow> v (hd g) = mean"
| "phase_val v0 tot mean g Done v \<longleftrightarrow> (\<forall>r \<in> set g. v r = mean)"

definition group_ok where
  "group_ok L n v0 tot mean g p s \<longleftrightarrow>
     (\<forall>r \<in> set g. hw_prog s r = phase_prog L n g p r) \<and> phase_val v0 tot mean g p (hw_val s)"

lemma group_ok_frame:
  assumes "group_ok L n v0 tot mean g p s" and "hd g \<in> set g"
    and "\<And>r. r \<in> set g \<Longrightarrow> hw_prog t r = hw_prog s r \<and> hw_val t r = hw_val s r"
  shows "group_ok L n v0 tot mean g p t"
  using assms by (cases p) (auto simp: group_ok_def)

text \<open>What the head of a member's program says about the phase of its group.\<close>

lemma phase_heads:
  "phase_prog L n g p r = Reduce d h # rest \<Longrightarrow> p = Start \<and> d = hd g \<and> h = g"
  "phase_prog L n g p r = AllReduce h # rest \<Longrightarrow> p = Reduced \<and> h = L \<and> r = hd g"
  "phase_prog L n g p r = DivBy m # rest \<Longrightarrow> p = Summed \<and> m = n \<and> r = hd g"
  "phase_prog L n g p r = Broadcast d h # rest \<Longrightarrow> d = hd g \<and> h = g"
  "phase_prog L n g p (hd g) = Broadcast d h # rest \<Longrightarrow> p = Scaled"
  "phase_prog L n g p r = [] \<Longrightarrow> p = Done"
  by (cases p; auto split: if_splits)+

definition early :: "phase \<Rightarrow> bool" where
  "early p \<longleftrightarrow> p = Start \<or> p = Reduced"

section \<open>The invariant\<close>

text \<open>
  The groups partition the ranks; each is in some phase; and no group is past the leaders'
  all-reduce while another has not reached it.
\<close>

definition hier_inv ::
    "int list list \<Rightarrow> int \<Rightarrow> (int \<Rightarrow> 'a::comm_monoid_add) \<Rightarrow> ('a \<Rightarrow> int \<Rightarrow> 'a) \<Rightarrow> 'a hier_world \<Rightarrow> bool"
  where
  "hier_inv gs n v0 scale s \<longleftrightarrow>
     (\<exists>ph. (\<forall>g \<in> set gs. group_ok (map hd gs) n v0 (\<Sum>r \<in> {0..<n}. v0 r)
                (scale (\<Sum>r \<in> {0..<n}. v0 r) n) g (ph g) s)
         \<and> ((\<forall>g \<in> set gs. early (ph g)) \<or> (\<forall>g \<in> set gs. \<not> early (ph g))))
     \<and> (\<forall>r. r \<notin> {0..<n} \<longrightarrow> hw_prog s r = [])"

lemma partition_unique:
  assumes "partitions n gs" "g \<in> set gs" "h \<in> set gs" "r \<in> set g" "r \<in> set h"
  shows "g = h"
  using assms by (auto simp: partitions_def distinct_concat_iff)

lemma partition_member:
  assumes "partitions n gs" "r \<in> {0..<n}" obtains g where "g \<in> set gs" "r \<in> set g"
  using assms that unfolding partitions_def by (metis UN_E set_concat)

lemma partition_hd: "partitions n gs \<Longrightarrow> g \<in> set gs \<Longrightarrow> hd g \<in> set g"
  by (metis hd_in_set partitions_def)

lemma partition_range: "partitions n gs \<Longrightarrow> g \<in> set gs \<Longrightarrow> r \<in> set g \<Longrightarrow> r \<in> {0..<n}"
  by (auto simp: partitions_def)

lemma partition_leader: "partitions n gs \<Longrightarrow> g \<in> set gs \<Longrightarrow> r \<in> set g \<Longrightarrow>
    r \<in> set (map hd gs) \<longleftrightarrow> r = hd g"
  using partition_unique partition_hd by fastforce

lemma partition_sum:
  assumes "partitions n gs" and "\<And>g. g \<in> set gs \<Longrightarrow> v (hd g) = (\<Sum>r \<in> set g. f r)"
  shows "(\<Sum>l \<in> set (map hd gs). v l) = (\<Sum>r \<in> {0..<n}. f r :: 'a::comm_monoid_add)"
proof -
  have inj: "inj_on hd (set gs)"
    using partition_unique[OF assms(1)] partition_hd[OF assms(1)] by (metis inj_onI)
  have un: "{0..<n} = (\<Union>g \<in> set gs. set g)"
    using assms(1) by (auto simp: partitions_def)
  have "(\<Sum>r \<in> {0..<n}. f r) = (\<Sum>g \<in> set gs. \<Sum>r \<in> set g. f r)"
    unfolding un using partition_unique[OF assms(1)]
    by (intro sum.UNION_disjoint) (auto simp: disjoint_iff)
  also have "\<dots> = (\<Sum>l \<in> hd ` set gs. v l)"
    using inj assms(2) by (simp add: sum.reindex)
  finally show ?thesis by simp
qed

lemma hier_invI:
  assumes "\<And>g. g \<in> set gs \<Longrightarrow> group_ok (map hd gs) n v0 (\<Sum>r \<in> {0..<n}. v0 r)
      (scale (\<Sum>r \<in> {0..<n}. v0 r) n) g (ph g) s"
    and "(\<forall>g \<in> set gs. early (ph g)) \<or> (\<forall>g \<in> set gs. \<not> early (ph g))"
    and "\<And>r. r \<notin> {0..<n} \<Longrightarrow> hw_prog s r = []"
  shows "hier_inv gs n v0 scale s"
  using assms unfolding hier_inv_def by blast

text \<open>A step that only touches one group moves that group to its next phase.\<close>

lemma hier_inv_one_group:
  assumes part: "partitions n gs" and g: "g \<in> set gs"
    and ok: "\<And>h. h \<in> set gs \<Longrightarrow> group_ok (map hd gs) n v0 (\<Sum>r \<in> {0..<n}. v0 r)
      (scale (\<Sum>r \<in> {0..<n}. v0 r) n) h (ph h) s"
    and early: "(\<forall>g \<in> set gs. early (ph g)) \<or> (\<forall>g \<in> set gs. \<not> early (ph g))"
    and out: "\<And>r. r \<notin> {0..<n} \<Longrightarrow> hw_prog s r = []"
    and frame: "\<And>r. r \<notin> set g \<Longrightarrow> hw_prog t r = hw_prog s r \<and> hw_val t r = hw_val s r"
    and new: "group_ok (map hd gs) n v0 (\<Sum>r \<in> {0..<n}. v0 r)
      (scale (\<Sum>r \<in> {0..<n}. v0 r) n) g p t"
    and p: "early p = early (ph g)"
  shows "hier_inv gs n v0 scale t"
proof (rule hier_invI[where ph = "ph(g := p)"])
  fix h assume h: "h \<in> set gs"
  show "group_ok (map hd gs) n v0 (\<Sum>r \<in> {0..<n}. v0 r)
      (scale (\<Sum>r \<in> {0..<n}. v0 r) n) h ((ph(g := p)) h) t"
  proof (cases "h = g")
    case True
    then show ?thesis using new by simp
  next
    case False
    then have "r \<notin> set g" if "r \<in> set h" for r
      using partition_unique[OF part h g that] by blast
    then have "hw_prog t r = hw_prog s r \<and> hw_val t r = hw_val s r" if "r \<in> set h" for r
      using that frame by blast
    then have "group_ok (map hd gs) n v0 (\<Sum>r \<in> {0..<n}. v0 r)
        (scale (\<Sum>r \<in> {0..<n}. v0 r) n) h (ph h) t"
      by (rule group_ok_frame[OF ok[OF h] partition_hd[OF part h]])
    then show ?thesis using False by simp
  qed
next
  show "(\<forall>h \<in> set gs. early ((ph(g := p)) h)) \<or> (\<forall>h \<in> set gs. \<not> early ((ph(g := p)) h))"
    using early p g by auto
next
  fix r assume r: "r \<notin> {0..<n}"
  then have "r \<notin> set g" using partition_range[OF part g] by blast
  then show "hw_prog t r = []" using frame out r by simp
qed

lemma hier_step_inv:
  assumes part: "partitions n gs" and "hier_step scale s t" and "hier_inv gs n v0 scale s"
  shows "hier_inv gs n v0 scale t"
proof -
  let ?tot = "\<Sum>r \<in> {0..<n}. v0 r"
  let ?ok = "group_ok (map hd gs) n v0 ?tot (scale ?tot n)"
  obtain ph where ok: "\<And>g. g \<in> set gs \<Longrightarrow> ?ok g (ph g) s"
    and early: "(\<forall>g \<in> set gs. early (ph g)) \<or> (\<forall>g \<in> set gs. \<not> early (ph g))"
    and out: "\<And>r. r \<notin> {0..<n} \<Longrightarrow> hw_prog s r = []"
    using assms(3) unfolding hier_inv_def by blast
  have prog: "hw_prog s r = phase_prog (map hd gs) n g (ph g) r" if "g \<in> set gs" "r \<in> set g" for g r
    using ok[OF that(1)] that(2) by (simp add: group_ok_def)
  have val: "phase_val v0 ?tot (scale ?tot n) g (ph g) (hw_val s)" if "g \<in> set gs" for g
    using ok[OF that] by (simp add: group_ok_def)
  have member: "\<exists>g \<in> set gs. q \<in> set g" if "hw_prog s q = c # rest" for q c rest
    using that out[of q] partition_member[OF part, of q] by (metis list.distinct(1))
  have one: "hier_inv gs n v0 scale t"
    if "g \<in> set gs" and "\<And>r. r \<notin> set g \<Longrightarrow> hw_prog t r = hw_prog s r \<and> hw_val t r = hw_val s r"
      and "?ok g p t" and "early p = early (ph g)" for g p
    by (rule hier_inv_one_group[OF part that(1), where ph = ph and s = s and p = p])
      (fact ok early out that)+
  from assms(2) show ?thesis
  proof cases
    case (reduce dst g v)
    obtain rest where "hw_prog s dst = Reduce dst g # rest"
      using reduce(2,3) by (auto simp: all_at_def)
    then obtain h where h: "h \<in> set gs" "dst \<in> set h" using member by blast
    have ph: "ph h = Start \<and> dst = hd h \<and> g = h"
      using phase_heads(1) prog[OF h] \<open>hw_prog s dst = _\<close> by metis
    then have gs: "g \<in> set gs" and g: "ph g = Start" "dst = hd g" using h by auto
    have "(\<Sum>q \<in> set g. hw_val s q) = (\<Sum>q \<in> set g. v0 q)"
      using val[OF gs] g by (intro sum.cong) auto
    then have "?ok g Reduced t"
      using prog[OF gs] g reduce(1,4) by (auto simp: group_ok_def advance_def)
    then show ?thesis
      using reduce(1,5) g gs by (intro one[of g Reduced]) (auto simp: advance_def early_def)
  next
    case (all_reduce g v)
    then obtain q rest where q: "q \<in> set g" "hw_prog s q = AllReduce g # rest"
      by (metis all_at_def hd_in_set)
    then obtain h where h: "h \<in> set gs" "q \<in> set h" using member by blast
    then have gL: "g = map hd gs"
      using phase_heads(2) prog[OF h] q(2) by metis
    have ph: "ph k = Reduced" if k: "k \<in> set gs" for k
    proof -
      have "hd k \<in> set g" using gL k by simp
      then obtain rest' where "hw_prog s (hd k) = AllReduce g # rest'"
        using all_reduce(3) by (auto simp: all_at_def)
      then show ?thesis
        using prog[OF k partition_hd[OF part k]] phase_heads(2) by metis
    qed
    have sum: "(\<Sum>l \<in> set g. hw_val s l) = ?tot"
      unfolding gL using val ph by (intro partition_sum[OF part]) auto
    show ?thesis
    proof (rule hier_invI[where ph = "\<lambda>_. Summed"])
      fix k assume k: "k \<in> set gs"
      have lead: "r \<in> set g \<longleftrightarrow> r = hd k" if "r \<in> set k" for r
        using partition_leader[OF part k that] gL by simp
      have "hw_prog t r = phase_prog (map hd gs) n k Summed r" if "r \<in> set k" for r
        using prog[OF k that] ph[OF k] lead[OF that] all_reduce(1) gL by (auto simp: advance_def)
      moreover have "hw_val t (hd k) = ?tot"
        using all_reduce(1,4) sum lead[OF partition_hd[OF part k]] by simp
      ultimately show "?ok k Summed t" by (simp add: group_ok_def)
    next
      show "(\<forall>g \<in> set gs. early Summed) \<or> (\<forall>g \<in> set gs. \<not> early Summed)"
        by (simp add: early_def)
    next
      fix r assume "r \<notin> {0..<n}"
      then show "hw_prog t r = []" using all_reduce(1) out by (simp add: advance_def)
    qed
  next
    case (scale q m rest)
    then obtain g where g: "g \<in> set gs" "q \<in> set g" using member by blast
    then have ph: "ph g = Summed" "m = n" "q = hd g"
      using phase_heads(3) prog[OF g] scale(2) by metis+
    have "?ok g Scaled t"
      using prog[OF g(1)] val[OF g(1)] ph scale(1) by (auto simp: group_ok_def advance_def)
    then show ?thesis
      using scale(1) g ph by (intro one[of g Scaled]) (auto simp: advance_def early_def)
  next
    case (broadcast src g v)
    obtain rest where b: "hw_prog s src = Broadcast src g # rest"
      using broadcast(2,3) by (auto simp: all_at_def)
    then obtain h where h: "h \<in> set gs" "src \<in> set h" using member by blast
    have hg: "src = hd h" "g = h"
      using phase_heads(4) prog[OF h] b by metis+
    then have gs: "g \<in> set gs" and src: "src = hd g" using h by auto
    have ph: "ph g = Scaled"
      using phase_heads(5) prog[OF h] b hg by metis
    have "?ok g Done t"
      using prog[OF gs] val[OF gs] ph src broadcast(1,4) by (auto simp: group_ok_def advance_def)
    then show ?thesis
      using broadcast(1,4) gs ph by (intro one[of g Done]) (auto simp: advance_def early_def)
  qed
qed

section \<open>Start, progress, end\<close>

text \<open>The compiled programs of all ranks put every group in its first phase.\<close>

lemma compile_hierarchy_topology_of:
  assumes g: "g \<in> set (tp_node_groups (topology_of ids))" and r: "r \<in> set g"
  shows "compile_hierarchy (Some (topology_of ids)) (PInt r) = Inr
    \<lparr>hp_rank = r, hp_local_group = g, hp_local_leader = hd g,
     hp_leader_group = map hd (tp_node_groups (topology_of ids)), hp_is_leader = (r = hd g),
     hp_stage_order = [''intra_reduce'', ''inter_reduce'', ''intra_broadcast'']\<rparr>"
proof -
  note part = groups_partition[of ids]
  have "0 \<le> r" "r < int (length ids)"
    using partition_range[OF part g r] by auto
  then obtain h where h: "group_for_rank (topology_of ids) (PInt r) = Inr h" "r \<in> set h"
      "h \<in> set (tp_node_groups (topology_of ids))"
    using group_for_rank_member by blast
  then have "h = g" using partition_unique[OF part] g r by blast
  moreover have "py_index g 0 = Inr (hd g)"
    using r by (cases g) auto
  moreover have "tp_leaders (topology_of ids) = map hd (tp_node_groups (topology_of ids))"
    by (simp add: topology_of_def)
  ultimately show ?thesis using h by (simp add: compile_hierarchy_def)
qed

lemma rank_program_group:
  assumes "g \<in> set (tp_node_groups (topology_of ids))" and "r \<in> set g"
  shows "rank_program ids r =
    phase_prog (map hd (tp_node_groups (topology_of ids))) (int (length ids)) g Start r"
  using compile_hierarchy_topology_of[OF assms]
  by (simp add: rank_program_def execute_hierarchical_mean_def)

lemma rank_program_outside: "r \<notin> {0..<int (length ids)} \<Longrightarrow> rank_program ids r = []"
  by (auto simp: rank_program_def compile_hierarchy_def group_for_rank_def topology_world_size_def
      topology_of_def)

lemma initial_inv:
  "hier_inv (tp_node_groups (topology_of ids)) (int (length ids)) v0 scale (initial_world ids v0)"
  by (rule hier_invI[where ph = "\<lambda>_. Start"])
    (auto simp: group_ok_def initial_world_def rank_program_group rank_program_outside early_def
      simp del: phase_prog.simps)

lemma reachable_inv:
  "hier_reachable scale (initial_world ids v0) s \<Longrightarrow>
     hier_inv (tp_node_groups (topology_of ids)) (int (length ids)) v0 scale s"
  by (induction rule: hier_reachable.induct)
    (auto intro: initial_inv hier_step_inv[OF groups_partition])

lemma hier_inv_finished:
  assumes part: "partitions n gs" and "hier_inv gs n v0 scale s" and "finished s" and "r \<in> {0..<n}"
  shows "hw_val s r = scale (\<Sum>q \<in> {0..<n}. v0 q) n"
proof -
  obtain ph where ok: "\<And>g. g \<in> set gs \<Longrightarrow> group_ok (map hd gs) n v0 (\<Sum>r \<in> {0..<n}. v0 r)
      (scale (\<Sum>r \<in> {0..<n}. v0 r) n) g (ph g) s"
    using assms(2) unfolding hier_inv_def by blast
  obtain g where g: "g \<in> set gs" "r \<in> set g"
    using partition_member[OF part assms(4)] by blast
  have "phase_prog (map hd gs) n g (ph g) r = []"
    using ok[OF g(1)] g(2) assms(3) by (auto simp: group_ok_def finished_def)
  then have "ph g = Done" by (rule phase_heads(6))
  then show ?thesis using ok[OF g(1)] g(2) by (simp add: group_ok_def)
qed

lemma hier_progress:
  assumes part: "partitions n gs" and "hier_inv gs n v0 scale s" and "\<not> finished s"
  shows "\<exists>t. hier_step scale s t"
proof -
  obtain ph where ok: "\<And>g. g \<in> set gs \<Longrightarrow> group_ok (map hd gs) n v0 (\<Sum>r \<in> {0..<n}. v0 r)
      (scale (\<Sum>r \<in> {0..<n}. v0 r) n) g (ph g) s"
    and early: "(\<forall>g \<in> set gs. early (ph g)) \<or> (\<forall>g \<in> set gs. \<not> early (ph g))"
    and out: "\<And>r. r \<notin> {0..<n} \<Longrightarrow> hw_prog s r = []"
    using assms(2) unfolding hier_inv_def by blast
  have prog: "hw_prog s r = phase_prog (map hd gs) n g (ph g) r" if "g \<in> set gs" "r \<in> set g" for g r
    using ok[OF that(1)] that(2) by (simp add: group_ok_def)
  note hdg = partition_hd[OF part]
  obtain r where r: "hw_prog s r \<noteq> []" using assms(3) by (auto simp: finished_def)
  then have "r \<in> {0..<n}" using out by blast
  then obtain g0 where g0: "g0 \<in> set gs" "r \<in> set g0" using partition_member[OF part] by blast
  then have g0d: "ph g0 \<noteq> Done" using prog[OF g0] r by auto
  consider g where "g \<in> set gs" "ph g = Start" | g where "g \<in> set gs" "ph g = Summed"
    | g where "g \<in> set gs" "ph g = Scaled" | "\<forall>g \<in> set gs. ph g = Reduced"
    using early g0 g0d by (metis early_def phase.exhaust)
  then show ?thesis
  proof cases
    case 1
    have "hier_step scale s \<lparr>hw_prog = advance s g,
        hw_val = (hw_val s)(hd g := \<Sum>q \<in> set g. hw_val s q)\<rparr>"
      by (rule hier_step.reduce[of "hd g"]) (use hdg[OF 1(1)] prog[OF 1(1)] 1(2) in
          \<open>auto simp: all_at_def\<close>)
    then show ?thesis by blast
  next
    case 2
    then have "hw_prog s (hd g) = DivBy n # [Broadcast (hd g) g]"
      using prog[OF 2(1) hdg[OF 2(1)]] by simp
    then show ?thesis using hier_step.scale[of s "hd g"] by blast
  next
    case 3
    then have "all_at s g (Broadcast (hd g) g)"
      using prog[OF 3(1)] by (auto simp: all_at_def)
    then show ?thesis using hier_step.broadcast[OF hdg[OF 3(1)]] by blast
  next
    case 4
    have "all_at s (map hd gs) (AllReduce (map hd gs))"
      using 4 prog hdg by (auto simp: all_at_def)
    moreover have "map hd gs \<noteq> []" using g0 by auto
    ultimately show ?thesis using hier_step.all_reduce by blast
  qed
qed

text \<open>Every step consumes calls, so every run is at most as long as the programs together.\<close>

definition calls_left :: "int \<Rightarrow> 'a hier_world \<Rightarrow> nat" where
  "calls_left n s = (\<Sum>r \<in> {0..<n}. length (hw_prog s r))"

lemma hier_step_calls_left:
  assumes "hier_step scale s t" and out: "\<And>r. r \<notin> {0..<n} \<Longrightarrow> hw_prog s r = []"
  shows "calls_left n t < calls_left n s"
proof -
  obtain g q where t: "hw_prog t = advance s g" and q: "q \<in> set g" "hw_prog s q \<noteq> []"
    using assms(1)
  proof cases
    case (all_reduce g v)
    then have "hd g \<in> set g" "hw_prog s (hd g) \<noteq> []"
      by (auto simp: all_at_def) (metis hd_in_set list.distinct(1))
    then show ?thesis using that[of g "hd g"] all_reduce(1) by simp
  qed (use that in \<open>fastforce simp: all_at_def\<close>)+
  then have "q \<in> {0..<n}" using out by blast
  then show ?thesis
    unfolding calls_left_def t
    by (intro sum_strict_mono_ex1 bexI[of _ q]) (use q in \<open>auto simp: advance_def\<close>)
qed

section \<open>Properties\<close>

text \<open>Runs of a fixed length, and the number of calls a job issues in all.\<close>

lemma hier_steps_reachable:
  "(hier_step scale ^^ k) s0 s \<Longrightarrow> hier_reachable scale s0 s"
  by (induction k arbitrary: s) (auto intro: hier_reachable.intros)

lemma reachable_outside:
  "hier_reachable scale (initial_world ids v0) s \<Longrightarrow> r \<notin> {0..<int (length ids)} \<Longrightarrow> hw_prog s r = []"
  using reachable_inv[of scale ids v0 s] by (auto simp: hier_inv_def)

lemma steps_calls_left:
  "(hier_step scale ^^ k) (initial_world ids v0) s \<Longrightarrow>
     k + calls_left (int (length ids)) s \<le> calls_left (int (length ids)) (initial_world ids v0)"
proof (induction k arbitrary: s)
  case 0
  then show ?case by simp
next
  case (Suc k)
  then obtain m where m: "(hier_step scale ^^ k) (initial_world ids v0) m" "hier_step scale m s"
    by auto
  have "calls_left (int (length ids)) s < calls_left (int (length ids)) m"
    by (rule hier_step_calls_left[OF m(2)]) (rule reachable_outside[OF hier_steps_reachable[OF m(1)]])
  then show ?case using Suc.IH[OF m(1)] by simp
qed

lemma rank_program_length: "length (rank_program ids r) \<le> 4"
  by (auto simp: rank_program_def execute_hierarchical_mean_def split: sum.splits)

lemma initial_calls_left: "calls_left (int (length ids)) (initial_world ids v0) \<le> 4 * length ids"
proof -
  have "calls_left (int (length ids)) (initial_world ids v0) \<le> (\<Sum>r \<in> {0..<int (length ids)}. 4)"
    unfolding calls_left_def by (intro sum_mono) (simp add: initial_world_def rank_program_length)
  then show ?thesis by simp
qed

text \<open>Some run ends: a job that has not finished can take a step, and steps run out.\<close>

lemma hier_finishes:
  "\<exists>s. hier_reachable scale (initial_world ids v0) s \<and> finished s"
proof -
  have ends: "\<exists>s. hier_reachable scale (initial_world ids v0) s \<and> finished s"
    if "hier_reachable scale (initial_world ids v0) t" for t
    using that
  proof (induction "calls_left (int (length ids)) t" arbitrary: t rule: less_induct)
    case less
    show ?case
    proof (cases "finished t")
      case False
      obtain u where u: "hier_step scale t u"
        using hier_progress[OF groups_partition reachable_inv[OF less.prems] False] by blast
      have "calls_left (int (length ids)) u < calls_left (int (length ids)) t"
        by (rule hier_step_calls_left[OF u]) (rule reachable_outside[OF less.prems])
      then show ?thesis
        using less.hyps hier_reachable.step[OF less.prems u] by blast
    qed (use less.prems in blast)
  qed
  show ?thesis by (rule ends) (rule hier_reachable.start)
qed

text \<open>C1: whatever the interleaving of the ranks, when all of them have finished every rank
  holds the sum of all ranks' tensors divided by the world size.\<close>

theorem hierarchical_mean_result:
  assumes "hier_reachable scale (initial_world ids v0) s" and "finished s"
    and "0 \<le> r" and "r < int (length ids)"
  shows "hw_val s r = scale (\<Sum>q \<in> {0..<int (length ids)}. v0 q) (int (length ids))"
  by (rule hier_inv_finished[OF groups_partition reachable_inv]) (use assms in auto)

theorem hierarchical_mean_result_witness:
  "\<exists>s. hier_reachable (\<lambda>x n. x div n) (initial_world [0, 0, 1] (\<lambda>q. 3 * q)) s \<and> finished s
     \<and> hw_val s 2 = (3 :: int)"
proof -
  obtain s where s: "hier_reachable (\<lambda>x n. x div n) (initial_world [0, 0, 1] (\<lambda>q. 3 * q :: int)) s"
      "finished s"
    using hier_finishes by blast
  have "{0..<3 :: int} = {0, 1, 2}" by auto
  then have "hw_val s 2 = 3"
    using hierarchical_mean_result[OF s, of 2] by simp
  with s show ?thesis by blast
qed

text \<open>C2: no interleaving of the ranks' collectives deadlocks: in every state the job can reach,
  either all ranks have finished or some collective can complete.\<close>

theorem hierarchical_no_deadlock:
  assumes "hier_reachable scale (initial_world ids v0) s"
  shows "finished s \<or> (\<exists>t. hier_step scale s t)"
  using hier_progress[OF groups_partition reachable_inv[OF assms]] by blast

theorem hierarchical_no_deadlock_witness:
  "\<not> finished (initial_world [0, 1] (\<lambda>_. 0 :: int))
     \<and> (\<exists>t. hier_step (\<lambda>x n. x div n) (initial_world [0, 1] (\<lambda>_. 0 :: int)) t)"
proof -
  have "hw_prog (initial_world [0, 1] (\<lambda>_. 0 :: int)) 0 \<noteq> []"
    by (simp add: initial_world_def rank_program_group[of "[0]" "[0, 1]" 0] topology_of_def
        ranks_of_node_def upt_rec)
  then have "\<not> finished (initial_world [0, 1] (\<lambda>_. 0 :: int))"
    by (auto simp: finished_def)
  then show ?thesis
    using hierarchical_no_deadlock[OF hier_reachable.start, where scale = "\<lambda>x n. x div n"] by blast
qed



end
