(* ===== verification/Work.thy ===== *)
theory Work
  imports Core_Types
begin

text \<open>
  \<open>runtime/event.py\<close> and \<open>runtime/work.py\<close>.  Callbacks and \<open>release\<close> methods have side
  effects, so they act on a heap \<open>'h\<close> that the model threads through; an event is read
  through the outcome of its \<open>wait\<close>.  \<open>work_wait\<close> is one call of \<open>CompletionWork.wait\<close>,
  \<open>waits\<close> a sequence of calls (the lock makes the body of a call atomic).
\<close>

section \<open>Events\<close>

record completion_event =
  ev_set :: bool

definition make_ManualCompletionEvent :: "bool \<Rightarrow> completion_event" where
  "make_ManualCompletionEvent completed = \<lparr>ev_set = completed\<rparr>"

definition make_ImmediateCompletionEvent :: completion_event where
  "make_ImmediateCompletionEvent = make_ManualCompletionEvent True"

definition event_complete :: "completion_event \<Rightarrow> completion_event" where
  "event_complete e = e\<lparr>ev_set := True\<rparr>"

definition event_query :: "completion_event \<Rightarrow> bool" where
  "event_query e = ev_set e"

text \<open>
  \<open>signalled\<close>: another thread completes the event before the timeout (ever, if there is
  none).  Without a timeout and without a signal the call does not return.
\<close>

definition event_wait ::
    "completion_event \<Rightarrow> pyfloat option \<Rightarrow> bool \<Rightarrow> (bool \<times> completion_event) option" where
  "event_wait e timeout signalled =
     (if ev_set e then Some (True, e)
      else if signalled then Some (True, event_complete e)
      else case timeout of None \<Rightarrow> None | Some _ \<Rightarrow> Some (False, e))"

lemma event_wait_observes:
  "event_wait e timeout signalled = Some (b, e') \<Longrightarrow> b = event_query e' \<and> (ev_set e \<longrightarrow> ev_set e')"
  by (auto simp: event_wait_def event_query_def event_complete_def split: if_splits option.splits)

section \<open>Work\<close>

type_synonym ('a, 'h) action = "'h \<Rightarrow> 'a res \<times> 'h"

text \<open>A resource is its \<open>release\<close> method, or \<open>None\<close> where it has no callable one.\<close>

record ('a, 'h) work =
  wk_result :: 'a
  wk_complete :: "('a, 'h) action option"
  wk_resources :: "(unit, 'h) action option list"
  wk_finished :: bool
  wk_error :: "exn option"

definition make_CompletionWork ::
    "'a \<Rightarrow> ('a, 'h) action option \<Rightarrow> (unit, 'h) action option list \<Rightarrow> ('a, 'h) work" where
  "make_CompletionWork result callback resources =
     \<lparr>wk_result = result, wk_complete = callback, wk_resources = resources,
      wk_finished = False, wk_error = None\<rparr>"

definition work_query :: "('a, 'h) work \<Rightarrow> bool" where
  "work_query w = wk_finished w"

fun release_all :: "(unit, 'h) action option list \<Rightarrow> (unit, 'h) action" where
  "release_all [] h = (Inr (), h)"
| "release_all (None # rs) h = release_all rs h"
| "release_all (Some release # rs) h =
     (case release h of
        (Inl e, h') \<Rightarrow> (Inl e, h')
      | (Inr _, h') \<Rightarrow> release_all rs h')"

text \<open>The \<open>try\<close> block: the callback's value replaces the result, its exception is kept.\<close>

definition run_complete :: "('a, 'h) work \<Rightarrow> 'h \<Rightarrow> ('a, 'h) work \<times> 'h" where
  "run_complete w h =
     (case wk_complete w of
        None \<Rightarrow> (w, h)
      | Some f \<Rightarrow>
          (case f h of
             (Inr x, h') \<Rightarrow> (w\<lparr>wk_result := x\<rparr>, h')
           | (Inl e, h') \<Rightarrow> (w\<lparr>wk_error := Some e\<rparr>, h')))"

definition deliver :: "('a, 'h) work \<Rightarrow> 'a res" where
  "deliver w = (case wk_error w of Some e \<Rightarrow> Inl e | None \<Rightarrow> Inr (wk_result w))"

text \<open>
  One call of \<open>wait\<close>, given the outcome of the event's own \<open>wait\<close>.  An exception raised by
  a \<open>release\<close> leaves the \<open>finally\<close> block before \<open>_finished\<close> is set.
\<close>

definition work_wait ::
    "('a, 'h) work \<Rightarrow> bool res \<Rightarrow> 'h \<Rightarrow> 'a res \<times> ('a, 'h) work \<times> 'h" where
  "work_wait w event_outcome h =
     (case event_outcome of
        Inl e \<Rightarrow> (Inl e, w, h)
      | Inr False \<Rightarrow>
          (Inl (TimeoutError ''communication work did not complete before timeout''), w, h)
      | Inr True \<Rightarrow>
          if \<not> wk_finished w then
            (let (w1, h1) = run_complete w h in
             case release_all (rev (wk_resources w1)) h1 of
               (Inl e, h2) \<Rightarrow> (Inl e, w1, h2)
             | (Inr _, h2) \<Rightarrow>
                 (let w2 = w1\<lparr>wk_finished := True\<rparr> in (deliver w2, w2, h2)))
          else (deliver w, w, h))"

fun waits :: "('a, 'h) work \<Rightarrow> bool res list \<Rightarrow> 'h \<Rightarrow> 'a res list \<times> ('a, 'h) work \<times> 'h" where
  "waits w [] h = ([], w, h)"
| "waits w (ev # evs) h =
     (case work_wait w ev h of (r, w1, h1) \<Rightarrow>
      case waits w1 evs h1 of (rs, w2, h2) \<Rightarrow> (r # rs, w2, h2))"

section \<open>Resources that release cleanly\<close>

text \<open>
  What \<open>CompletionWork\<close> relies on of a resource: \<open>release\<close> returns, and releasing again
  changes nothing.
\<close>

locale releasable =
  fixes rel :: "(unit, 'h) action"
  assumes rel_returns: "fst (rel h) = Inr ()"
    and rel_again: "rel (snd (rel h)) = (Inr (), snd (rel h))"
begin

definition effect :: "'h \<Rightarrow> 'h" where
  "effect h = snd (rel h)"

lemma rel_eq: "rel h = (Inr (), effect h)"
  by (metis effect_def prod.collapse rel_returns)

lemma effect_idem [simp]: "effect (effect h) = effect h"
  by (metis effect_def rel_again snd_conv)

lemma release_all_Cons: "release_all (Some rel # rs) h = release_all rs (effect h)"
  by (simp add: rel_eq)

lemma release_all_replicate:
  "release_all (replicate (Suc n) (Some rel)) h = (Inr (), effect h)"
  by (induction n arbitrary: h) (simp_all add: rel_eq)

text \<open>A work that owns the resource finishes on its first completed wait.\<close>

lemma work_wait_owner:
  assumes "wk_resources w = [Some rel]" and "\<not> wk_finished w" and "run_complete w h = (w1, h1)"
  shows "work_wait w (Inr True) h
     = (deliver (w1\<lparr>wk_finished := True\<rparr>), w1\<lparr>wk_finished := True\<rparr>, effect h1)"
proof -
  have "wk_resources w1 = [Some rel]"
    using assms(1,3) by (auto simp: run_complete_def split: option.splits prod.splits sum.splits)
  then show ?thesis
    using assms(2,3) by (simp add: work_wait_def rel_eq Let_def)
qed

end

text \<open>The clean resources of a heap, whatever their interface.\<close>

definition clean :: "(unit, 'h) action option list \<Rightarrow> bool" where
  "clean rs \<longleftrightarrow> (\<forall>r h. Some r \<in> set rs \<longrightarrow> fst (r h) = Inr ())"

fun release_effect :: "(unit, 'h) action option list \<Rightarrow> 'h \<Rightarrow> 'h" where
  "release_effect [] h = h"
| "release_effect (None # rs) h = release_effect rs h"
| "release_effect (Some r # rs) h = release_effect rs (snd (r h))"

lemma release_all_clean: "clean rs \<Longrightarrow> release_all rs h = (Inr (), release_effect rs h)"
proof (induction rs arbitrary: h)
  case Nil
  then show ?case by simp
next
  case (Cons r rs)
  then have "clean rs" by (auto simp: clean_def)
  with Cons show ?case
    by (cases r) (auto simp: clean_def split: prod.splits sum.splits, metis fst_conv sum.distinct(1))
qed

lemma clean_rev [simp]: "clean (rev rs) = clean rs"
  by (simp add: clean_def)

lemma run_complete_frame:
  "run_complete w h = (w1, h1) \<Longrightarrow>
     wk_resources w1 = wk_resources w \<and> wk_finished w1 = wk_finished w
     \<and> wk_complete w1 = wk_complete w"
  by (auto simp: run_complete_def split: option.splits prod.splits sum.splits)

section \<open>Sequences of waits\<close>

text \<open>What the single completion of a work does: its final state and the heap it leaves.\<close>

definition completed :: "('a, 'h) work \<Rightarrow> 'h \<Rightarrow> ('a, 'h) work \<times> 'h" where
  "completed w h =
     (case run_complete w h of (w1, h1) \<Rightarrow>
      (w1\<lparr>wk_finished := True\<rparr>, release_effect (rev (wk_resources w)) h1))"

lemma work_wait_completes:
  assumes "clean (wk_resources w)" and "\<not> wk_finished w"
  shows "work_wait w (Inr True) h
     = (deliver (fst (completed w h)), fst (completed w h), snd (completed w h))"
proof -
  obtain w1 h1 where r: "run_complete w h = (w1, h1)" by fastforce
  have "wk_resources w1 = wk_resources w"
    using run_complete_frame[OF r] by simp
  then show ?thesis
    using assms r by (simp add: work_wait_def completed_def release_all_clean Let_def)
qed

lemma work_wait_finished:
  "wk_finished w \<Longrightarrow> work_wait w (Inr True) h = (deliver w, w, h)"
  by (simp add: work_wait_def)

lemma work_wait_not_completed:
  "ev \<noteq> Inr True \<Longrightarrow> snd (work_wait w ev h) = (w, h)"
  by (auto simp: work_wait_def split: sum.splits bool.splits)

lemma completed_finished: "wk_finished (fst (completed w h))"
  by (simp add: completed_def split: prod.splits)

lemma waits_finished:
  assumes "wk_finished w"
  shows "snd (waits w evs h) = (w, h)
     \<and> (\<forall>i < length evs. evs ! i = Inr True \<longrightarrow> fst (waits w evs h) ! i = deliver w)"
  using assms
proof (induction evs)
  case Nil
  then show ?case by simp
next
  case (Cons ev evs)
  have "snd (work_wait w ev h) = (w, h)"
    using work_wait_not_completed[of ev w h] work_wait_finished[OF Cons.prems, of h]
    by (cases "ev = Inr True") auto
  moreover have "ev = Inr True \<longrightarrow> fst (work_wait w ev h) = deliver w"
    using work_wait_finished[OF Cons.prems, of h] by auto
  moreover obtain rs w2 h2 where "waits w evs h = (rs, w2, h2)"
    by (cases "waits w evs h") auto
  ultimately show ?case
    using Cons by (auto simp: nth_Cons' split: prod.splits)
qed

lemma waits_not_completed:
  "Inr True \<notin> set evs \<Longrightarrow> snd (waits w evs h) = (w, h)"
proof (induction evs)
  case Nil
  then show ?case by simp
next
  case (Cons ev evs)
  then have "snd (work_wait w ev h) = (w, h)"
    by (intro work_wait_not_completed) auto
  with Cons show ?case
    by (auto split: prod.splits)
qed

lemma waits_completed:
  assumes "clean (wk_resources w)" and "\<not> wk_finished w" and "Inr True \<in> set evs"
  shows "snd (waits w evs h) = completed w h
     \<and> (\<forall>i < length evs. evs ! i = Inr True \<longrightarrow>
          fst (waits w evs h) ! i = deliver (fst (completed w h)))"
  using assms
proof (induction evs)
  case Nil
  then show ?case by simp
next
  case (Cons ev evs)
  show ?case
  proof (cases "ev = Inr True")
    case True
    obtain w1 h1 where c: "completed w h = (w1, h1)" by fastforce
    have "work_wait w ev h = (deliver w1, w1, h1)"
      using work_wait_completes[OF Cons.prems(1,2)] True c by simp
    moreover obtain rs w2 h2 where ws: "waits w1 evs h1 = (rs, w2, h2)"
      by (cases "waits w1 evs h1") auto
    moreover have "wk_finished w1" using completed_finished[of w h] c by simp
    then have "(w2, h2) = (w1, h1)" "\<forall>i < length evs. evs ! i = Inr True \<longrightarrow> rs ! i = deliver w1"
      using waits_finished[of w1 evs h1] ws by auto
    ultimately show ?thesis by (auto simp: nth_Cons' True c)
  next
    case False
    then have "snd (work_wait w ev h) = (w, h)" by (rule work_wait_not_completed)
    with Cons False show ?thesis
      by (auto simp: nth_Cons' split: prod.splits)
  qed
qed

section \<open>Properties\<close>

lemma waits_timeout:
  "i < length evs \<Longrightarrow> evs ! i = Inr False \<Longrightarrow>
     fst (waits w evs h) ! i = Inl (TimeoutError ''communication work did not complete before timeout'')"
proof (induction evs arbitrary: w h i)
  case Nil
  then show ?case by simp
next
  case (Cons ev evs)
  obtain r w1 h1 where one: "work_wait w ev h = (r, w1, h1)" by (cases "work_wait w ev h")
  obtain rs w2 h2 where rest: "waits w1 evs h1 = (rs, w2, h2)" by (cases "waits w1 evs h1")
  show ?case
  proof (cases i)
    case 0
    then show ?thesis using Cons.prems one rest by (auto simp: work_wait_def)
  next
    case (Suc j)
    then show ?thesis using Cons.IH[of j w1 h1] Cons.prems one rest by simp
  qed
qed

text \<open>C7: over any sequence of waits on a new work whose resources release without raising, the
  callback and the releases run exactly once, at the first wait whose event has completed; every
  such wait returns that one outcome, and a wait that times out raises and changes nothing.\<close>

theorem work_completes_once:
  assumes "clean resources" and "w = make_CompletionWork result callback resources"
  shows "snd (waits w evs h) = (if Inr True \<in> set evs then completed w h else (w, h))
     \<and> (\<forall>i < length evs. evs ! i = Inr True \<longrightarrow> fst (waits w evs h) ! i = deliver (fst (completed w h)))
     \<and> (\<forall>i < length evs. evs ! i = Inr False \<longrightarrow>
          fst (waits w evs h) ! i = Inl (TimeoutError ''communication work did not complete before timeout''))"
proof -
  have w: "clean (wk_resources w)" "\<not> wk_finished w"
    using assms by (simp_all add: make_CompletionWork_def)
  show ?thesis
    using waits_completed[OF w, of evs h] waits_not_completed[of evs w h] waits_timeout[of _ evs w h]
    by (auto simp: in_set_conv_nth)
qed

theorem work_completes_once_witness:
  "snd (snd (waits (make_CompletionWork 0 (Some (\<lambda>h. (Inr (Suc h), Suc h))) [None]) [Inr False, Inr True, Inr True] 5))
     = 6"
proof -
  let ?w = "make_CompletionWork 0 (Some (\<lambda>h. (Inr (Suc h), Suc h))) [None] :: (nat, nat) work"
  have c: "clean [None :: (unit, nat) action option]" by (simp add: clean_def)
  show ?thesis
    using conjunct1[OF work_completes_once[OF c refl, of 0 "Some (\<lambda>h. (Inr (Suc h), Suc h))"
        "[Inr False, Inr True, Inr True]" 5]]
    by (simp add: completed_def run_complete_def make_CompletionWork_def)
qed

text \<open>C9: when a resource's release raises, the wait raises that exception and the work stays
  unfinished although its callback has already run, so the next completed wait runs the callback
  again.\<close>

theorem work_release_failure_reruns:
  assumes "\<not> wk_finished w" and "run_complete w h = (w1, h1)"
    and "release_all (rev (wk_resources w)) h1 = (Inl e, h2)"
  shows "work_wait w (Inr True) h = (Inl e, w1, h2) \<and> \<not> wk_finished w1
     \<and> wk_complete w1 = wk_complete w
     \<and> (\<forall>w2 h3 h4. run_complete w1 h2 = (w2, h3) \<longrightarrow>
          release_all (rev (wk_resources w)) h3 = (Inr (), h4) \<longrightarrow>
          snd (work_wait w1 (Inr True) h2) = (w2\<lparr>wk_finished := True\<rparr>, h4))"
  using run_complete_frame[OF assms(2)] run_complete_frame[of w1 h2] assms
  by (auto simp: work_wait_def Let_def)

theorem work_release_failure_reruns_witness:
  "let w = make_CompletionWork () (Some (\<lambda>h. (Inr (), Suc h)))
             [Some (\<lambda>h. (if h = 1 then Inl (RuntimeError ''release'') else Inr (), h))] in
   fst (work_wait w (Inr True) 0) = Inl (RuntimeError ''release'')
   \<and> snd (snd (waits w [Inr True, Inr True] 0)) = 2"
proof -
  let ?w = "make_CompletionWork () (Some (\<lambda>h. (Inr (), Suc h)))
      [Some (\<lambda>h. (if h = 1 then Inl (RuntimeError ''release'') else Inr (), h))]"
  have w: "\<not> wk_finished ?w" "run_complete ?w 0 = (?w\<lparr>wk_result := ()\<rparr>, 1)"
    "release_all (rev (wk_resources ?w)) 1 = (Inl (RuntimeError ''release''), 1)"
    by (simp_all add: make_CompletionWork_def run_complete_def)
  have again: "run_complete (?w\<lparr>wk_result := ()\<rparr>) 1 = (?w\<lparr>wk_result := ()\<rparr>, 2)"
    "release_all (rev (wk_resources ?w)) 2 = (Inr (), 2)"
    by (simp_all add: make_CompletionWork_def run_complete_def)
  show ?thesis
    using work_release_failure_reruns[OF w] again by (auto simp: Let_def split: prod.splits)
qed

end
