(* ===== verification/Workspace.thy ===== *)
theory Workspace
  imports Work
begin

text \<open>
  \<open>runtime/workspace.py\<close>: the keyed pool and its leases.  The state holds the free list of
  every key, all leases ever handed out (a lease is named by its position), and the values
  that a thread has taken out of a lease inside \<open>release\<close> and not yet put back, since the
  two locks of \<open>release\<close> make it two atomic steps.  \<open>pool_step\<close> interleaves these steps; the
  invariant is exclusive ownership.
\<close>

section \<open>State and operations\<close>

record ('k, 'v) lease =
  ls_key :: 'k
  ls_value :: 'v
  ls_released :: bool

record ('k, 'v) pool =
  pl_available :: "'k \<Rightarrow> 'v list"
  pl_leases :: "('k, 'v) lease list"
  pl_returning :: "('k \<times> 'v) list"

definition empty_pool :: "('k, 'v) pool" where
  "empty_pool = \<lparr>pl_available = (\<lambda>_. []), pl_leases = [], pl_returning = []\<rparr>"

text \<open>\<open>allocated\<close> is the outcome of \<open>allocator()\<close>, which is called only on an empty free list.\<close>

definition pool_acquire :: "'k \<Rightarrow> 'v res \<Rightarrow> ('k, 'v) pool \<Rightarrow> nat res \<times> ('k, 'v) pool" where
  "pool_acquire key allocated s =
     (let values = pl_available s key in
      if values \<noteq> [] then
        (Inr (length (pl_leases s)),
         s\<lparr>pl_available := (pl_available s)(key := butlast values),
           pl_leases := pl_leases s
             @ [\<lparr>ls_key = key, ls_value = last values, ls_released = False\<rparr>]\<rparr>)
      else case allocated of
          Inl e \<Rightarrow> (Inl e, s)
        | Inr v \<Rightarrow>
            (Inr (length (pl_leases s)),
             s\<lparr>pl_leases := pl_leases s
                 @ [\<lparr>ls_key = key, ls_value = v, ls_released = False\<rparr>]\<rparr>))"

definition pool_available :: "'k \<Rightarrow> ('k, 'v) pool \<Rightarrow> nat" where
  "pool_available key s = length (pl_available s key)"

definition lease_value :: "nat \<Rightarrow> ('k, 'v) pool \<Rightarrow> 'v res" where
  "lease_value l s =
     (if ls_released (pl_leases s ! l) then Inl (RuntimeError ''workspace lease has been released'')
      else Inr (ls_value (pl_leases s ! l)))"

text \<open>The first critical section of \<open>release\<close>, under the lease's lock.\<close>

definition release_mark :: "nat \<Rightarrow> ('k, 'v) pool \<Rightarrow> ('k, 'v) pool" where
  "release_mark l s =
     (let lease = pl_leases s ! l in
      if ls_released lease then s
      else s\<lparr>pl_leases := (pl_leases s)[l := lease\<lparr>ls_released := True\<rparr>],
             pl_returning := (ls_key lease, ls_value lease) # pl_returning s\<rparr>)"

text \<open>The second, \<open>_return\<close>, under the pool's lock.\<close>

definition pool_return :: "'k \<Rightarrow> 'v \<Rightarrow> ('k, 'v) pool \<Rightarrow> ('k, 'v) pool" where
  "pool_return key v s =
     s\<lparr>pl_available := (pl_available s)(key := pl_available s key @ [v]),
       pl_returning := remove1 (key, v) (pl_returning s)\<rparr>"

text \<open>
  A whole \<open>release\<close> call that no other thread interrupts.  A lease is named by its position
  in \<open>pl_leases\<close>; a position beyond the list names none.
\<close>

definition lease_release :: "nat \<Rightarrow> (unit, ('k, 'v) pool) action" where
  "lease_release l s =
     (let lease = pl_leases s ! l in
      if length (pl_leases s) \<le> l \<or> ls_released lease then (Inr (), s)
      else (Inr (), pool_return (ls_key lease) (ls_value lease) (release_mark l s)))"

section \<open>Interleaved steps\<close>

definition active :: "('k, 'v) pool \<Rightarrow> 'v list" where
  "active s = map ls_value (filter (\<lambda>x. \<not> ls_released x) (pl_leases s))"

definition held :: "('k, 'v) pool \<Rightarrow> 'v set" where
  "held s = set (active s) \<union> snd ` set (pl_returning s) \<union> (\<Union>k. set (pl_available s k))"

text \<open>
  An allocator makes a new object, one that the pool and its users do not hold already.  Its
  outcome matters only where it is called, on an empty free list.
\<close>

definition fresh_allocation :: "'k \<Rightarrow> 'v res \<Rightarrow> ('k, 'v) pool \<Rightarrow> bool" where
  "fresh_allocation key a s \<longleftrightarrow>
     (pl_available s key = [] \<longrightarrow> (case a of Inl _ \<Rightarrow> True | Inr v \<Rightarrow> v \<notin> held s))"

inductive pool_step :: "('k, 'v) pool \<Rightarrow> ('k, 'v) pool \<Rightarrow> bool" where
  acquire: "pool_acquire key a s = (r, t) \<Longrightarrow> fresh_allocation key a s \<Longrightarrow> pool_step s t"
| mark: "l < length (pl_leases s) \<Longrightarrow> pool_step s (release_mark l s)"
| give_back: "(key, v) \<in> set (pl_returning s) \<Longrightarrow> pool_step s (pool_return key v s)"

inductive pool_reachable :: "('k, 'v) pool \<Rightarrow> bool" where
  start: "pool_reachable empty_pool"
| step: "pool_reachable s \<Longrightarrow> pool_step s t \<Longrightarrow> pool_reachable t"

definition pool_inv :: "('k, 'v) pool \<Rightarrow> bool" where
  "pool_inv s \<longleftrightarrow>
     distinct (active s @ map snd (pl_returning s))
     \<and> (\<forall>k. distinct (pl_available s k))
     \<and> (\<forall>k. set (pl_available s k) \<inter> set (active s @ map snd (pl_returning s)) = {})
     \<and> (\<forall>k k'. k \<noteq> k' \<longrightarrow> set (pl_available s k) \<inter> set (pl_available s k') = {})"

lemma active_append:
  "active (s\<lparr>pl_leases := pl_leases s @ [x]\<rparr>)
     = active s @ (if ls_released x then [] else [ls_value x])"
  by (simp add: active_def)

lemma active_available [simp]: "active (s\<lparr>pl_available := a\<rparr>) = active s"
  by (simp add: active_def)

lemma active_returning [simp]: "active (s\<lparr>pl_returning := a\<rparr>) = active s"
  by (simp add: active_def)

lemma pool_acquire_inv:
  assumes "pool_inv s" and "pool_acquire key a s = (r, t)" and "fresh_allocation key a s"
  shows "pool_inv t"
proof (cases "pl_available s key")
  case Nil
  show ?thesis
  proof (cases a)
    case (Inl e)
    then show ?thesis using assms(1,2) Nil by (simp add: pool_acquire_def Let_def)
  next
    case (Inr v)
    then have "t = s\<lparr>pl_leases := pl_leases s @ [\<lparr>ls_key = key, ls_value = v, ls_released = False\<rparr>]\<rparr>"
      using assms(2) Nil by (simp add: pool_acquire_def Let_def)
    moreover have "v \<notin> held s"
      using assms(3) Nil Inr by (simp add: fresh_allocation_def)
    ultimately show ?thesis
      using assms(1) by (auto simp: pool_inv_def active_append held_def)
  qed
next
  case (Cons y ys)
  let ?vs = "pl_available s key"
  have ne: "?vs \<noteq> []" using Cons by simp
  have split: "?vs = butlast ?vs @ [last ?vs]" using ne by simp
  have set_split: "set ?vs = insert (last ?vs) (set (butlast ?vs))"
    by (subst split) simp
  have last_new: "last ?vs \<notin> set (butlast ?vs)"
    using assms(1) split unfolding pool_inv_def by (metis distinct_append disjoint_insert(1) list.set(2))
  have t: "t = s\<lparr>pl_available := (pl_available s)(key := butlast ?vs),
      pl_leases := pl_leases s @ [\<lparr>ls_key = key, ls_value = last ?vs, ls_released = False\<rparr>]\<rparr>"
    using assms(2) ne by (simp add: pool_acquire_def Let_def)
  have act: "active t = active s @ [last ?vs]"
    by (simp add: t active_def)
  have ret: "pl_returning t = pl_returning s"
    by (simp add: t)
  have sub: "set (pl_available t k) \<subseteq> set (pl_available s k)" for k
    using set_split by (auto simp: t)
  have "last ?vs \<notin> set (pl_available s k)" if "k \<noteq> key" for k
    using assms(1) that set_split unfolding pool_inv_def by (metis disjoint_iff insertI1)
  then have fresh: "last ?vs \<notin> set (pl_available t k)" for k
    using last_new by (simp add: t)
  have "last ?vs \<notin> set (active s @ map snd (pl_returning s))"
    using assms(1) set_split unfolding pool_inv_def by blast
  then have "distinct (active t @ map snd (pl_returning t))"
    using assms(1) by (auto simp: t act pool_inv_def active_def)
  moreover have "set (pl_available t k) \<inter> set (active t @ map snd (pl_returning t)) = {}" for k
  proof -
    have "set (active t @ map snd (pl_returning t))
        = insert (last ?vs) (set (active s @ map snd (pl_returning s)))"
      by (simp add: act ret)
    moreover have "set (pl_available s k) \<inter> set (active s @ map snd (pl_returning s)) = {}"
      using assms(1) by (simp add: pool_inv_def)
    ultimately show ?thesis
      using sub[of k] fresh[of k] by (auto simp only: insert_iff disjoint_iff)
  qed
  moreover have "distinct (pl_available t k)" for k
    using assms(1) by (auto simp: t pool_inv_def distinct_butlast)
  moreover have "k \<noteq> k' \<Longrightarrow> set (pl_available t k) \<inter> set (pl_available t k') = {}" for k k'
    using assms(1) sub[of k] sub[of k'] unfolding pool_inv_def by (meson disjoint_iff subsetD)
  ultimately show ?thesis
    unfolding pool_inv_def by blast
qed


lemma active_mark:
  assumes "l < length (pl_leases s)" and "\<not> ls_released (pl_leases s ! l)"
  obtains A B where "active s = A @ ls_value (pl_leases s ! l) # B"
    and "active (release_mark l s) = A @ B"
proof
  let ?x = "pl_leases s ! l"
  let ?act = "\<lambda>ls. map ls_value (filter (\<lambda>x. \<not> ls_released x) ls)"
  have "active s = ?act (take l (pl_leases s) @ ?x # drop (Suc l) (pl_leases s))"
    using assms(1) by (simp add: active_def id_take_nth_drop[symmetric])
  then show "active s = ?act (take l (pl_leases s)) @ ls_value ?x # ?act (drop (Suc l) (pl_leases s))"
    using assms(2) by simp
  show "active (release_mark l s) = ?act (take l (pl_leases s)) @ ?act (drop (Suc l) (pl_leases s))"
    using assms by (simp add: active_def release_mark_def Let_def upd_conv_take_nth_drop)
qed

lemma release_mark_inv:
  assumes "pool_inv s" and "l < length (pl_leases s)"
  shows "pool_inv (release_mark l s)"
proof (cases "ls_released (pl_leases s ! l)")
  case True
  then show ?thesis using assms(1) by (simp add: release_mark_def)
next
  case False
  let ?t = "release_mark l s" and ?x = "pl_leases s ! l"
  obtain A B where a: "active s = A @ ls_value ?x # B" "active ?t = A @ B"
    using active_mark assms(2) False by blast
  have r: "pl_returning ?t = (ls_key ?x, ls_value ?x) # pl_returning s"
    and v: "pl_available ?t = pl_available s"
    using False by (simp_all add: release_mark_def Let_def)
  have "set (active ?t @ map snd (pl_returning ?t)) = set (active s @ map snd (pl_returning s))"
    by (auto simp: a r)
  moreover have "distinct (active ?t @ map snd (pl_returning ?t))"
    using assms(1) by (auto simp: pool_inv_def a r)
  ultimately show ?thesis
    using assms(1) unfolding pool_inv_def v by simp
qed

lemma pool_return_inv:
  assumes "pool_inv s" and "(key, v) \<in> set (pl_returning s)"
  shows "pool_inv (pool_return key v s)"
proof -
  let ?t = "pool_return key v s"
  obtain xs ys where r: "pl_returning s = xs @ (key, v) # ys" and "(key, v) \<notin> set xs"
    using split_list_first[OF assms(2)] by blast
  then have rt: "pl_returning ?t = xs @ ys"
    by (simp add: pool_return_def remove1_append)
  have act: "active ?t = active s"
    by (simp add: pool_return_def active_def)
  have users: "set (active s @ map snd (pl_returning s)) = insert v (set (active ?t @ map snd (pl_returning ?t)))"
    by (auto simp: r rt act)
  have v_once: "v \<notin> set (active ?t @ map snd (pl_returning ?t))"
    using assms(1) by (auto simp: pool_inv_def r rt act image_iff)
  have free: "v \<notin> set (pl_available s k)" for k
    using assms(1) users unfolding pool_inv_def by blast
  have av: "pl_available ?t k = (if k = key then pl_available s k @ [v] else pl_available s k)" for k
    by (simp add: pool_return_def)
  have "distinct (active ?t @ map snd (pl_returning ?t))"
    using assms(1) by (auto simp: pool_inv_def r rt act)
  moreover have "distinct (pl_available ?t k)" for k
    using assms(1) free by (simp add: av pool_inv_def)
  moreover have "set (pl_available ?t k) \<inter> set (active ?t @ map snd (pl_returning ?t)) = {}" for k
    using assms(1) users v_once unfolding pool_inv_def av by auto
  moreover have "set (pl_available ?t k) \<inter> set (pl_available ?t k') = {}" if "k \<noteq> k'" for k k'
  proof -
    have "set (pl_available s k) \<inter> set (pl_available s k') = {}"
      using assms(1) that unfolding pool_inv_def by blast
    then show ?thesis using that free[of k] free[of k'] by (auto simp: av)
  qed
  ultimately show ?thesis unfolding pool_inv_def by blast
qed

inductive_cases pool_stepE: "pool_step s t"

lemma pool_step_inv: "pool_step s t \<Longrightarrow> pool_inv s \<Longrightarrow> pool_inv t"
  by (erule pool_stepE) (blast intro: pool_acquire_inv release_mark_inv pool_return_inv)+

lemma empty_pool_inv: "pool_inv empty_pool"
  by (simp add: pool_inv_def empty_pool_def active_def)

lemma pool_reachable_inv: "pool_reachable s \<Longrightarrow> pool_inv s"
  by (induction rule: pool_reachable.induct) (auto intro: empty_pool_inv pool_step_inv)

text \<open>Two live leases never hold the same workspace.\<close>

lemma inv_exclusive:
  assumes "pool_inv s" and "i < length (pl_leases s)" and "j < length (pl_leases s)" and "i < j"
    and "\<not> ls_released (pl_leases s ! i)" and "\<not> ls_released (pl_leases s ! j)"
  shows "ls_value (pl_leases s ! i) \<noteq> ls_value (pl_leases s ! j)"
proof -
  let ?act = "\<lambda>ls. map ls_value (filter (\<lambda>x. \<not> ls_released x) ls)"
  have "distinct (?act (take j (pl_leases s) @ pl_leases s ! j # drop (Suc j) (pl_leases s)))"
    using assms(1,3) by (simp add: pool_inv_def active_def id_take_nth_drop[symmetric])
  then have "ls_value x \<noteq> ls_value (pl_leases s ! j)"
    if "x \<in> set (take j (pl_leases s))" "\<not> ls_released x" for x
    using assms(6) that by (auto simp: image_iff)
  moreover have "pl_leases s ! i \<in> set (take j (pl_leases s))"
    using assms(2,3,4) by (auto simp: in_set_conv_nth)
  ultimately show ?thesis using assms(5) by blast
qed

section \<open>Releasing\<close>

text \<open>An uninterrupted \<open>release\<close> is the two steps in sequence.\<close>

lemma lease_release_steps:
  assumes "l < length (pl_leases s)" and "\<not> ls_released (pl_leases s ! l)"
  shows "\<exists>m. pool_step s m \<and> pool_step m (snd (lease_release l s))"
proof -
  let ?x = "pl_leases s ! l"
  have "(ls_key ?x, ls_value ?x) \<in> set (pl_returning (release_mark l s))"
    using assms(2) by (simp add: release_mark_def Let_def)
  then have "pool_step (release_mark l s) (snd (lease_release l s))"
    using assms by (simp add: lease_release_def Let_def give_back not_le)
  with mark[OF assms(1)] show ?thesis by blast
qed

lemma lease_release_reachable:
  assumes "pool_reachable s"
  shows "pool_reachable (snd (lease_release l s))"
proof (cases "l < length (pl_leases s) \<and> \<not> ls_released (pl_leases s ! l)")
  case True
  then show ?thesis
    using assms lease_release_steps by (meson pool_reachable.step)
next
  case False
  then show ?thesis
    using assms by (auto simp: lease_release_def Let_def)
qed

lemma lease_release_released:
  "l < length (pl_leases s) \<Longrightarrow> ls_released (pl_leases (snd (lease_release l s)) ! l)"
  by (auto simp: lease_release_def pool_return_def release_mark_def Let_def)

lemma lease_release_length [simp]:
  "length (pl_leases (snd (lease_release l s))) = length (pl_leases s)"
  by (auto simp: lease_release_def pool_return_def release_mark_def Let_def)

interpretation lease: releasable "lease_release l"
proof
  fix s :: "('a, 'b) pool"
  show "fst (lease_release l s) = Inr ()"
    by (simp add: lease_release_def Let_def)
  show "lease_release l (snd (lease_release l s)) = (Inr (), snd (lease_release l s))"
    using lease_release_released[of l s]
    by (cases "l < length (pl_leases s)") (auto simp: lease_release_def[of l "snd _"] Let_def not_less)
qed

text \<open>Where the workspace of a live lease goes when it is released.\<close>

lemma lease_release_available:
  assumes "l < length (pl_leases s)" and "\<not> ls_released (pl_leases s ! l)"
  shows "pl_available (snd (lease_release l s)) (ls_key (pl_leases s ! l))
      = pl_available s (ls_key (pl_leases s ! l)) @ [ls_value (pl_leases s ! l)]"
  using assms by (simp add: lease_release_def pool_return_def release_mark_def Let_def)

lemma lease_value_active:
  "lease_value l s = Inr v \<longleftrightarrow> \<not> ls_released (pl_leases s ! l) \<and> v = ls_value (pl_leases s ! l)"
  by (auto simp: lease_value_def)

lemma acquire_after_release:
  assumes "l < length (pl_leases s)" and "lease_value l s = Inr v" and "ls_key (pl_leases s ! l) = key"
  shows "\<exists>l' t. pool_acquire key a (snd (lease_release l s)) = (Inr l', t) \<and> lease_value l' t = Inr v
     \<and> lease_value l t = Inl (RuntimeError ''workspace lease has been released'')"
proof -
  let ?t = "snd (lease_release l s)"
  have av: "pl_available ?t key = pl_available s key @ [v]"
    using assms lease_release_available[of l s] by (simp add: lease_value_active)
  have "ls_released (pl_leases ?t ! l)"
    using lease_release_released assms(1) by blast
  then show ?thesis
    using assms(1) by (simp add: pool_acquire_def av lease_value_def Let_def nth_append)
qed

section \<open>Properties\<close>

text \<open>C6: under every interleaving of acquires and of the two halves of releases, two live leases
  never hand out the same workspace, and a workspace in use is in no free list.\<close>

theorem workspace_exclusive:
  assumes "pool_reachable s" and "i < j" and "j < length (pl_leases s)"
    and "lease_value i s = Inr u" and "lease_value j s = Inr v"
  shows "u \<noteq> v \<and> (\<forall>k. u \<notin> set (pl_available s k) \<and> v \<notin> set (pl_available s k))"
proof -
  note inv = pool_reachable_inv[OF assms(1)]
  have u: "\<not> ls_released (pl_leases s ! i)" "u = ls_value (pl_leases s ! i)"
    and v: "\<not> ls_released (pl_leases s ! j)" "v = ls_value (pl_leases s ! j)"
    using assms(4,5) by (simp_all add: lease_value_active)
  have "u \<in> set (active s)" "v \<in> set (active s)"
    using u v assms(2,3) by (auto simp: active_def)
  moreover have "u \<noteq> v"
    using inv_exclusive[OF inv _ assms(3,2)] u v assms(2,3) by simp
  ultimately show ?thesis
    using inv unfolding pool_inv_def by fastforce
qed

text \<open>Two acquires on an empty pool, as steps.\<close>

definition two_leases :: "(string, nat) pool" where
  "two_leases = snd (pool_acquire ''k'' (Inr 8) (snd (pool_acquire ''k'' (Inr 7) empty_pool)))"

lemma two_leases_reachable: "pool_reachable two_leases"
  unfolding two_leases_def
  by (rule pool_reachable.step[OF pool_reachable.step[OF pool_reachable.start]];
      rule pool_step.acquire[where key = "''k''"], rule prod.collapse[symmetric])
    (simp_all add: fresh_allocation_def held_def empty_pool_def active_def pool_acquire_def Let_def)

theorem workspace_exclusive_witness:
  "lease_value 0 two_leases = Inr 7 \<and> lease_value 1 two_leases = Inr 8 \<and> (7 :: nat) \<noteq> 8"
proof -
  have l: "lease_value 0 two_leases = Inr 7" "lease_value 1 two_leases = Inr 8"
    "1 < length (pl_leases two_leases)"
    by (simp_all add: two_leases_def pool_acquire_def empty_pool_def lease_value_def Let_def)
  show ?thesis
    using workspace_exclusive[OF two_leases_reachable _ l(3,1,2)] l by simp
qed

text \<open>C8: a work that owns a lease returns its workspace exactly when it completes: until a wait
  succeeds the lease still hands out its value; the callback sees the live value; afterwards
  the lease refuses access and the workspace is back in the free list of its key.\<close>

theorem workspace_returned_on_completion:
  assumes "l < length (pl_leases s)" and "lease_value l s = Inr v"
    and "w = make_CompletionWork result (Some (\<lambda>h. (f (lease_value l h), h))) [Some (lease_release l)]"
    and "waits w evs s = (outcomes, w', t)"
  shows "(Inr True \<notin> set evs \<longrightarrow> lease_value l t = Inr v)
     \<and> (Inr True \<in> set evs \<longrightarrow>
          lease_value l t = Inl (RuntimeError ''workspace lease has been released'')
          \<and> v \<in> set (pl_available t (ls_key (pl_leases s ! l))))
     \<and> (\<forall>i < length evs. evs ! i = Inr True \<longrightarrow> outcomes ! i = f (Inr v))"
proof -
  have clean: "clean (wk_resources w)" and unfinished: "\<not> wk_finished w"
    using lease.rel_returns by (auto simp: assms(3) clean_def make_CompletionWork_def)
  have c: "snd (completed w s) = snd (lease_release l s)" "deliver (fst (completed w s)) = f (Inr v)"
    using assms(2) by (auto simp: assms(3) completed_def run_complete_def make_CompletionWork_def
        deliver_def split: sum.splits)
  note live = lease_value_active[THEN iffD1, OF assms(2)]
  show ?thesis
  proof (cases "Inr True \<in> set evs")
    case False
    then show ?thesis
      using waits_not_completed[OF False, of w s] assms(2,4) by (auto simp: in_set_conv_nth)
  next
    case True
    have t: "t = snd (lease_release l s)"
      and out: "\<forall>i < length evs. evs ! i = Inr True \<longrightarrow> outcomes ! i = f (Inr v)"
      using waits_completed[OF clean unfinished True, of s] assms(4) c by (simp_all add: prod_eq_iff)
    show ?thesis
      using True out live lease_release_released[OF assms(1)] lease_release_available[OF assms(1)]
      by (auto simp: t lease_value_def)
  qed
qed

theorem workspace_returned_on_completion_witness:
  "\<exists>outcomes w' t. waits (make_CompletionWork 0 (Some (\<lambda>h. (lease_value 0 h, h))) [Some (lease_release 0)])
        [Inr False, Inr True] two_leases = (outcomes, w', t)
     \<and> outcomes ! 1 = Inr 7 \<and> 7 \<in> set (pl_available t ''k'')"
proof -
  let ?w = "make_CompletionWork 0 (Some (\<lambda>h. (lease_value 0 h, h))) [Some (lease_release 0)]
      :: (nat, (string, nat) pool) work"
  obtain outcomes w' t where r: "waits ?w [Inr False, Inr True] two_leases = (outcomes, w', t)"
    by (cases "waits ?w [Inr False, Inr True] two_leases")
  have l: "0 < length (pl_leases two_leases)" "lease_value 0 two_leases = Inr 7"
    "ls_key (pl_leases two_leases ! 0) = ''k''"
    by (simp_all add: two_leases_def pool_acquire_def empty_pool_def lease_value_def Let_def)
  show ?thesis
    using workspace_returned_on_completion[OF l(1,2) refl r] r l(3) by (auto simp: nth_Cons')
qed

end
