(* ===== verification/Compiler.thy ===== *)
theory Compiler
  imports Core_Types
begin

text \<open>
  The compiler of \<open>lowbit_comm/compiler\<close>: the static verifier (\<open>verifier.py\<close>), the evidence
  gate of the auto algorithm (\<open>cost_model.py\<close>), the registry of backends (\<open>registry.py\<close>) and
  the pipeline \<open>compile\<close> (\<open>pipeline.py\<close>).  A backend (\<open>core/backend.py\<close>) is a record of its
  methods over a type \<open>'e\<close> of executables; the locale \<open>backend_contract\<close> states what the
  pipeline relies on.  An argument whose class the code tests is an option, \<open>None\<close> standing
  for an object of another class.
\<close>

section \<open>Verifier\<close>

definition verify :: "program option \<Rightarrow> compile_context option \<Rightarrow> unit res" where
  "verify program context =
     (case program of None \<Rightarrow> Inl (TypeError ''program must be a CommunicationProgram'')
      | Some p \<Rightarrow>
      case context of None \<Rightarrow> Inl (TypeError ''context must be a CompileContext'')
      | Some c \<Rightarrow>
      if is_ReducedShard (prog_output p) \<and> prog_algorithm p = CompressedReduceScatterAllGather
        then Inl (ProgramVerificationError
               ''ReducedShard output cannot use an algorithm that restores FullTensor'')
      else if is_FullTensor (prog_output p) \<and> prog_algorithm p = CompressedReduceScatter
        then Inl (ProgramVerificationError
               ''FullTensor output cannot use a shard-only reduce-scatter algorithm'')
      else if output_dtype (prog_output p) \<noteq> Some (ctx_dtype c)
        then Inl (ProgramVerificationError
               ''output dtype must match the CompileContext input dtype'')
      else if prog_error_feedback p = EF_PARAMETER_DELTA \<and> is_FullTensor (prog_output p)
        then Inl (ProgramVerificationError
               ''parameter-delta error feedback belongs to the sharded training adapter'')
      else Inr ())"

text \<open>The static contract in one formula.\<close>

definition well_formed :: "program \<Rightarrow> compile_context \<Rightarrow> bool" where
  "well_formed p c \<longleftrightarrow>
     output_dtype (prog_output p) = Some (ctx_dtype c)
     \<and> (is_ReducedShard (prog_output p) \<longrightarrow> prog_algorithm p \<noteq> CompressedReduceScatterAllGather)
     \<and> (is_FullTensor (prog_output p) \<longrightarrow>
          prog_algorithm p \<noteq> CompressedReduceScatter \<and> prog_error_feedback p \<noteq> EF_PARAMETER_DELTA)"

lemma verify_Inr [simp]: "verify (Some p) (Some c) = Inr u \<longleftrightarrow> well_formed p c"
  by (auto simp: verify_def well_formed_def)

lemma verify_Inr_iff:
  "verify p' c' = Inr u \<longleftrightarrow> (\<exists>p c. p' = Some p \<and> c' = Some c \<and> well_formed p c)"
  by (cases p'; cases c') (auto simp: verify_def well_formed_def)

lemma verify_Inl:
  "verify (Some p) (Some c) = Inl e \<Longrightarrow> \<exists>m. e = ProgramVerificationError m"
  by (auto simp: verify_def split: if_splits)

section \<open>Evidence gate\<close>

record benchmark_evidence =
  ev_evidence_id :: string
  ev_target :: string
  ev_topology_signature :: string
  ev_world_size :: int
  ev_speedup_percent :: pyfloat

definition evidence_matches :: "benchmark_evidence \<Rightarrow> string \<Rightarrow> compile_context \<Rightarrow> bool" where
  "evidence_matches ev target context \<longleftrightarrow>
     ev_target ev = target
     \<and> ev_topology_signature ev = ctx_topology_signature context
     \<and> ev_world_size ev = ctx_world_size context"

record auto_decision =
  ad_use_compression :: bool
  ad_fallback_reason :: "string option"
  ad_evidence_id :: "string option"

definition decide_auto ::
    "string \<Rightarrow> compile_context \<Rightarrow> benchmark_evidence option \<Rightarrow> auto_decision" where
  "decide_auto target context evidence =
     (case evidence of
        None \<Rightarrow> \<lparr>ad_use_compression = False,
                 ad_fallback_reason = Some ''missing benchmark evidence'', ad_evidence_id = None\<rparr>
      | Some ev \<Rightarrow>
          if \<not> evidence_matches ev target context
            then \<lparr>ad_use_compression = False,
                  ad_fallback_reason = Some ''benchmark evidence mismatch'', ad_evidence_id = None\<rparr>
          else if fl_le (ev_speedup_percent ev) (Fin 0)
            then \<lparr>ad_use_compression = False,
                  ad_fallback_reason = Some ''benchmark evidence shows no speedup'',
                  ad_evidence_id = Some (ev_evidence_id ev)\<rparr>
          else \<lparr>ad_use_compression = True, ad_fallback_reason = None,
                ad_evidence_id = Some (ev_evidence_id ev)\<rparr>)"

lemma decide_auto_compresses:
  "ad_use_compression (decide_auto t c evidence) \<longleftrightarrow>
     (\<exists>ev. evidence = Some ev \<and> evidence_matches ev t c
        \<and> \<not> fl_le (ev_speedup_percent ev) (Fin 0))"
  by (auto simp: decide_auto_def split: option.splits)

lemma decide_auto_reason:
  "ad_fallback_reason (decide_auto t c evidence) = None
     \<longleftrightarrow> ad_use_compression (decide_auto t c evidence)"
  by (auto simp: decide_auto_def split: option.splits)

lemma decide_auto_cited:
  "ad_evidence_id (decide_auto t c evidence) = Some i \<Longrightarrow>
     \<exists>ev. evidence = Some ev \<and> evidence_matches ev t c \<and> i = ev_evidence_id ev"
  by (auto simp: decide_auto_def split: option.splits if_splits)

section \<open>Backends and their registry\<close>

record 'e backend =
  be_name :: string
  be_abi_version :: int
  be_capabilities :: "compile_context \<Rightarrow> backend_capabilities res"
  be_lower :: "program \<Rightarrow> compile_context \<Rightarrow> runtime_bindings \<Rightarrow> lowered_program res"
  be_compile :: "lowered_program \<Rightarrow> 'e res"

type_synonym 'e registry = "string \<rightharpoonup> 'e backend"

definition empty_registry :: "'e registry" where
  "empty_registry = (\<lambda>_. None)"

definition register :: "pyval \<Rightarrow> 'e backend \<Rightarrow> 'e registry \<Rightarrow> 'e registry res" where
  "register target backend backends =
     (if \<not> non_empty_string target
        then Inl (ValueError ''backend target must be a non-empty string'')
      else if the_str target \<in> dom backends
        then Inl (KeyError ''backend target already registered'')
      else if be_name backend \<noteq> the_str target
        then Inl (ValueError ''backend name does not match target'')
      else Inr (backends(the_str target \<mapsto> backend)))"

definition resolve :: "string \<Rightarrow> 'e registry \<Rightarrow> 'e backend res" where
  "resolve target backends =
     (case backends target of
        None \<Rightarrow> Inl (KeyError ''unknown backend target'')
      | Some backend \<Rightarrow> Inr backend)"

lemma register_Inr_iff:
  "register v b reg = Inr reg' \<longleftrightarrow>
     v = PStr (be_name b) \<and> py_strip (be_name b) \<noteq> [] \<and> reg (be_name b) = None
     \<and> reg' = reg(be_name b \<mapsto> b)"
  by (cases v) (auto simp: register_def non_empty_string_def domIff)

lemma resolve_Inr_iff [simp]: "resolve t reg = Inr b \<longleftrightarrow> reg t = Some b"
  by (auto simp: resolve_def)

text \<open>Every entry is filed under its backend's own name.\<close>

definition registry_inv :: "'e registry \<Rightarrow> bool" where
  "registry_inv reg \<longleftrightarrow> (\<forall>t b. reg t = Some b \<longrightarrow> be_name b = t \<and> py_strip t \<noteq> [])"

lemma empty_registry_inv: "registry_inv empty_registry"
  by (simp add: registry_inv_def empty_registry_def)

lemma register_inv: "registry_inv reg \<Longrightarrow> register v b reg = Inr reg' \<Longrightarrow> registry_inv reg'"
  by (auto simp: register_Inr_iff registry_inv_def)

lemma register_keeps:
  "register v b reg = Inr reg' \<Longrightarrow> resolve t reg = Inr b' \<Longrightarrow> resolve t reg' = Inr b'"
  by (auto simp: register_Inr_iff)

lemma register_resolves: "register v b reg = Inr reg' \<Longrightarrow> resolve (be_name b) reg' = Inr b"
  by (auto simp: register_Inr_iff)

section \<open>Pipeline\<close>

fun algorithm_name :: "algorithm \<Rightarrow> string res" where
  "algorithm_name AutoAlgorithm = Inr ''auto''"
| "algorithm_name NativeAllReduce = Inr ''native''"
| "algorithm_name CompressedAllGather = Inr ''compressed_all_gather''"
| "algorithm_name CompressedReduceScatter = Inr ''compressed_reduce_scatter''"
| "algorithm_name CompressedReduceScatterAllGather = Inr ''compressed_rs_ag''"
| "algorithm_name (OtherAlgorithm _) = Inl (UnsupportedProgram ''unknown algorithm type'')"

lemma algorithm_name_inj:
  "algorithm_name a = Inr n \<Longrightarrow> algorithm_name b = Inr n \<Longrightarrow> a = b"
  by (cases a; cases b) auto

definition select_effective_program ::
    "program \<Rightarrow> compile_context \<Rightarrow> string \<Rightarrow> benchmark_evidence option
     \<Rightarrow> program \<times> string option \<times> string option" where
  "select_effective_program program context target evidence =
     (if prog_algorithm program \<noteq> AutoAlgorithm then (program, None, None)
      else
        (let decision = decide_auto target context evidence in
         if ad_use_compression decision then
           (program\<lparr>prog_algorithm := CompressedReduceScatterAllGather\<rparr>, None,
            ad_evidence_id decision)
         else
           (program\<lparr>prog_algorithm := NativeAllReduce,
                    prog_wire := FullPrecisionWire (ctx_dtype context)\<rparr>,
            ad_fallback_reason decision, ad_evidence_id decision)))"

fun quantized_bit :: "wire \<Rightarrow> int option" where
  "quantized_bit (QuantizedWire w) = Some (qw_bit w)"
| "quantized_bit _ = None"

definition require_supported :: "program \<Rightarrow> backend_capabilities \<Rightarrow> unit res" where
  "require_supported program capabilities =
     rbind (algorithm_name (prog_algorithm program)) (\<lambda>algorithm.
       if algorithm \<notin> cap_supported_algorithms capabilities
         then Inl (UnsupportedProgram ''backend does not support algorithm'')
       else case prog_wire program of
           QuantizedWire w \<Rightarrow>
             if qw_bit w \<notin> cap_supported_bits capabilities
               then Inl (UnsupportedProgram ''backend does not support wire bits'')
             else Inr ()
         | _ \<Rightarrow> Inr ())"

record 'e bound_executable =
  bd_executable :: 'e
  bd_lowered :: lowered_program
  bd_execution_info :: execution_info

definition bound_run :: "('e \<Rightarrow> 'v \<Rightarrow> 'r) \<Rightarrow> 'e bound_executable \<Rightarrow> 'v \<Rightarrow> 'r" where
  "bound_run run bound value = run (bd_executable bound) value"

text \<open>\<open>compiler.compile\<close>, after the class tests of \<open>verify\<close>.\<close>

definition compile_program ::
    "program option \<Rightarrow> compile_context option \<Rightarrow> runtime_bindings \<Rightarrow> 'e registry
     \<Rightarrow> benchmark_evidence option \<Rightarrow> 'e bound_executable res" where
  "compile_program program context bindings registry evidence =
     rbind (verify program context) (\<lambda>_.
     let p = the program; c = the context; target = ctx_device_type c in
     rbind (resolve target registry) (\<lambda>backend.
     rbind (be_capabilities backend c) (\<lambda>capabilities.
     case select_effective_program p c target evidence of
       (effective, fallback_reason, evidence_id) \<Rightarrow>
     rbind (require_supported effective capabilities) (\<lambda>_.
     rbind (be_lower backend effective c bindings) (\<lambda>lowered.
     rbind (be_compile backend lowered) (\<lambda>executable.
     rbind (algorithm_name (prog_algorithm p)) (\<lambda>requested_algorithm.
     rbind (algorithm_name (prog_algorithm effective)) (\<lambda>effective_algorithm.
       Inr \<lparr>bd_executable = executable, bd_lowered = lowered,
            bd_execution_info =
              \<lparr>ei_requested_algorithm = requested_algorithm,
               ei_effective_algorithm = effective_algorithm,
               ei_requested_wire = prog_wire p, ei_effective_wire = prog_wire effective,
               ei_fallback_reason = fallback_reason, ei_evidence_id = evidence_id\<rparr>\<rparr>))))))))"

subsection \<open>Selection\<close>

abbreviation effective_program ::
    "program \<Rightarrow> compile_context \<Rightarrow> benchmark_evidence option \<Rightarrow> program" where
  "effective_program p c evidence \<equiv>
     fst (select_effective_program p c (ctx_device_type c) evidence)"

lemma select_explicit:
  "prog_algorithm p \<noteq> AutoAlgorithm \<Longrightarrow> select_effective_program p c t evidence = (p, None, None)"
  by (simp add: select_effective_program_def)

lemma select_never_auto:
  "prog_algorithm (fst (select_effective_program p c t evidence)) \<noteq> AutoAlgorithm"
  by (simp add: select_effective_program_def Let_def)

lemma select_frame:
  "select_effective_program p c t evidence = (q, reason, i) \<Longrightarrow>
     prog_operation q = prog_operation p \<and> prog_output q = prog_output p
     \<and> prog_async_op q = prog_async_op p \<and> prog_error_feedback q = prog_error_feedback p"
  by (auto simp: select_effective_program_def Let_def split: if_splits)

lemma select_auto:
  assumes "prog_algorithm p = AutoAlgorithm"
  shows "select_effective_program p c t evidence =
     (if \<exists>ev. evidence = Some ev \<and> evidence_matches ev t c
            \<and> \<not> fl_le (ev_speedup_percent ev) (Fin 0)
      then (p\<lparr>prog_algorithm := CompressedReduceScatterAllGather\<rparr>, None,
            map_option ev_evidence_id evidence)
      else (p\<lparr>prog_algorithm := NativeAllReduce,
              prog_wire := FullPrecisionWire (ctx_dtype c)\<rparr>,
            ad_fallback_reason (decide_auto t c evidence),
            ad_evidence_id (decide_auto t c evidence)))"
  using assms by (auto simp: select_effective_program_def decide_auto_def split: option.splits)

lemma require_supported_Inr_iff:
  "require_supported p cap = Inr u \<longleftrightarrow>
     (\<exists>n. algorithm_name (prog_algorithm p) = Inr n \<and> n \<in> cap_supported_algorithms cap)
     \<and> (\<forall>b. quantized_bit (prog_wire p) = Some b \<longrightarrow> b \<in> cap_supported_bits cap)"
  by (cases "prog_wire p") (auto simp: require_supported_def)

subsection \<open>Compilation\<close>

text \<open>Exactly when \<open>compile\<close> returns, and what it returns.\<close>

lemma compile_program_Inr_iff:
  "compile_program (Some p) (Some c) bindings reg evidence = Inr bound \<longleftrightarrow>
     well_formed p c
     \<and> (\<exists>backend cap lowered executable requested effective.
          reg (ctx_device_type c) = Some backend
          \<and> be_capabilities backend c = Inr cap
          \<and> require_supported (effective_program p c evidence) cap = Inr ()
          \<and> be_lower backend (effective_program p c evidence) c bindings = Inr lowered
          \<and> be_compile backend lowered = Inr executable
          \<and> algorithm_name (prog_algorithm p) = Inr requested
          \<and> algorithm_name (prog_algorithm (effective_program p c evidence)) = Inr effective
          \<and> bound = \<lparr>bd_executable = executable, bd_lowered = lowered,
              bd_execution_info =
                \<lparr>ei_requested_algorithm = requested, ei_effective_algorithm = effective,
                 ei_requested_wire = prog_wire p,
                 ei_effective_wire = prog_wire (effective_program p c evidence),
                 ei_fallback_reason =
                   fst (snd (select_effective_program p c (ctx_device_type c) evidence)),
                 ei_evidence_id =
                   snd (snd (select_effective_program p c (ctx_device_type c) evidence))\<rparr>\<rparr>)"
  by (cases "select_effective_program p c (ctx_device_type c) evidence")
    (auto simp: compile_program_def Let_def)

lemma compile_program_verified:
  "compile_program p' c' bindings reg evidence = Inr bound \<Longrightarrow>
     \<exists>p c. p' = Some p \<and> c' = Some c \<and> well_formed p c"
  unfolding compile_program_def by (simp add: verify_Inr_iff)

lemma compile_program_rejects:
  "verify p' c' = Inl e \<Longrightarrow> compile_program p' c' bindings reg evidence = Inl e"
  by (simp add: compile_program_def)

section \<open>What the pipeline relies on of a backend\<close>

locale backend_contract =
  fixes be :: "'e backend"
  assumes lower_faithful:
      "be_lower be p c b = Inr low \<Longrightarrow>
         low_target low = be_name be \<and> low_program low = p \<and> low_context low = c
         \<and> low_bindings low = b \<and> low_stages low \<noteq> []
         \<and> (\<forall>s \<in> set (low_stages low). st_wire s = prog_wire p)"
    and capabilities_total: "\<exists>cap. be_capabilities be c = Inr cap \<and> cap_target cap = be_name be"
    and supported_lowers:
      "be_capabilities be c = Inr cap \<Longrightarrow> algorithm_name (prog_algorithm p) = Inr n \<Longrightarrow>
         n \<in> cap_supported_algorithms cap \<Longrightarrow> \<exists>low. be_lower be p c b = Inr low"
begin

text \<open>A compiled program is the effective one, and the record of the decision says so.\<close>

lemma compiled_faithful:
  assumes "reg (ctx_device_type c) = Some be"
    and "compile_program (Some p) (Some c) bindings reg evidence = Inr bound"
  shows "low_program (bd_lowered bound) = effective_program p c evidence"
    and "low_context (bd_lowered bound) = c"
    and "low_target (bd_lowered bound) = be_name be"
    and "low_bindings (bd_lowered bound) = bindings"
    and "s \<in> set (low_stages (bd_lowered bound)) \<Longrightarrow>
           st_wire s = ei_effective_wire (bd_execution_info bound)"
    and "algorithm_name (prog_algorithm (low_program (bd_lowered bound)))
           = Inr (ei_effective_algorithm (bd_execution_info bound))"
    and "be_compile be (bd_lowered bound) = Inr (bd_executable bound)"
  using assms by (auto simp: compile_program_Inr_iff dest!: lower_faithful)

text \<open>Once support is granted, lowering does not fail: the only failures left are the
  verifier's, the capability check's and the backend's own \<open>compile\<close>.\<close>

lemma compile_outcome:
  assumes reg: "reg (ctx_device_type c) = Some be" and "well_formed p c"
  obtains (unsupported) cap m where "be_capabilities be c = Inr cap"
      and "require_supported (effective_program p c evidence) cap = Inl m"
      and "compile_program (Some p) (Some c) bindings reg evidence = Inl m"
    | (bound) low where "be_lower be (effective_program p c evidence) c bindings = Inr low"
      and "(\<exists>e. be_compile be low = Inl e
              \<and> compile_program (Some p) (Some c) bindings reg evidence = Inl e)
           \<or> (\<exists>b. compile_program (Some p) (Some c) bindings reg evidence = Inr b)"
proof -
  obtain q reason i where sel: "select_effective_program p c (ctx_device_type c) evidence = (q, reason, i)"
    by (cases "select_effective_program p c (ctx_device_type c) evidence")
  obtain cap where cap: "be_capabilities be c = Inr cap"
    using capabilities_total by blast
  have v: "verify (Some p) (Some c) = Inr ()"
    using assms(2) by simp
  show thesis
  proof (cases "require_supported q cap")
    case (Inl m)
    then show thesis
      using unsupported[of cap m] reg v cap sel by (simp add: compile_program_def Let_def resolve_def)
  next
    case (Inr u)
    then obtain n where n: "algorithm_name (prog_algorithm q) = Inr n" "n \<in> cap_supported_algorithms cap"
      by (auto simp: require_supported_Inr_iff)
    obtain low where low: "be_lower be q c bindings = Inr low"
      using supported_lowers[OF cap n] by blast
    obtain r where "algorithm_name (prog_algorithm p) = Inr r"
      using n sel by (cases "prog_algorithm p") (auto simp: select_effective_program_def)
    then show thesis
      using bound[of low] reg v cap sel low n Inr \<open>algorithm_name (prog_algorithm p) = Inr r\<close>
      by (cases "be_compile be low") (auto simp: compile_program_def Let_def resolve_def)
  qed
qed

end

section \<open>Properties\<close>

text \<open>A registration adds exactly one backend, under its own name, keeps every earlier one,
  and is refused for a name already taken; so every entry of a registry built this way is filed
  under its backend's name.\<close>

theorem registry_consistent:
  assumes "registry_inv reg" and "register target be reg = Inr reg'"
  shows "registry_inv reg' \<and> resolve (be_name be) reg' = Inr be
     \<and> (\<forall>t b. resolve t reg' = Inr b \<longleftrightarrow> resolve t reg = Inr b \<or> (t = be_name be \<and> b = be))
     \<and> (\<forall>be'. \<exists>m. register target be' reg' = Inl (KeyError m))"
  using register_inv[OF assms] assms(2)
  by (auto simp: register_Inr_iff register_def split: if_splits)

theorem registry_consistent_witness:
  "\<exists>reg' be. register (PStr ''x'') be empty_registry = Inr reg' \<and> be_abi_version be = 3
     \<and> resolve ''x'' reg' = Inr (be :: unit backend)"
proof -
  let ?be = "\<lparr>be_name = ''x'', be_abi_version = 3, be_capabilities = \<lambda>_. Inl StopIteration,
      be_lower = \<lambda>_ _ _. Inl StopIteration, be_compile = \<lambda>_. Inl StopIteration\<rparr> :: unit backend"
  have "register (PStr ''x'') ?be empty_registry = Inr (empty_registry(''x'' \<mapsto> ?be))"
    by (simp add: register_Inr_iff empty_registry_def py_strip_eq_Nil py_isspace_def)
  from registry_consistent[OF empty_registry_inv this] this show ?thesis
    by (intro exI[of _ "empty_registry(''x'' \<mapsto> ?be)"] exI[of _ ?be]) simp
qed


text \<open>A minimal backend and a context, for the instances below.\<close>

definition null_backend :: "unit backend" where
  "null_backend =
     \<lparr>be_name = ''null'', be_abi_version = 1,
      be_capabilities = (\<lambda>_. Inr \<lparr>cap_target = ''null'', cap_supported_bits = {4, 8},
        cap_supported_algorithms = default_supported_algorithms, cap_supports_full_tensor = True,
        cap_supports_reduced_shard = True\<rparr>),
      be_lower = (\<lambda>p c b. Inr \<lparr>low_target = ''null'', low_program = p,
        low_stages = [\<lparr>st_name = ''s'', st_wire = prog_wire p, st_collective = True\<rparr>],
        low_context = c, low_bindings = b\<rparr>),
      be_compile = (\<lambda>_. Inr ())\<rparr>"

definition sample_context :: "string \<Rightarrow> compile_context" where
  "sample_context device =
     \<lparr>ctx_rank = 0, ctx_world_size = 2, ctx_shape = [100], ctx_dtype = FP16,
      ctx_device_type = device, ctx_device_architecture = ''a'', ctx_topology_signature = ''t'',
      ctx_layout_generation = 0, ctx_workspace_budget_bytes = None\<rparr>"

definition sample_program :: "output_type \<Rightarrow> wire \<Rightarrow> algorithm \<Rightarrow> program" where
  "sample_program out w a =
     \<lparr>prog_operation = ReduceMean, prog_output = out, prog_wire = w, prog_algorithm = a,
      prog_async_op = True, prog_error_feedback = EF_NONE\<rparr>"

definition sample_bindings :: runtime_bindings where
  "sample_bindings = \<lparr>rb_process_group = PNone, rb_backend_runtime = PNone,
     rb_stream_provider = PNone, rb_allocator = PNone\<rparr>"

definition sample_evidence :: "string \<Rightarrow> pyfloat \<Rightarrow> benchmark_evidence" where
  "sample_evidence device speedup =
     \<lparr>ev_evidence_id = ''e1'', ev_target = device, ev_topology_signature = ''t'', ev_world_size = 2,
      ev_speedup_percent = speedup\<rparr>"

lemmas sample_defs = sample_context_def sample_program_def sample_bindings_def sample_evidence_def


end
