(* ===== verification/Reference_Backend.thy ===== *)
theory Reference_Backend
  imports Compiler Work
begin

text \<open>
  \<open>backends/reference/backend.py\<close>: the deterministic backend for semantic validation.  Its
  executable copies a Python list and passes any other value through, so lists live in a
  store (a list is named by its position) and the copy is a fresh one.
\<close>

section \<open>The backend\<close>

fun reference_stages :: "algorithm \<Rightarrow> string list option" where
  "reference_stages NativeAllReduce = Some [''native_all_reduce'']"
| "reference_stages CompressedAllGather = Some [''compressed_all_gather'']"
| "reference_stages CompressedReduceScatter = Some [''quantized_reduce_scatter'']"
| "reference_stages CompressedReduceScatterAllGather =
     Some [''quantized_reduce_scatter'', ''quantized_all_gather'']"
| "reference_stages AutoAlgorithm = None"
| "reference_stages (OtherAlgorithm _) = None"

definition reference_capabilities :: "compile_context \<Rightarrow> backend_capabilities res" where
  "reference_capabilities context =
     make_BackendCapabilities (PStr ''reference'') {4, 8} default_supported_algorithms True True"

definition reference_lower ::
    "program \<Rightarrow> compile_context \<Rightarrow> runtime_bindings \<Rightarrow> lowered_program res" where
  "reference_lower program context bindings =
     (case reference_stages (prog_algorithm program) of
        None \<Rightarrow> Inl (ValueError ''reference backend cannot lower algorithm'')
      | Some stage_names \<Rightarrow>
          rbind (rmap (\<lambda>name. make_LoweredStage (PStr name) (Some (prog_wire program)) False)
                   stage_names) (\<lambda>stages.
            make_LoweredProgram (PStr ''reference'') program stages context bindings))"

record reference_executable =
  re_lowered :: lowered_program

definition reference_compile :: "lowered_program \<Rightarrow> reference_executable res" where
  "reference_compile lowered =
     (if low_target lowered \<noteq> ''reference'' then Inl (ValueError ''cannot compile target'')
      else Inr \<lparr>re_lowered = lowered\<rparr>)"

definition ReferenceBackend :: "reference_executable backend" where
  "ReferenceBackend =
     \<lparr>be_name = ''reference'', be_abi_version = 1, be_capabilities = reference_capabilities,
      be_lower = reference_lower, be_compile = reference_compile\<rparr>"

lemma reference_name_ok [simp]: "py_strip ''reference'' = ''reference''"
  by (rule py_strip_id) (auto simp: py_isspace_def)

lemma reference_capabilities_eq:
  "reference_capabilities c = Inr \<lparr>cap_target = ''reference'', cap_supported_bits = {4, 8},
     cap_supported_algorithms = default_supported_algorithms,
     cap_supports_full_tensor = True, cap_supports_reduced_shard = True\<rparr>"
  by (simp add: reference_capabilities_def make_BackendCapabilities_def)

lemma reference_stage_names:
  assumes "reference_stages a = Some names"
  shows "names \<noteq> []" and "name \<in> set names \<Longrightarrow> py_strip name \<noteq> []"
  using assms by (cases a; auto simp: py_strip_eq_Nil py_isspace_def)+

lemma reference_lower_eq:
  "reference_lower p c b =
     (case reference_stages (prog_algorithm p) of
        None \<Rightarrow> Inl (ValueError ''reference backend cannot lower algorithm'')
      | Some names \<Rightarrow> Inr \<lparr>low_target = ''reference'', low_program = p,
          low_stages = map (\<lambda>n. \<lparr>st_name = n, st_wire = prog_wire p, st_collective = False\<rparr>) names,
          low_context = c, low_bindings = b\<rparr>)"
proof (cases "reference_stages (prog_algorithm p)")
  case (Some names)
  have "rmap (\<lambda>n. make_LoweredStage (PStr n) (Some (prog_wire p)) False) names
      = Inr (map (\<lambda>n. \<lparr>st_name = n, st_wire = prog_wire p, st_collective = False\<rparr>) names)"
    using reference_stage_names(2)[OF Some] by (intro rmap_total) (simp add: make_LoweredStage_def)
  then show ?thesis
    using reference_stage_names(1)[OF Some]
    by (simp add: reference_lower_def Some make_LoweredProgram_def)
qed (simp add: reference_lower_def)

interpretation reference: backend_contract ReferenceBackend
proof
  fix p :: program and c b and low :: lowered_program
  assume "be_lower ReferenceBackend p c b = Inr low"
  then show "low_target low = be_name ReferenceBackend \<and> low_program low = p \<and> low_context low = c
      \<and> low_bindings low = b \<and> low_stages low \<noteq> []
      \<and> (\<forall>s \<in> set (low_stages low). st_wire s = prog_wire p)"
    using reference_stage_names(1)[of "prog_algorithm p"]
    by (auto simp: ReferenceBackend_def reference_lower_eq)
next
  fix c
  show "\<exists>cap. be_capabilities ReferenceBackend c = Inr cap \<and> cap_target cap = be_name ReferenceBackend"
    by (simp add: ReferenceBackend_def reference_capabilities_eq)
next
  fix c cap n b and p :: program
  assume "be_capabilities ReferenceBackend c = Inr cap"
    and "algorithm_name (prog_algorithm p) = Inr n" and "n \<in> cap_supported_algorithms cap"
  then show "\<exists>low. be_lower ReferenceBackend p c b = Inr low"
    by (cases "prog_algorithm p")
      (auto simp: ReferenceBackend_def reference_capabilities_eq reference_lower_eq
        default_supported_algorithms_def)
qed

text \<open>The whole pipeline on this backend: exactly which programs compile.\<close>

lemma reference_compiles:
  assumes "reg ''reference'' = Some ReferenceBackend" and "ctx_device_type c = ''reference''"
    and "case prog_wire p of QuantizedWire w \<Rightarrow> valid_wire w | _ \<Rightarrow> True"
  shows "(\<exists>b. compile_program (Some p) (Some c) bindings reg evidence = Inr b) \<longleftrightarrow>
     well_formed p c \<and> (\<forall>n. prog_algorithm p \<noteq> OtherAlgorithm n)"
proof -
  let ?q = "effective_program p c evidence"
  have bits: "\<forall>b. quantized_bit (prog_wire ?q) = Some b \<longrightarrow> b \<in> {4, 8}"
    using assms(3)
    by (cases "prog_wire p") (auto simp: select_effective_program_def Let_def valid_wire_def)
  have other: "(\<exists>n. prog_algorithm ?q = OtherAlgorithm n) \<longleftrightarrow> (\<exists>n. prog_algorithm p = OtherAlgorithm n)"
    by (auto simp: select_effective_program_def Let_def)
  have not_auto: "prog_algorithm ?q \<noteq> AutoAlgorithm"
    by (rule select_never_auto)
  show ?thesis
    using bits other not_auto assms(1,2)
    by (cases "prog_algorithm ?q"; cases "prog_algorithm p")
      (auto simp: compile_program_Inr_iff ReferenceBackend_def reference_capabilities_eq
        require_supported_Inr_iff reference_lower_eq reference_compile_def
        default_supported_algorithms_def)
qed

section \<open>The executable\<close>

datatype 'v host_value = ListRef nat | Plain 'v

type_synonym 'v list_store = "'v list list"

definition reference_run ::
    "reference_executable \<Rightarrow> 'v host_value \<Rightarrow> 'v list_store
     \<Rightarrow> ('v host_value, 'v list_store) work \<times> 'v list_store" where
  "reference_run executable value store =
     (case value of
        ListRef a \<Rightarrow> (make_CompletionWork (ListRef (length store)) None [], store @ [store ! a])
      | Plain v \<Rightarrow> (make_CompletionWork (Plain v) None [], store))"

lemma reference_work_wait:
  "work_wait (make_CompletionWork x None []) (Inr True) h
     = (Inr x, (make_CompletionWork x None [])\<lparr>wk_finished := True\<rparr>, h)"
  by (simp add: make_CompletionWork_def work_wait_def run_complete_def deliver_def Let_def)

text \<open>The result holds what the list held when \<open>run\<close> was called, whatever is written to the
  caller's list afterwards.\<close>

lemma reference_run_isolated:
  assumes "a < length store" and "reference_run e (ListRef a) store = (w, store')"
  shows "\<exists>r w'. work_wait w (Inr True) (store'[a := later]) = (Inr (ListRef r), w', store'[a := later])
     \<and> r \<noteq> a \<and> store'[a := later] ! r = store ! a"
  using assms
  by (auto simp: reference_run_def reference_work_wait nth_append list_update_append)

section \<open>Properties\<close>

text \<open>On the reference backend \<open>compile\<close> returns for exactly the well-formed programs of known
  algorithms, whatever the evidence: no capability check, lowering or binding fails.\<close>

theorem reference_compiles_exactly:
  assumes "reg ''reference'' = Some ReferenceBackend" and "ctx_device_type c = ''reference''"
    and "case prog_wire p of QuantizedWire w \<Rightarrow> valid_wire w | _ \<Rightarrow> True"
  shows "(\<exists>b. compile_program (Some p) (Some c) bindings reg evidence = Inr b) \<longleftrightarrow>
     well_formed p c \<and> (\<forall>n. prog_algorithm p \<noteq> OtherAlgorithm n)"
  using reference_compiles[of reg c p bindings evidence, OF assms] .

theorem reference_compiles_exactly_witness:
  "(\<exists>b. compile_program (Some (sample_program (FullTensor FP16) (FullPrecisionWire FP16) NativeAllReduce))
        (Some (sample_context ''reference'')) sample_bindings [''reference'' \<mapsto> ReferenceBackend] None = Inr b)
     \<and> \<not> (\<exists>b. compile_program (Some (sample_program (FullTensor FP32) (FullPrecisionWire FP16) NativeAllReduce))
        (Some (sample_context ''reference'')) sample_bindings [''reference'' \<mapsto> ReferenceBackend] None = Inr b)"
  by (subst (1 2) reference_compiles_exactly) (simp_all add: sample_defs well_formed_def)

text \<open>C17: the auto algorithm escapes the verifier: with a ReducedShard output and positive evidence
  the program compiles and binds, although the program it was rewritten to is one the verifier
  rejects.\<close>

theorem auto_reduced_shard_unverified:
  assumes "reg ''reference'' = Some ReferenceBackend" and "ctx_device_type c = ''reference''"
    and "case prog_wire p of QuantizedWire w \<Rightarrow> valid_wire w | _ \<Rightarrow> True"
    and "prog_algorithm p = AutoAlgorithm" and "prog_output p = ReducedShard (ctx_dtype c) v"
    and "evidence_matches ev ''reference'' c" and "fl_less (Fin 0) (ev_speedup_percent ev)"
  shows "\<exists>b m. compile_program (Some p) (Some c) bindings reg (Some ev) = Inr b
     \<and> prog_algorithm (low_program (bd_lowered b)) = CompressedReduceScatterAllGather
     \<and> verify (Some (low_program (bd_lowered b))) (Some c) = Inl (ProgramVerificationError m)"
proof -
  have "well_formed p c"
    using assms(4,5) by (simp add: well_formed_def)
  then obtain b where b: "compile_program (Some p) (Some c) bindings reg (Some ev) = Inr b"
    using reference_compiles[of reg c p bindings "Some ev", OF assms(1,2,3)] assms(4) by auto
  have "\<not> fl_le (ev_speedup_percent ev) (Fin 0)"
    using assms(7) by (cases "ev_speedup_percent ev") auto
  then have sel: "select_effective_program p c (ctx_device_type c) (Some ev)
      = (p\<lparr>prog_algorithm := CompressedReduceScatterAllGather\<rparr>, None, Some (ev_evidence_id ev))"
    using assms(2,4,6) by (simp add: select_auto)
  have "low_program (bd_lowered b) = p\<lparr>prog_algorithm := CompressedReduceScatterAllGather\<rparr>"
    using reference.compiled_faithful(1)[OF _ b] assms(1,2) sel by simp
  then show ?thesis
    using b assms(5) by (simp add: verify_def)
qed

theorem auto_reduced_shard_unverified_witness:
  "\<exists>b m. compile_program (Some (sample_program (ReducedShard FP16 0) (FullPrecisionWire FP16) AutoAlgorithm))
        (Some (sample_context ''reference'')) sample_bindings [''reference'' \<mapsto> ReferenceBackend]
        (Some (sample_evidence ''reference'' (Fin 5))) = Inr b
     \<and> verify (Some (low_program (bd_lowered b))) (Some (sample_context ''reference''))
         = Inl (ProgramVerificationError m)"
proof -
  have "\<exists>b m. compile_program (Some (sample_program (ReducedShard FP16 0) (FullPrecisionWire FP16) AutoAlgorithm))
        (Some (sample_context ''reference'')) sample_bindings [''reference'' \<mapsto> ReferenceBackend]
        (Some (sample_evidence ''reference'' (Fin 5))) = Inr b
     \<and> prog_algorithm (low_program (bd_lowered b)) = CompressedReduceScatterAllGather
     \<and> verify (Some (low_program (bd_lowered b))) (Some (sample_context ''reference''))
         = Inl (ProgramVerificationError m)"
    by (rule auto_reduced_shard_unverified) (simp_all add: sample_defs evidence_matches_def)
  then show ?thesis by blast
qed

text \<open>The reference executable copies: the list a wait delivers is a fresh one that holds what
  the caller's list held when \<open>run\<close> was called, whatever is written to the caller's list later.\<close>

theorem reference_result_isolated:
  assumes "a < length store" and "reference_run e (ListRef a) store = (w, store')"
  shows "\<exists>r w'. work_wait w (Inr True) (store'[a := later]) = (Inr (ListRef r), w', store'[a := later])
     \<and> r \<notin> {..<length store} \<and> store'[a := later] ! r = store ! a"
  using assms by (auto simp: reference_run_def reference_work_wait nth_append list_update_append)

theorem reference_result_isolated_witness:
  "\<exists>e w store' r w'. reference_run e (ListRef 0) [[1, 2 :: nat]] = (w, store')
     \<and> work_wait w (Inr True) (store'[0 := []]) = (Inr (ListRef r), w', store'[0 := []])
     \<and> store'[0 := []] ! r = [1, 2]"
proof -
  obtain e :: reference_executable and w store' where r: "reference_run e (ListRef 0) [[1, 2 :: nat]] = (w, store')"
    by (metis prod.collapse)
  show ?thesis
    using reference_result_isolated[OF _ r, of "[]"] r by fastforce
qed

end
