(* ===== verification/Codec.thy ===== *)
theory Codec
  imports Core_Types "HOL-Library.Word" "HOL-Library.Log_Nat"
begin

text \<open>
  \<open>backends/cuda/loader.py\<close> and \<open>backends/cuda/codec.py\<close>: the lazy loader of the native CUDA
  extension and the facade over its codec.  The extension is compiled code, so a module is a
  record of what the Python code reads of it: the attributes it has, and the kernels as
  functions from the buffers they are given to the contents they leave in the output buffer.
  Floating-point elements are of an arbitrary type \<open>'x\<close>; a payload is a list of bytes.  The
  integer arguments of the fused kernels are the world size and, for the last one, the
  payload size, the stride of a row and the elements of a shard; a string names the dtype.
\<close>

section \<open>The native module\<close>

type_synonym byte = "8 word"

datatype native_attr = Callable | Namespace "string set" | Constant pyval

record codec_args =
  ca_group_size :: int
  ca_bit :: int
  ca_quant_type :: string
  ca_compact :: bool

record 'x native =
  nt_attr :: "string \<rightharpoonup> native_attr"
  nt_quantize :: "codec_args \<Rightarrow> 'x list \<Rightarrow> byte list \<Rightarrow> byte list res"
  nt_dequantize :: "codec_args \<Rightarrow> byte list \<Rightarrow> 'x list \<Rightarrow> 'x list res"
  nt_reduce_mean ::
    "codec_args \<Rightarrow> int \<Rightarrow> byte list list \<Rightarrow> 'x list \<Rightarrow> (bool \<times> 'x list) res"
  nt_requantize ::
    "codec_args \<Rightarrow> string \<Rightarrow> int \<Rightarrow> byte list list \<Rightarrow> byte list \<Rightarrow> (bool \<times> byte list) res"
  nt_gathered ::
    "codec_args \<Rightarrow> string \<Rightarrow> int \<Rightarrow> int \<Rightarrow> int \<Rightarrow> int \<Rightarrow> byte list \<Rightarrow> 'x list
     \<Rightarrow> (bool \<times> 'x list) res"

section \<open>Loader\<close>

record 'm extension_status =
  cs_available :: bool
  cs_module :: "'m option"
  cs_reason :: "string option"
  cs_abi_version :: "int option"

text \<open>What \<open>import_module\<close> does: \<open>ModuleNotFoundError\<close> carries a name beside its message.\<close>

datatype 'm import_outcome =
    Imported 'm
  | ModuleNotFound "string option" string
  | ImportFailed string
  | OSFailed string
  | ImportRaised exn

text \<open>The builtin \<open>int\<close> on an attribute value.\<close>

fun py_int_of :: "pyval \<Rightarrow> int res" where
  "py_int_of (PInt i) = Inr i"
| "py_int_of (PBool b) = Inr (if b then 1 else 0)"
| "py_int_of (PFloat (Fin r)) = Inr (if 0 \<le> r then \<lfloor>r\<rfloor> else \<lceil>r\<rceil>)"
| "py_int_of (PFloat NaN) = Inl (ValueError ''cannot convert float NaN to integer'')"
| "py_int_of (PFloat PosInf) = Inl (OverflowError ''cannot convert float infinity to integer'')"
| "py_int_of (PFloat NegInf) = Inl (OverflowError ''cannot convert float infinity to integer'')"
| "py_int_of (PStr s) =
     (case py_int (py_strip s) of
        None \<Rightarrow> Inl (ValueError ''invalid literal for int'')
      | Some i \<Rightarrow> Inr i)"
| "py_int_of v = Inl (TypeError ''int() argument must be a number'')"

definition load_cuda_extension ::
    "string \<Rightarrow> ('m \<Rightarrow> pyval option) \<Rightarrow> 'm import_outcome \<Rightarrow> 'm extension_status res" where
  "load_cuda_extension module_name abi_attribute outcome =
     (case outcome of
        ModuleNotFound name message \<Rightarrow>
          Inr \<lparr>cs_available = False, cs_module = None,
               cs_reason = Some (if name = Some module_name \<or> py_contains message module_name
                                 then module_name @ '' is not installed'' else message),
               cs_abi_version = None\<rparr>
      | ImportFailed message \<Rightarrow>
          Inr \<lparr>cs_available = False, cs_module = None, cs_reason = Some message,
               cs_abi_version = None\<rparr>
      | OSFailed message \<Rightarrow>
          Inr \<lparr>cs_available = False, cs_module = None, cs_reason = Some message,
               cs_abi_version = None\<rparr>
      | ImportRaised e \<Rightarrow> Inl e
      | Imported m \<Rightarrow>
          (let abi_version = (case abi_attribute m of None \<Rightarrow> PNone | Some v \<Rightarrow> v) in
           if abi_version \<noteq> PNone then
             rbind (py_int_of abi_version) (\<lambda>i.
               Inr \<lparr>cs_available = True, cs_module = Some m, cs_reason = None,
                    cs_abi_version = Some i\<rparr>)
           else Inr \<lparr>cs_available = True, cs_module = Some m, cs_reason = None,
                     cs_abi_version = None\<rparr>))"

text \<open>A status offers a module exactly when it claims to be available, and gives a reason
  exactly when it does not.\<close>

definition coherent_status :: "'m extension_status \<Rightarrow> bool" where
  "coherent_status st \<longleftrightarrow>
     (cs_available st \<longleftrightarrow> cs_module st \<noteq> None) \<and> (cs_available st \<longleftrightarrow> cs_reason st = None)
     \<and> (cs_abi_version st \<noteq> None \<longrightarrow> cs_available st)"

lemma load_cuda_extension_coherent:
  "load_cuda_extension n abi outcome = Inr st \<Longrightarrow> coherent_status st"
  by (auto simp: load_cuda_extension_def coherent_status_def Let_def
      split: import_outcome.splits if_splits option.splits)

text \<open>A missing or broken extension never makes the import of the package fail.\<close>

lemma load_cuda_extension_safe:
  "load_cuda_extension n abi outcome = Inl e \<Longrightarrow>
     outcome = ImportRaised e
     \<or> (\<exists>m v. outcome = Imported m \<and> abi m = Some v \<and> py_int_of v = Inl e)"
  by (auto simp: load_cuda_extension_def Let_def rbind_eq_Inl
      split: import_outcome.splits if_splits option.splits)

section \<open>Payload size\<close>

definition dtype_bytes :: "data_type \<Rightarrow> int" where
  "dtype_bytes dtype = (case dtype of FP16 \<Rightarrow> 2 | BF16 \<Rightarrow> 2 | FP32 \<Rightarrow> 4)"

text \<open>
  \<open>numel / group_size\<close> divides two integers into a double.  A group size is 16, 32 or 64, so
  the quotient is the numerator rounded to 53 significant bits, half to even, and scaled by
  a power of two; \<open>ceil\<close> of it is exact.  A quotient beyond the largest double overflows.
\<close>

definition round53 :: "int \<Rightarrow> int" where
  "round53 a =
     (let e = nat (bitlen a - 53) in
      if e = 0 then a
      else
        (let q = a div 2 ^ e; r = a mod 2 ^ e; h = 2 ^ (e - 1);
             q' = (if h < r \<or> (r = h \<and> odd q) then q + 1 else q)
         in q' * 2 ^ e))"

definition ceil_true_div :: "int \<Rightarrow> int \<Rightarrow> int res" where
  "ceil_true_div a g =
     (if g * 2 ^ 1024 \<le> round53 a
        then Inl (OverflowError ''integer division result too large for a float'')
      else Inr ((round53 a + g - 1) div g))"

lemma round53_exact: "0 \<le> a \<Longrightarrow> a < 2 ^ 53 \<Longrightarrow> round53 a = a"
proof -
  assume "0 \<le> a" and "a < 2 ^ 53"
  then have "bitlen a \<le> 53"
    by (cases "a = 0") (simp_all add: bitlen_le_iff_power)
  then show ?thesis by (simp add: round53_def)
qed

definition payload_nbytes :: "pyval \<Rightarrow> pyval \<Rightarrow> quantized_wire option \<Rightarrow> int res" where
  [planner_defs]:
  "payload_nbytes numel dtype wire =
     (if \<not> is_plain_int numel \<or> the_int numel < 0
        then Inl (ValueError ''numel must be a non-negative integer'')
      else if \<not> is_data_type dtype then Inl (TypeError ''dtype must be a DataType'')
      else case wire of None \<Rightarrow> Inl (TypeError ''wire must be a QuantizedWire'')
      | Some w \<Rightarrow>
        rbind (if the_int numel \<noteq> 0 then ceil_true_div (the_int numel) (qw_group_size w) else Inr 0)
          (\<lambda>groups.
            let value_bytes = qw_group_size w * qw_bit w div 8;
                scale_bytes = dtype_bytes (the_data_type dtype)
            in Inr (groups * (value_bytes + scale_bytes))))"

text \<open>The intended size: whole groups, each packed values followed by one scale.\<close>

definition group_nbytes :: "data_type \<Rightarrow> quantized_wire \<Rightarrow> int" where
  "group_nbytes dtype w = qw_group_size w * qw_bit w div 8 + dtype_bytes dtype"

definition group_count :: "int \<Rightarrow> quantized_wire \<Rightarrow> int" where
  "group_count n w = (n + qw_group_size w - 1) div qw_group_size w"

lemma ceil_true_div_exact:
  assumes "0 \<le> n" and "n < 2 ^ 53" and "0 < g"
  shows "ceil_true_div n g = Inr ((n + g - 1) div g)"
proof -
  have "n < 1 * 2 ^ 1024"
    using assms(2) by simp
  also have "(1 :: int) * 2 ^ 1024 \<le> g * 2 ^ 1024"
    using assms(3) by (intro mult_right_mono) auto
  finally show ?thesis
    using assms(1,2) by (simp add: ceil_true_div_def round53_exact)
qed

lemma payload_nbytes_exact:
  assumes "valid_wire w" and "0 \<le> n" and "n < 2 ^ 53"
  shows "payload_nbytes (PInt n) (PDataType d) (Some w) = Inr (group_count n w * group_nbytes d w)"
proof (cases "n = 0")
  case True
  then show ?thesis
    using assms(1) by (simp add: payload_nbytes_def group_count_def valid_wire_group_pos)
next
  case False
  have "0 < qw_group_size w"
    using assms(1) by (rule valid_wire_group_pos)
  with False show ?thesis
    using ceil_true_div_exact[OF assms(2,3)] assms(2)
    by (simp add: payload_nbytes_def group_count_def group_nbytes_def Let_def)
qed

lemma group_nbytes_bounds:
  assumes "valid_wire w"
  shows "10 \<le> group_nbytes d w" and "group_nbytes d w \<le> 68"
  using assms by (auto simp: valid_wire_def group_nbytes_def dtype_bytes_def split: data_type.splits)

text \<open>Beyond 53 bits the rounded quotient can lose the last group.\<close>

lemma payload_nbytes_short:
  defines "w \<equiv> \<lparr>qw_bit = 8, qw_group_size = 16, qw_quant_type = ''linear'', qw_compact = True\<rparr>"
  shows "payload_nbytes (PInt (2 ^ 57 + 1)) (PDataType FP16) (Some w)
     = Inr ((group_count (2 ^ 57 + 1) w - 1) * group_nbytes FP16 w)"
proof -
  have "(58 :: int) \<le> bitlen 144115188075855873" and "bitlen 144115188075855873 \<le> (58 :: int)"
    by (simp_all add: bitlen_le_iff_power bitlen_ge_iff_power)
  then have b: "bitlen 144115188075855873 = 58" by (rule antisym[rotated])
  show ?thesis
    by (simp add: payload_nbytes_def w_def ceil_true_div_def round53_def b group_count_def
        group_nbytes_def dtype_bytes_def Let_def)
qed

section \<open>Symbols\<close>

definition codec_require_module :: "'m extension_status \<Rightarrow> 'm res" where
  "codec_require_module active =
     (case cs_module active of
        Some m \<Rightarrow> if cs_available active then Inr m
          else Inl (ExtensionUnavailable
            (case cs_reason active of Some (c # r) \<Rightarrow> c # r | _ \<Rightarrow> ''CUDA extension is unavailable''))
      | None \<Rightarrow> Inl (ExtensionUnavailable
            (case cs_reason active of Some (c # r) \<Rightarrow> c # r | _ \<Rightarrow> ''CUDA extension is unavailable'')))"

definition require_symbol :: "'x native \<Rightarrow> string \<Rightarrow> native_attr res" where
  "require_symbol mdl name =
     (case nt_attr mdl name of
        None \<Rightarrow> Inl (ExtensionUnavailable ''CUDA extension missing required symbol'')
      | Some a \<Rightarrow> Inr a)"

text \<open>An attribute of a namespace such as \<open>QuantType\<close>; another attribute has no such member.\<close>

definition require_member :: "native_attr \<Rightarrow> string \<Rightarrow> string res" where
  "require_member owner name =
     (case owner of
        Namespace members \<Rightarrow>
          if name \<in> members then Inr name
          else Inl (ExtensionUnavailable ''CUDA extension missing required symbol'')
      | _ \<Rightarrow> Inl (ExtensionUnavailable ''CUDA extension missing required symbol''))"

definition quant_type_names :: "string \<rightharpoonup> string" where
  "quant_type_names =
     [''linear'' \<mapsto> ''Linear'', ''normal'' \<mapsto> ''Normal'', ''uniform'' \<mapsto> ''Uniform'',
      ''e3m0'' \<mapsto> ''E3M0'', ''e2m1'' \<mapsto> ''E2M1'']"

definition codec_quant_type :: "'x native \<Rightarrow> quantized_wire \<Rightarrow> string res" where
  "codec_quant_type mdl wire =
     (case quant_type_names (qw_quant_type wire) of
        None \<Rightarrow> Inl (ValueError ''unsupported quant_type'')
      | Some name \<Rightarrow> rbind (require_symbol mdl ''QuantType'') (\<lambda>owner. require_member owner name))"

text \<open>Calling an attribute that is not callable raises.\<close>

definition call_native :: "native_attr \<Rightarrow> 'r res \<Rightarrow> 'r res" where
  "call_native a outcome =
     (case a of Callable \<Rightarrow> outcome | _ \<Rightarrow> Inl (TypeError ''object is not callable''))"

section \<open>The facade\<close>

definition wire_args :: "quantized_wire \<Rightarrow> string \<Rightarrow> codec_args" where
  "wire_args wire name =
     \<lparr>ca_group_size = qw_group_size wire, ca_bit = qw_bit wire, ca_quant_type = name,
      ca_compact = qw_compact wire\<rparr>"

text \<open>The result is what the caller's output buffer holds afterwards.\<close>

definition quantize_into ::
    "'x native extension_status \<Rightarrow> 'x list \<Rightarrow> byte list \<Rightarrow> quantized_wire \<Rightarrow> byte list res" where
  "quantize_into status source out wire =
     rbind (codec_require_module status) (\<lambda>mdl.
     rbind (require_symbol mdl ''inplace_quantize'') (\<lambda>native.
     rbind (codec_quant_type mdl wire) (\<lambda>name.
       call_native native (nt_quantize mdl (wire_args wire name) source out))))"

definition dequantize_into ::
    "'x native extension_status \<Rightarrow> byte list \<Rightarrow> 'x list \<Rightarrow> quantized_wire \<Rightarrow> pyval
     \<Rightarrow> 'x list res" where
  "dequantize_into status payload out wire dtype =
     (if \<not> is_data_type dtype then Inl (TypeError ''dtype must be a DataType'')
      else
        rbind (codec_require_module status) (\<lambda>mdl.
        rbind (require_symbol mdl ''inplace_dequantize'') (\<lambda>native.
        rbind (require_symbol mdl ''ReduceOP'') (\<lambda>reduce_ops.
        rbind (require_member reduce_ops ''NONE'') (\<lambda>_.
        rbind (codec_quant_type mdl wire) (\<lambda>name.
          call_native native (nt_dequantize mdl (wire_args wire name) payload out)))))))"

text \<open>A status that offers every symbol the facade uses.\<close>

definition codec_ready :: "'x native extension_status \<Rightarrow> 'x native \<Rightarrow> bool" where
  "codec_ready status m \<longleftrightarrow>
     cs_available status \<and> cs_module status = Some m
     \<and> nt_attr m ''inplace_quantize'' = Some Callable
     \<and> nt_attr m ''inplace_dequantize'' = Some Callable
     \<and> (\<exists>names. nt_attr m ''QuantType'' = Some (Namespace names)
            \<and> {''Linear'', ''Normal'', ''Uniform'', ''E3M0'', ''E2M1''} \<subseteq> names)
     \<and> (\<exists>ops. nt_attr m ''ReduceOP'' = Some (Namespace ops) \<and> ''NONE'' \<in> ops)"

lemma codec_ready_quant_type:
  "codec_ready status m \<Longrightarrow> quant_type_names (qw_quant_type w) = Some name \<Longrightarrow>
     codec_quant_type m w = Inr name"
  by (auto simp: codec_ready_def codec_quant_type_def require_symbol_def require_member_def
      quant_type_names_def split: if_splits)

lemma quantize_into_ready:
  assumes "codec_ready status m" and "quant_type_names (qw_quant_type w) = Some name"
  shows "quantize_into status source out w = nt_quantize m (wire_args w name) source out"
  using codec_ready_quant_type[OF assms] assms(1)
  by (auto simp: quantize_into_def codec_ready_def codec_require_module_def require_symbol_def
      call_native_def)

lemma dequantize_into_ready:
  assumes "codec_ready status m" and "quant_type_names (qw_quant_type w) = Some name"
  shows "dequantize_into status payload out w (PDataType d)
     = nt_dequantize m (wire_args w name) payload out"
  using codec_ready_quant_type[OF assms] assms(1)
  by (auto simp: dequantize_into_def codec_ready_def codec_require_module_def require_symbol_def
      require_member_def call_native_def)

lemma quantize_into_unavailable:
  "\<not> cs_available status \<or> cs_module status = None \<Longrightarrow>
     \<exists>m. quantize_into status source out w = Inl (ExtensionUnavailable m)"
  by (auto simp: quantize_into_def codec_require_module_def split: option.splits)

end
