(* ===== verification/Shard_Plan.thy ===== *)
theory Shard_Plan
  imports Core_Types
begin

text \<open>
  \<open>backends/cuda/transports/reduce_scatter.py\<close> (the static shard layout) and
  \<open>core/values.py\<close> (the shard value handed to a sharded consumer).  The lemmas say that the
  plan covers the tensor, pads as little as grouping allows, and that the ranges of the
  ranks tile the original elements.
\<close>

section \<open>The plan\<close>

record shard_plan =
  sp_original_numel :: int
  sp_rank :: int
  sp_world_size :: int
  sp_shard_numel :: int
  sp_padded_numel :: int

definition plan_logical_range :: "shard_plan \<Rightarrow> int \<times> int" where
  "plan_logical_range p =
     (let start = sp_rank p * sp_shard_numel p
      in (start, min (start + sp_shard_numel p) (sp_original_numel p)))"

definition compile_shard_plan :: "int \<Rightarrow> int \<Rightarrow> int \<Rightarrow> int \<Rightarrow> shard_plan res" where
  [planner_defs]:
  "compile_shard_plan original_numel rank world_size group_size =
     (if original_numel < 0 then Inl (ValueError ''original_numel must be non-negative'')
      else if world_size \<le> 0 \<or> rank < 0 \<or> world_size \<le> rank
        then Inl (ValueError ''rank/world_size are invalid'')
      else
        let logical_shard = (original_numel + world_size - 1) div world_size;
            shard_numel = (if logical_shard \<noteq> 0
                           then (logical_shard + group_size - 1) div group_size * group_size
                           else 0)
        in Inr \<lparr>sp_original_numel = original_numel, sp_rank = rank, sp_world_size = world_size,
                sp_shard_numel = shard_numel, sp_padded_numel = shard_numel * world_size\<rparr>)"

text \<open>The facts a consumer of a plan needs.\<close>

definition valid_plan :: "int \<Rightarrow> shard_plan \<Rightarrow> bool" where
  "valid_plan group_size p \<longleftrightarrow>
     0 \<le> sp_original_numel p \<and> 0 < sp_world_size p \<and> 0 \<le> sp_rank p
     \<and> sp_rank p < sp_world_size p \<and> 0 \<le> sp_shard_numel p
     \<and> sp_padded_numel p = sp_shard_numel p * sp_world_size p
     \<and> group_size dvd sp_shard_numel p \<and> sp_original_numel p \<le> sp_padded_numel p"

lemma compile_shard_plan_fields:
  assumes "compile_shard_plan n r w g = Inr p"
  shows "sp_original_numel p = n" "sp_rank p = r" "sp_world_size p = w"
    "sp_padded_numel p = sp_shard_numel p * w"
  using assms by (auto simp: compile_shard_plan_def Let_def)

lemma compile_shard_plan_total:
  "0 \<le> n \<Longrightarrow> 0 \<le> r \<Longrightarrow> r < w \<Longrightarrow> \<exists>p. compile_shard_plan n r w g = Inr p"
  by (auto simp: compile_shard_plan_def Let_def)

text \<open>All ranks compute the same shard size.\<close>

lemma compile_shard_plan_agree:
  "compile_shard_plan n r w g = Inr p \<Longrightarrow> compile_shard_plan n r' w g = Inr p' \<Longrightarrow>
     sp_shard_numel p' = sp_shard_numel p \<and> sp_padded_numel p' = sp_padded_numel p"
  by (auto simp: compile_shard_plan_def Let_def)

lemma shard_numel_cases:
  assumes "compile_shard_plan n r w g = Inr p" and "0 < g"
  shows "(n = 0 \<and> sp_shard_numel p = 0)
     \<or> (0 < n \<and> sp_shard_numel p = ((n + w - 1) div w + g - 1) div g * g)"
proof -
  have n: "0 \<le> n" and w: "0 < w"
    using assms(1) by (auto simp: compile_shard_plan_def)
  then show ?thesis
    using assms ceil_div_eq_0[OF w n]
    by (auto simp: compile_shard_plan_def Let_def less_le)
qed

lemma compile_shard_plan_valid:
  assumes "compile_shard_plan n r w g = Inr p" and g: "0 < g"
  shows "valid_plan g p"
proof -
  have n: "0 \<le> n" and w: "0 < w" and r: "0 \<le> r" "r < w"
    using assms(1) by (auto simp: compile_shard_plan_def)
  note f = compile_shard_plan_fields[OF assms(1)]
  from shard_numel_cases[OF assms] show ?thesis
  proof
    assume "n = 0 \<and> sp_shard_numel p = 0"
    then show ?thesis using f w r by (simp add: valid_plan_def)
  next
    let ?l = "(n + w - 1) div w"
    assume s: "0 < n \<and> sp_shard_numel p = (?l + g - 1) div g * g"
    then have "0 \<le> ?l" using w by (simp add: ceil_div_nonneg)
    then have "0 \<le> sp_shard_numel p"
      using s g by (simp add: ceil_div_nonneg)
    moreover have "n \<le> ?l * w" "?l \<le> sp_shard_numel p"
      using ceil_div_bounds(1)[OF w, of n] ceil_div_bounds(1)[OF g, of ?l] s by auto
    then have "n \<le> sp_shard_numel p * w"
      using w by (meson mult_right_mono order_trans less_imp_le)
    ultimately show ?thesis
      using f w r n s by (simp add: valid_plan_def)
  qed
qed

text \<open>The padding is less than one group and one element per rank, and the shard is minimal.\<close>

lemma padding_bound:
  assumes "compile_shard_plan n r w g = Inr p" and g: "0 < g"
  shows "sp_padded_numel p < n + w * g"
proof -
  have n: "0 \<le> n" and w: "0 < w"
    using assms(1) by (auto simp: compile_shard_plan_def)
  note f = compile_shard_plan_fields[OF assms(1)]
  have wg: "1 \<le> w * g"
    using w g by (metis int_one_le_iff_zero_less mult_pos_pos)
  from shard_numel_cases[OF assms] show ?thesis
  proof
    assume "n = 0 \<and> sp_shard_numel p = 0"
    then show ?thesis using f w n wg by simp
  next
    let ?l = "(n + w - 1) div w"
    assume s: "0 < n \<and> sp_shard_numel p = (?l + g - 1) div g * g"
    have "sp_shard_numel p \<le> ?l + g - 1"
      using ceil_div_bounds(2)[OF g, of ?l] s by auto
    then have "sp_shard_numel p * w \<le> (?l + g - 1) * w"
      using w by (simp add: mult_right_mono)
    also have "\<dots> = ?l * w + w * g - w"
      by (simp add: algebra_simps)
    also have "\<dots> \<le> n + w - 1 + w * g - w"
      using ceil_div_bounds(2)[OF w, of n] by simp
    finally show ?thesis using f w by simp
  qed
qed

lemma shard_minimal:
  assumes "compile_shard_plan n r w g = Inr p" and "0 < g"
    and "0 \<le> k" and "n \<le> (k * g) * w"
  shows "sp_shard_numel p \<le> k * g"
proof -
  have w: "0 < w"
    using assms(1) by (auto simp: compile_shard_plan_def)
  from shard_numel_cases[OF assms(1,2)] show ?thesis
  proof
    assume "n = 0 \<and> sp_shard_numel p = 0"
    then show ?thesis using assms by simp
  next
    let ?l = "(n + w - 1) div w"
    assume s: "0 < n \<and> sp_shard_numel p = (?l + g - 1) div g * g"
    have "?l \<le> k * g" using ceil_div_least[OF w assms(4)] .
    then have "(?l + g - 1) div g \<le> k" by (rule ceil_div_least[OF assms(2)])
    then show ?thesis using s assms(2) by simp
  qed
qed

section \<open>The shard value\<close>

record 't reduced_shard_value =
  rsv_tensor :: 't
  rsv_shard_index :: int
  rsv_shard_numel :: int
  rsv_original_shape :: "int list"
  rsv_original_numel :: int
  rsv_world_size :: int
  rsv_reduction :: string
  rsv_dtype :: data_type
  rsv_layout_version :: int

definition make_ReducedShardValue ::
    "'t \<Rightarrow> int \<Rightarrow> int \<Rightarrow> int list \<Rightarrow> int \<Rightarrow> int \<Rightarrow> string \<Rightarrow> pyval \<Rightarrow> int \<Rightarrow> 't reduced_shard_value res"
  where [constructor_defs]:
  "make_ReducedShardValue tensor shard_index shard_numel original_shape original_numel
      world_size reduction dtype layout_version =
     (if world_size \<le> 0 then Inl (ValueError ''world_size must be > 0'')
      else if shard_index < 0 \<or> world_size \<le> shard_index
        then Inl (ValueError ''shard_index must be within world_size'')
      else if shard_numel < 0 \<or> original_numel < 0
        then Inl (ValueError ''shard and original sizes must be non-negative'')
      else if shard_numel * world_size < original_numel
        then Inl (ValueError ''shard layout cannot represent the original tensor'')
      else if reduction \<notin> {''mean'', ''sum''}
        then Inl (ValueError ''reduction must be mean or sum'')
      else if \<not> is_data_type dtype then Inl (TypeError ''dtype must be a DataType'')
      else Inr \<lparr>rsv_tensor = tensor, rsv_shard_index = shard_index,
                rsv_shard_numel = shard_numel, rsv_original_shape = original_shape,
                rsv_original_numel = original_numel, rsv_world_size = world_size,
                rsv_reduction = reduction, rsv_dtype = the_data_type dtype,
                rsv_layout_version = layout_version\<rparr>)"

definition shard_offset :: "'t reduced_shard_value \<Rightarrow> int" where
  "shard_offset v = rsv_shard_index v * rsv_shard_numel v"

definition shard_end :: "'t reduced_shard_value \<Rightarrow> int" where
  "shard_end v = min (shard_offset v + rsv_shard_numel v) (rsv_original_numel v)"

definition logical_range :: "'t reduced_shard_value \<Rightarrow> int \<times> int" where
  "logical_range v = (min (shard_offset v) (rsv_original_numel v), shard_end v)"

definition valid_numel :: "'t reduced_shard_value \<Rightarrow> int" where
  "valid_numel v = max 0 (shard_end v - shard_offset v)"

definition padding_numel :: "'t reduced_shard_value \<Rightarrow> int" where
  "padding_numel v = rsv_shard_numel v - valid_numel v"

lemmas shard_geometry = shard_offset_def shard_end_def logical_range_def valid_numel_def
  padding_numel_def

definition valid_shard_value :: "'t reduced_shard_value \<Rightarrow> bool" where
  "valid_shard_value v \<longleftrightarrow>
     0 < rsv_world_size v \<and> 0 \<le> rsv_shard_index v \<and> rsv_shard_index v < rsv_world_size v
     \<and> 0 \<le> rsv_shard_numel v \<and> 0 \<le> rsv_original_numel v
     \<and> rsv_original_numel v \<le> rsv_shard_numel v * rsv_world_size v
     \<and> rsv_reduction v \<in> {''mean'', ''sum''}"

lemma make_ReducedShardValue_Inr_iff:
  "make_ReducedShardValue t i s shape n w red d ver = Inr v \<longleftrightarrow>
     valid_shard_value v \<and> rsv_tensor v = t \<and> rsv_shard_index v = i \<and> rsv_shard_numel v = s
     \<and> rsv_original_shape v = shape \<and> rsv_original_numel v = n \<and> rsv_world_size v = w
     \<and> rsv_reduction v = red \<and> d = PDataType (rsv_dtype v) \<and> rsv_layout_version v = ver"
  by (cases d) (auto simp: make_ReducedShardValue_def valid_shard_value_def)

text \<open>A compiled plan always describes a constructible shard value.\<close>

lemma plan_value_constructible:
  assumes "compile_shard_plan n r w g = Inr p" and "0 < g"
  shows "\<exists>v. make_ReducedShardValue t r (sp_shard_numel p) shape n w ''mean'' (PDataType d) ver
           = Inr v"
  using compile_shard_plan_valid[OF assms] compile_shard_plan_fields[OF assms(1)]
  by (auto simp: make_ReducedShardValue_def valid_plan_def)

lemma valid_numel_bounds:
  "valid_shard_value v \<Longrightarrow> 0 \<le> valid_numel v \<and> valid_numel v \<le> rsv_shard_numel v"
  by (auto simp: shard_geometry valid_shard_value_def)

lemma logical_range_ordered:
  "valid_shard_value v \<Longrightarrow>
     0 \<le> fst (logical_range v) \<and> fst (logical_range v) \<le> snd (logical_range v)
     \<and> snd (logical_range v) \<le> rsv_original_numel v
     \<and> snd (logical_range v) - fst (logical_range v) = valid_numel v"
  by (auto simp: shard_geometry valid_shard_value_def)

text \<open>
  Element \<open>k\<close> of shard \<open>i\<close>, counted from the shard's start, is valid exactly when the global
  index \<open>i * shard_numel + k\<close> is an index of the original tensor.
\<close>

lemma valid_numel_index:
  "valid_shard_value v \<Longrightarrow> 0 \<le> k \<Longrightarrow> k < rsv_shard_numel v \<Longrightarrow>
     k < valid_numel v \<longleftrightarrow> shard_offset v + k < rsv_original_numel v"
  by (auto simp: shard_geometry valid_shard_value_def)

definition owns :: "int \<Rightarrow> int \<Rightarrow> int \<Rightarrow> bool" where
  "owns shard_numel i x \<longleftrightarrow> i * shard_numel \<le> x \<and> x < (i + 1) * shard_numel"

text \<open>Every original index has exactly one owner among the ranks.\<close>

lemma unique_owner:
  assumes "valid_plan g p" and "0 \<le> x" and "x < sp_original_numel p"
  shows "\<exists>!i. 0 \<le> i \<and> i < sp_world_size p \<and> owns (sp_shard_numel p) i x"
proof -
  let ?s = "sp_shard_numel p"
  have s: "0 < ?s"
    using assms by (auto simp: valid_plan_def) (metis antisym_conv1 mult_zero_left not_less order_trans)
  have own: "owns ?s i x \<longleftrightarrow> i = x div ?s" for i
  proof
    assume "owns ?s i x"
    then have "i * ?s \<le> x" "x < (i + 1) * ?s" by (auto simp: owns_def)
    then have "0 \<le> x - i * ?s" "x - i * ?s < ?s" by (auto simp: algebra_simps)
    then show "i = x div ?s"
      by (metis add_diff_cancel_left' diff_add_cancel div_mult_self3 div_pos_pos_trivial
          add.commute s less_irrefl add_0)
  next
    assume i: "i = x div ?s"
    have "x div ?s * ?s = x - x mod ?s"
      by (simp add: minus_mod_eq_div_mult)
    then show "owns ?s i x"
      using pos_mod_bound[OF s, of x] pos_mod_sign[OF s, of x]
      unfolding owns_def i distrib_right mult_1 by linarith
  qed
  have "x < sp_world_size p * ?s"
    using assms by (simp add: valid_plan_def mult.commute)
  moreover have "x div ?s * ?s \<le> x"
    using pos_mod_sign[OF s, of x] by (simp add: minus_mod_eq_div_mult[symmetric])
  ultimately have "x div ?s * ?s < sp_world_size p * ?s"
    by linarith
  then have "x div ?s < sp_world_size p"
    using s by (simp add: mult_less_cancel_right)
  moreover have "0 \<le> x div ?s"
    using assms s by (simp add: pos_imp_zdiv_nonneg_iff)
  ultimately show ?thesis
    by (auto simp: own)
qed

text \<open>The valid parts of the shards add up to the original tensor.\<close>

lemma valid_sum:
  assumes "0 \<le> s" and "0 \<le> (n :: int)"
  shows "(\<Sum>i<w. max 0 (min (int i * s + s) n - int i * s)) = min (int w * s) n"
proof (induction w)
  case 0
  then show ?case using assms by simp
next
  case (Suc w)
  have "0 \<le> int w * s" using assms by simp
  then have "min (int w * s) n + max 0 (min (int w * s + s) n - int w * s)
      = min (int w * s + s) n"
    using assms by (simp add: min_def max_def)
  then show ?case
    using Suc by (simp add: algebra_simps)
qed

section \<open>Properties\<close>

text \<open>C11: a compiled plan covers the tensor with whole groups, pads it by less than one group per
  rank, and gives no rank more groups than the fewest that suffice.\<close>

theorem shard_plan_tight:
  assumes "compile_shard_plan n r w g = Inr p" and "0 < g"
  shows "valid_plan g p \<and> sp_padded_numel p < n + w * g
     \<and> (\<forall>k. 0 \<le> k \<longrightarrow> n \<le> k * g * w \<longrightarrow> sp_shard_numel p \<le> k * g)"
  using compile_shard_plan_valid padding_bound shard_minimal assms by blast

theorem shard_plan_tight_witness:
  "\<exists>p. compile_shard_plan 100 1 4 16 = Inr p \<and> sp_shard_numel p \<le> 32 \<and> sp_padded_numel p < 164"
proof -
  have c: "\<exists>p. compile_shard_plan 100 1 4 16 = Inr p"
    by (rule compile_shard_plan_total) simp_all
  then obtain p where p: "compile_shard_plan 100 1 4 16 = Inr p" by blast
  have "valid_plan 16 p \<and> sp_padded_numel p < 100 + 4 * 16
     \<and> (\<forall>k. 0 \<le> k \<longrightarrow> 100 \<le> k * 16 * 4 \<longrightarrow> sp_shard_numel p \<le> k * 16)"
    by (rule shard_plan_tight[OF p]) simp
  then show ?thesis using p by (auto dest!: spec[of _ 2])
qed

text \<open>C10: every element of the tensor lies in the valid part of exactly one rank's shard: there is
  one rank whose shard value, built from its plan, covers the index, at one local offset.\<close>

theorem shard_owner_unique:
  assumes "compile_shard_plan n r w g = Inr p" and "0 < g" and "0 \<le> x" and "x < n"
  shows "\<exists>!i. 0 \<le> i \<and> i < w
     \<and> (\<forall>v. make_ReducedShardValue t i (sp_shard_numel p) shape n w ''mean'' (PDataType d) ver = Inr v \<longrightarrow>
          shard_offset v \<le> x \<and> x - shard_offset v < valid_numel v)"
proof -
  let ?s = "sp_shard_numel p"
  note f = compile_shard_plan_fields[OF assms(1)]
  have vp: "valid_plan g p" by (rule compile_shard_plan_valid[OF assms(1,2)])
  have ex: "\<exists>v. make_ReducedShardValue t i ?s shape n w ''mean'' (PDataType d) ver = Inr v"
    if "0 \<le> i" "i < w" for i
    using that vp f by (auto simp: make_ReducedShardValue_def valid_plan_def)
  have covers: "(\<forall>v. make_ReducedShardValue t i ?s shape n w ''mean'' (PDataType d) ver = Inr v \<longrightarrow>
      shard_offset v \<le> x \<and> x - shard_offset v < valid_numel v) \<longleftrightarrow> owns ?s i x"
    if i: "0 \<le> i" "i < w" for i
  proof -
    have eq: "shard_offset v \<le> x \<and> x - shard_offset v < valid_numel v \<longleftrightarrow> owns ?s i x"
      if "make_ReducedShardValue t i ?s shape n w ''mean'' (PDataType d) ver = Inr v" for v
    proof -
      have "rsv_shard_index v = i" "rsv_shard_numel v = ?s" "rsv_original_numel v = n"
        using that by (auto simp: make_ReducedShardValue_Inr_iff)
      then show ?thesis
        using assms(4) by (auto simp: shard_geometry owns_def distrib_right)
    qed
    then show ?thesis using ex[OF i] by blast
  qed
  have "\<exists>!i. 0 \<le> i \<and> i < w \<and> owns ?s i x"
    using unique_owner[OF vp assms(3)] assms(4) f by simp
  then show ?thesis
    using covers by (simp cong: conj_cong)
qed

theorem shard_owner_unique_witness:
  "\<exists>p i. compile_shard_plan 100 0 4 16 = Inr p \<and> 0 \<le> i \<and> i < 4
     \<and> (\<exists>v. make_ReducedShardValue () i (sp_shard_numel p) [100] 100 4 ''mean'' (PDataType FP16) 0 = Inr v
          \<and> shard_offset v \<le> 99 \<and> 99 - shard_offset v < valid_numel v)"
proof -
  obtain p where p: "compile_shard_plan 100 0 4 16 = Inr p"
    using compile_shard_plan_total[of 100 0 4 16] by auto
  obtain i where i: "0 \<le> i" "i < 4"
    and v: "\<forall>v. make_ReducedShardValue () i (sp_shard_numel p) [100] 100 4 ''mean'' (PDataType FP16) 0 = Inr v
      \<longrightarrow> shard_offset v \<le> 99 \<and> 99 - shard_offset v < valid_numel v"
    using shard_owner_unique[OF p, of 99 "()" "[100]" FP16 0] by auto
  have "valid_plan 16 p" by (rule compile_shard_plan_valid[OF p]) simp
  then have "\<exists>v. make_ReducedShardValue () i (sp_shard_numel p) [100] 100 4 ''mean'' (PDataType FP16) 0 = Inr v"
    using i compile_shard_plan_fields[OF p] by (auto simp: make_ReducedShardValue_def valid_plan_def)
  with p i v show ?thesis by blast
qed

text \<open>The valid parts of all ranks' shards add up to the original element count.\<close>

theorem shard_valid_total:
  assumes "compile_shard_plan n r w g = Inr p" and "0 < g"
    and "\<And>i. i < nat w \<Longrightarrow>
      make_ReducedShardValue t (int i) (sp_shard_numel p) shape n w ''mean'' (PDataType d) ver = Inr (v i)"
  shows "(\<Sum>i<nat w. valid_numel (v i)) = n"
proof -
  note f = compile_shard_plan_fields[OF assms(1)]
  have vp: "valid_plan g p" by (rule compile_shard_plan_valid[OF assms(1,2)])
  have "valid_numel (v i) = max 0 (min (int i * sp_shard_numel p + sp_shard_numel p) n - int i * sp_shard_numel p)"
    if "i < nat w" for i
    using assms(3)[OF that] by (auto simp: make_ReducedShardValue_Inr_iff shard_geometry)
  then have "(\<Sum>i<nat w. valid_numel (v i)) = min (int (nat w) * sp_shard_numel p) n"
    using valid_sum[of "sp_shard_numel p" n "nat w"] vp f by (simp add: valid_plan_def)
  also have "\<dots> = n"
    using vp f by (simp add: valid_plan_def mult.commute)
  finally show ?thesis .
qed

theorem shard_valid_total_witness:
  "\<exists>p v. compile_shard_plan 100 0 4 16 = Inr p
     \<and> v 3 = \<lparr>rsv_tensor = (), rsv_shard_index = 3, rsv_shard_numel = sp_shard_numel p,
         rsv_original_shape = [100], rsv_original_numel = 100, rsv_world_size = 4,
         rsv_reduction = ''mean'', rsv_dtype = FP16, rsv_layout_version = 0\<rparr>
     \<and> (\<Sum>i<nat 4. valid_numel (v i)) = 100"
proof -
  obtain p where p: "compile_shard_plan 100 0 4 16 = Inr p"
    using compile_shard_plan_total[of 100 0 4 16] by auto
  have vp: "valid_plan 16 p" by (rule compile_shard_plan_valid[OF p]) simp
  define v where "v i = \<lparr>rsv_tensor = (), rsv_shard_index = int i, rsv_shard_numel = sp_shard_numel p,
      rsv_original_shape = [100], rsv_original_numel = 100, rsv_world_size = 4,
      rsv_reduction = ''mean'', rsv_dtype = FP16, rsv_layout_version = 0\<rparr>" for i
  have "(\<Sum>i<nat 4. valid_numel (v i)) = 100"
    by (rule shard_valid_total[OF p])
      (use vp compile_shard_plan_fields[OF p] in \<open>auto simp: make_ReducedShardValue_def v_def valid_plan_def\<close>)
  then show ?thesis using p by (intro exI[of _ p] exI[of _ v]) (simp add: v_def)
qed

end
