(* ===== verification/Executors.thy ===== *)
theory Executors
  imports Codec Shard_Plan Work
begin

text \<open>
  \<open>backends/cuda/executors.py\<close>: the pre-bound executables.  Each is the record its
  constructor builds, and each \<open>run\<close> is split where it hands a buffer to
  \<open>torch.distributed\<close>: one function computes the buffer a rank sends, another what the rank
  makes of the buffer it received.  Tensors are flat lists; \<open>junk\<close> is what uninitialised
  memory holds and \<open>zero\<close> the element \<open>new_zeros\<close> fills with.
\<close>

section \<open>Helpers\<close>

definition exec_require_module :: "'m extension_status \<Rightarrow> 'm res" where
  "exec_require_module status =
     (case cs_module status of
        Some m \<Rightarrow> if cs_available status then Inr m
          else Inl (RuntimeError
            (case cs_reason status of Some (c # r) \<Rightarrow> c # r | _ \<Rightarrow> ''CUDA extension is unavailable''))
      | None \<Rightarrow> Inl (RuntimeError
            (case cs_reason status of Some (c # r) \<Rightarrow> c # r | _ \<Rightarrow> ''CUDA extension is unavailable'')))"

definition require_callable :: "'x native \<Rightarrow> string \<Rightarrow> unit res" where
  "require_callable m name =
     (if nt_attr m name = Some Callable then Inr ()
      else Inl (RuntimeError ''CUDA extension missing required symbol''))"

definition exec_quant_type :: "'x native \<Rightarrow> string \<Rightarrow> string res" where
  "exec_quant_type m name =
     (case quant_type_names name of
        None \<Rightarrow> Inl (KeyError ''quant_type'')
      | Some enum_name \<Rightarrow>
          (case nt_attr m ''QuantType'' of
             Some (Namespace members) \<Rightarrow>
               if enum_name \<in> members then Inr enum_name else Inl (AttributeError enum_name)
           | _ \<Rightarrow> Inl (AttributeError ''QuantType'')))"

definition exec_dtype :: "'x native \<Rightarrow> data_type \<Rightarrow> string res" where
  "exec_dtype m dtype =
     (let name = (case dtype of FP16 \<Rightarrow> ''FP16'' | BF16 \<Rightarrow> ''BF16'' | FP32 \<Rightarrow> ''FP32'') in
      case nt_attr m ''DType'' of
        Some (Namespace members) \<Rightarrow>
          if name \<in> members then Inr name else Inl (AttributeError name)
      | _ \<Rightarrow> Inl (AttributeError ''DType''))"

definition align :: "int \<Rightarrow> int \<Rightarrow> int" where
  "align v alignment =
     (if v \<noteq> 0 then (v + alignment - 1) div alignment * alignment else 0)"

lemma align_eq: "0 < a \<Longrightarrow> align v a = (v + a - 1) div a * a"
  by (simp add: align_def)

lemma align_bounds: "0 < a \<Longrightarrow> v \<le> align v a \<and> align v a < v + a"
  using ceil_div_bounds[of a v] by (simp add: align_eq)

lemma align_dvd: "0 < a \<Longrightarrow> a dvd align v a"
  by (simp add: align_eq)

lemma align_nonneg: "0 < a \<Longrightarrow> 0 \<le> v \<Longrightarrow> 0 \<le> align v a"
  using align_bounds[of a v] by linarith

lemma align_idem: "0 < a \<Longrightarrow> align (align v a) a = align v a"
  by (simp add: align_eq ceil_div_exact)

text \<open>A wire without quantisation has no \<open>group_size\<close>, \<open>bit\<close>, \<open>quant_type\<close> or \<open>compact\<close>.\<close>

definition wire_attributes :: "wire \<Rightarrow> string \<Rightarrow> quantized_wire res" where
  "wire_attributes wire name =
     (case wire of QuantizedWire w \<Rightarrow> Inr w | _ \<Rightarrow> Inl (AttributeError name))"

definition shape_numel :: "int list \<Rightarrow> int" where
  "shape_numel shape = foldl (*) 1 shape"

text \<open>\<open>new_zeros\<close> followed by \<open>copy_\<close> into the leading slice, and a write into a leading view.\<close>

definition pad :: "'x \<Rightarrow> int \<Rightarrow> 'x list \<Rightarrow> 'x list" where
  "pad zero n flat = flat @ replicate (nat n - length flat) zero"

definition write_prefix :: "'b list \<Rightarrow> 'b list \<Rightarrow> 'b list" where
  "write_prefix new buffer = new @ drop (length new) buffer"

definition uninitialised :: "(nat \<Rightarrow> 'b) \<Rightarrow> int \<Rightarrow> 'b list" where
  "uninitialised junk n = map junk [0..<nat n]"

lemma length_pad [simp]: "int (length flat) \<le> n \<Longrightarrow> length (pad zero n flat) = nat n"
  by (simp add: pad_def)

lemma take_pad [simp]: "k \<le> length flat \<Longrightarrow> take k (pad zero n flat) = take k flat"
  by (simp add: pad_def)

lemma nth_pad: "i < length flat \<Longrightarrow> pad zero n flat ! i = flat ! i"
  by (simp add: pad_def nth_append)

lemma length_write_prefix [simp]:
  "length new \<le> length buffer \<Longrightarrow> length (write_prefix new buffer) = length buffer"
  by (simp add: write_prefix_def)

lemma take_write_prefix [simp]: "take (length new) (write_prefix new buffer) = new"
  by (simp add: write_prefix_def)

lemma length_uninitialised [simp]: "length (uninitialised junk n) = nat n"
  by (simp add: uninitialised_def)

section \<open>What the kernels promise\<close>

text \<open>
  \<open>quantizes\<close>: on whole groups and a buffer of the payload's size the kernel fills the buffer
  with a function of the source.  \<open>reduces\<close> and its companions say the same of the fused
  kernels, which also report that they were used.
\<close>

definition quantizes ::
    "'x native \<Rightarrow> quantized_wire \<Rightarrow> int \<Rightarrow> string \<Rightarrow> ('x list \<Rightarrow> byte list) \<Rightarrow> bool" where
  "quantizes m w gb name q \<longleftrightarrow>
     (\<forall>k src out. length src = k * nat (qw_group_size w) \<longrightarrow> length out = k * nat gb \<longrightarrow>
        nt_quantize m (wire_args w name) src out = Inr (q src) \<and> length (q src) = length out)"

definition reduces ::
    "'x native \<Rightarrow> quantized_wire \<Rightarrow> int \<Rightarrow> string \<Rightarrow> (byte list list \<Rightarrow> 'x list) \<Rightarrow> bool" where
  "reduces m w gb name red \<longleftrightarrow>
     (\<forall>k ps out. ps \<noteq> [] \<longrightarrow> (\<forall>p \<in> set ps. length p = k * nat gb) \<longrightarrow>
        length out = k * nat (qw_group_size w) \<longrightarrow>
        nt_reduce_mean m (wire_args w name) (int (length ps)) ps out = Inr (True, red ps)
        \<and> length (red ps) = length out)"

lemma quantizesD:
  "quantizes m w gb name q \<Longrightarrow> length src = k * nat (qw_group_size w) \<Longrightarrow> length out = k * nat gb \<Longrightarrow>
     nt_quantize m (wire_args w name) src out = Inr (q src)"
  "quantizes m w gb name q \<Longrightarrow> length src = k * nat (qw_group_size w) \<Longrightarrow> length out = k * nat gb \<Longrightarrow>
     length (q src) = k * nat gb"
  unfolding quantizes_def by metis+

lemma quantizes_length:
  "quantizes m w gb name q \<Longrightarrow> length src = k * nat (qw_group_size w) \<Longrightarrow> length (q src) = k * nat gb"
  using quantizesD(2)[of m w gb name q src k "replicate (k * nat gb) undefined"] by simp

lemma reducesD:
  assumes "reduces m w gb name red" and "ps \<noteq> []" and "\<And>p. p \<in> set ps \<Longrightarrow> length p = k * nat gb"
    and "length out = k * nat (qw_group_size w)"
  shows "nt_reduce_mean m (wire_args w name) (int (length ps)) ps out = Inr (True, red ps)"
    and "length (red ps) = k * nat (qw_group_size w)"
  using assms unfolding reduces_def by metis+

section \<open>One job on every rank\<close>

text \<open>
  The ranks of a job compiled the same program for the same shape; \<open>low r\<close> is rank \<open>r\<close>'s
  lowered program.  Element counts stay below 53 bits, where the payload size is exact.
\<close>

definition same_job ::
    "(nat \<Rightarrow> lowered_program) \<Rightarrow> nat \<Rightarrow> quantized_wire \<Rightarrow> data_type \<Rightarrow> int list \<Rightarrow> bool" where
  "same_job low W w d shape \<longleftrightarrow>
     valid_wire w \<and> 0 \<le> shape_numel shape \<and> shape_numel shape < 2 ^ 53
     \<and> shape_numel shape + int W * qw_group_size w \<le> 2 ^ 53
     \<and> (\<forall>r < W. prog_wire (low_program (low r)) = QuantizedWire w
          \<and> ctx_rank (low_context (low r)) = int r
          \<and> ctx_world_size (low_context (low r)) = int W
          \<and> ctx_shape (low_context (low r)) = shape
          \<and> ctx_dtype (low_context (low r)) = d)"

definition kernels_ready ::
    "'x native extension_status \<Rightarrow> 'x native \<Rightarrow> quantized_wire \<Rightarrow> data_type
     \<Rightarrow> ('x list \<Rightarrow> byte list) \<Rightarrow> (byte list list \<Rightarrow> 'x list) \<Rightarrow> bool" where
  "kernels_ready status m w d q red \<longleftrightarrow>
     codec_ready status m
     \<and> nt_attr m ''inplace_dequantize_reduce_mean'' = Some Callable
     \<and> (\<exists>name. quant_type_names (qw_quant_type w) = Some name
          \<and> quantizes m w (group_nbytes d w) name q \<and> reduces m w (group_nbytes d w) name red)"

lemma exec_quant_type_ready:
  "codec_ready status m \<Longrightarrow> quant_type_names n = Some name \<Longrightarrow> exec_quant_type m n = Inr name"
  by (auto simp: codec_ready_def exec_quant_type_def quant_type_names_def split: if_splits)

lemma exec_require_module_ready: "codec_ready status m \<Longrightarrow> exec_require_module status = Inr m"
  by (auto simp: codec_ready_def exec_require_module_def)

lemma group_count_align:
  "valid_wire w \<Longrightarrow> align n (qw_group_size w) = group_count n w * qw_group_size w"
  by (simp add: align_eq valid_wire_group_pos group_count_def)

lemma group_count_nonneg: "valid_wire w \<Longrightarrow> 0 \<le> n \<Longrightarrow> 0 \<le> group_count n w"
  by (simp add: group_count_def ceil_div_nonneg valid_wire_group_pos)

lemma group_count_le: "valid_wire w \<Longrightarrow> 0 \<le> n \<Longrightarrow> group_count n w \<le> n"
proof -
  assume w: "valid_wire w" and n: "0 \<le> n"
  have g: "0 < qw_group_size w" by (rule valid_wire_group_pos[OF w])
  have "n + qw_group_size w - 1 \<le> n * qw_group_size w" if "0 < n"
    using mult_right_mono[of 1 n "qw_group_size w - 1"] that g by (simp add: algebra_simps)
  from zdiv_mono1[OF this g] show ?thesis
    using n g by (cases "n = 0") (simp_all add: group_count_def)
qed

lemma group_count_exact: "valid_wire w \<Longrightarrow> group_count (k * qw_group_size w) w = k"
  by (simp add: group_count_def ceil_div_exact valid_wire_group_pos)

section \<open>Native all-reduce\<close>

record native_executable =
  ne_lowered :: lowered_program

definition make_CudaNativeAllReduceExecutable :: "lowered_program \<Rightarrow> native_executable res" where
  "make_CudaNativeAllReduceExecutable lowered = Inr \<lparr>ne_lowered = lowered\<rparr>"

text \<open>\<open>_finish_native_mean\<close> on the buffer the all-reduce left: \<open>value.div_(world_size)\<close>.\<close>

definition finish_native_mean :: "'x::field list \<Rightarrow> int \<Rightarrow> 'x list" where
  "finish_native_mean value world_size = map (\<lambda>x. x / of_int world_size) value"

definition native_finish :: "native_executable \<Rightarrow> 'x::field list \<Rightarrow> 'x list" where
  "native_finish e value =
     finish_native_mean value (ctx_world_size (low_context (ne_lowered e)))"

text \<open>Element \<open>i\<close> summed over the ranks' tensors, and what a sum all-reduce leaves.\<close>

definition column_sum :: "'x::comm_monoid_add list list \<Rightarrow> nat \<Rightarrow> 'x" where
  "column_sum inputs i = (\<Sum>xs\<leftarrow>inputs. xs ! i)"

definition mean_at :: "'x::field list list \<Rightarrow> nat \<Rightarrow> 'x" where
  "mean_at inputs i = column_sum inputs i / of_nat (length inputs)"

definition all_reduced :: "'x::comm_monoid_add list list \<Rightarrow> 'x list \<Rightarrow> bool" where
  "all_reduced inputs buffer \<longleftrightarrow>
     (\<forall>xs \<in> set inputs. length xs = length buffer)
     \<and> (\<forall>i < length buffer. buffer ! i = column_sum inputs i)"

lemma native_finish_mean:
  assumes "ctx_world_size (low_context (ne_lowered e)) = int (length inputs)"
    and "all_reduced inputs buffer" and "i < length buffer"
  shows "native_finish e buffer ! i = mean_at inputs i"
  using assms by (simp add: native_finish_def finish_native_mean_def all_reduced_def mean_at_def)

lemma length_native_finish [simp]: "length (native_finish e buffer) = length buffer"
  by (simp add: native_finish_def finish_native_mean_def)

section \<open>Compressed all-gather\<close>

record 'x all_gather_executable =
  ag_lowered :: lowered_program
  ag_status :: "'x native extension_status"
  ag_module :: "'x native"
  ag_wire :: quantized_wire
  ag_original_numel :: int
  ag_padded_numel :: int
  ag_payload_numel :: int
  ag_payload_stride :: int

definition make_CudaCompressedAllGatherExecutable ::
    "lowered_program \<Rightarrow> 'x native extension_status \<Rightarrow> 'x all_gather_executable res" where
  "make_CudaCompressedAllGatherExecutable lowered status =
     rbind (exec_require_module status) (\<lambda>m.
     rbind (require_callable m ''inplace_dequantize_reduce_mean'') (\<lambda>_.
     let original = shape_numel (ctx_shape (low_context lowered)) in
     rbind (wire_attributes (prog_wire (low_program lowered)) ''group_size'') (\<lambda>w.
     let padded = align original (qw_group_size w) in
     rbind (payload_nbytes (PInt original) (PDataType (ctx_dtype (low_context lowered))) (Some w))
       (\<lambda>payload.
         Inr \<lparr>ag_lowered = lowered, ag_status = status, ag_module = m, ag_wire = w,
              ag_original_numel = original, ag_padded_numel = padded,
              ag_payload_numel = payload, ag_payload_stride = align payload 16\<rparr>))))"

text \<open>The send buffer of one rank.\<close>

definition all_gather_send ::
    "'x \<Rightarrow> 'x all_gather_executable \<Rightarrow> 'x list \<Rightarrow> byte list res" where
  "all_gather_send zero e flat =
     (if int (length flat) \<noteq> ag_original_numel e
        then Inl (ValueError ''input numel differs from the compiled shape'')
      else
        (let prepared = pad zero (ag_padded_numel e) flat;
             send = replicate (nat (ag_payload_stride e)) 0 in
         rbind (quantize_into (ag_status e) prepared (take (nat (ag_payload_numel e)) send) (ag_wire e))
           (\<lambda>payload. Inr (write_prefix payload send))))"

text \<open>\<open>_finish\<close>: what the rank returns from the gathered buffer.\<close>

definition all_gather_finish ::
    "(nat \<Rightarrow> 'x) \<Rightarrow> 'x all_gather_executable \<Rightarrow> byte list \<Rightarrow> 'x list res" where
  "all_gather_finish junk e gathered =
     (let world = ctx_world_size (low_context (ag_lowered e));
          payloads = map (\<lambda>rank. narrow gathered (rank * nat (ag_payload_stride e))
                                (nat (ag_payload_numel e))) [0..<nat world] in
      rbind (exec_quant_type (ag_module e) (qw_quant_type (ag_wire e))) (\<lambda>name.
      rbind (nt_reduce_mean (ag_module e) (wire_args (ag_wire e) name) world payloads
               (uninitialised junk (ag_padded_numel e)))
        (\<lambda>(used, out).
          if \<not> used
            then Inl (RuntimeError ''fused dequant-reduce-mean declined gathered payloads'')
          else Inr (take (nat (ag_original_numel e)) out))))"

lemma all_gather_fields:
  assumes "make_CudaCompressedAllGatherExecutable low status = Inr e"
    and "prog_wire (low_program low) = QuantizedWire w" and "valid_wire w"
    and "n = shape_numel (ctx_shape (low_context low))" and "0 \<le> n" and "n < 2 ^ 53"
    and "d = ctx_dtype (low_context low)"
  shows "ag_wire e = w" "ag_lowered e = low" "ag_status e = status" "ag_original_numel e = n"
    "ag_padded_numel e = group_count n w * qw_group_size w"
    "ag_payload_numel e = group_count n w * group_nbytes d w"
    "ag_payload_stride e = align (ag_payload_numel e) 16"
    "exec_require_module status = Inr (ag_module e)"
  using assms payload_nbytes_exact[OF assms(3,5,6), of d]
  by (auto simp: make_CudaCompressedAllGatherExecutable_def wire_attributes_def Let_def
      group_count_align)

lemma all_gather_total:
  assumes "same_job low W w d shape" and "kernels_ready status m w d q red" and "r < W"
  shows "\<exists>e. make_CudaCompressedAllGatherExecutable (low r) status = Inr e"
  using assms payload_nbytes_exact[of w "shape_numel shape" d]
  by (auto simp: make_CudaCompressedAllGatherExecutable_def same_job_def kernels_ready_def
      exec_require_module_ready require_callable_def wire_attributes_def Let_def)

text \<open>The send buffer: the payload of the padded tensor, then zeros up to the stride.\<close>

lemma all_gather_send_eq:
  fixes low :: "nat \<Rightarrow> lowered_program"
  assumes job: "same_job low W w d shape" and ready: "kernels_ready status m w d q red"
    and e: "make_CudaCompressedAllGatherExecutable (low r) status = Inr e" and "r < W"
    and len: "int (length flat) = shape_numel shape"
  shows "\<exists>send. all_gather_send zero e flat = Inr send
     \<and> length send = nat (ag_payload_stride e)
     \<and> take (nat (ag_payload_numel e)) send = q (pad zero (ag_padded_numel e) flat)"
proof -
  let ?n = "shape_numel shape" and ?k = "nat (group_count (shape_numel shape) w)"
  have w: "valid_wire w" and n: "0 \<le> ?n" "?n < 2 ^ 53"
    using job by (auto simp: same_job_def)
  have "prog_wire (low_program (low r)) = QuantizedWire w"
    "?n = shape_numel (ctx_shape (low_context (low r)))" "d = ctx_dtype (low_context (low r))"
    using job \<open>r < W\<close> by (auto simp: same_job_def)
  note f = all_gather_fields[OF e this(1) w this(2) n this(3)]
  obtain name where c: "codec_ready status m" "quant_type_names (qw_quant_type w) = Some name"
    and qz: "quantizes m w (group_nbytes d w) name q"
    using ready by (auto simp: kernels_ready_def)
  have k: "0 \<le> group_count ?n w"
    using w n by (simp add: group_count_nonneg)
  have payload: "nat (ag_payload_numel e) = ?k * nat (group_nbytes d w)"
    and padded: "nat (ag_padded_numel e) = ?k * nat (qw_group_size w)"
    using k f by (simp_all add: nat_mult_distrib)
  have fits: "ag_payload_numel e \<le> ag_payload_stride e"
    using align_bounds[of 16 "ag_payload_numel e"] f(7) by simp
  have "?n \<le> ag_padded_numel e"
    using align_bounds[of "qw_group_size w" ?n] w by (simp add: f group_count_align valid_wire_group_pos)
  then have src: "length (pad zero (ag_padded_numel e) flat) = ?k * nat (qw_group_size w)"
    using len padded by simp
  let ?view = "take (nat (ag_payload_numel e)) (replicate (nat (ag_payload_stride e)) (0 :: byte))"
  have view: "length ?view = ?k * nat (group_nbytes d w)"
    using fits payload by simp
  have "quantize_into status (pad zero (ag_padded_numel e) flat) ?view w
      = Inr (q (pad zero (ag_padded_numel e) flat))"
    using quantize_into_ready[OF c] quantizesD(1)[OF qz src view] by simp
  moreover have "length (q (pad zero (ag_padded_numel e) flat)) = nat (ag_payload_numel e)"
    using quantizes_length[OF qz src] payload by simp
  ultimately show ?thesis
    using f len fits take_write_prefix[of "q (pad zero (ag_padded_numel e) flat)"]
    by (simp add: all_gather_send_def Let_def)
qed

text \<open>
  The whole exchange.  \<open>torch.distributed.all_gather_into_tensor\<close> leaves every rank's send
  buffer, in rank order, on every rank.
\<close>

definition gathers :: "(nat \<Rightarrow> byte list res) \<Rightarrow> nat \<Rightarrow> byte list \<Rightarrow> bool" where
  "gathers sends W gathered \<longleftrightarrow>
     (\<exists>bs. length bs = W \<and> (\<forall>r < W. sends r = Inr (bs ! r)) \<and> gathered = concat bs)"

lemma gathers_exists: "(\<And>r. r < W \<Longrightarrow> \<exists>b. sends r = Inr b) \<Longrightarrow> \<exists>g. gathers sends W g"
proof -
  assume "\<And>r. r < W \<Longrightarrow> \<exists>b. sends r = Inr b"
  then obtain f where f: "\<And>r. r < W \<Longrightarrow> sends r = Inr (f r)" by metis
  show ?thesis
    by (rule exI[of _ "concat (map f [0..<W])"], unfold gathers_def,
        rule exI[of _ "map f [0..<W]"]) (simp add: f)
qed

text \<open>Unpacking the rows of a gathered buffer whose rows have one length.\<close>

lemma gathered_payloads:
  assumes "gathers sends W gathered"
    and "\<And>r. r < W \<Longrightarrow> \<exists>b. sends r = Inr b \<and> length b = stride \<and> take k b = payload r"
    and "k \<le> stride"
  shows "map (\<lambda>r. narrow gathered (r * stride) k) [0..<W] = map payload [0..<W]"
proof (rule map_cong[OF refl])
  fix r assume "r \<in> set [0..<W]"
  then have r: "r < W" by simp
  obtain bs where bs: "length bs = W" "\<And>r. r < W \<Longrightarrow> sends r = Inr (bs ! r)" "gathered = concat bs"
    using assms(1) by (auto simp: gathers_def)
  have "length b = stride" if "b \<in> set bs" for b
    using that bs assms(2) by (metis in_set_conv_nth sum.inject(2))
  then have "narrow gathered (r * stride) k = take k (bs ! r)"
    unfolding bs(3) by (rule narrow_prefix) (use r bs assms(3) in auto)
  then show "narrow gathered (r * stride) k = payload r"
    using assms(2)[OF r] bs(2)[OF r] by auto
qed

lemma all_gather_exchange:
  fixes low :: "nat \<Rightarrow> lowered_program"
  assumes job: "same_job low W w d shape" and ready: "kernels_ready status m w d q red"
    and e: "\<And>r. r < W \<Longrightarrow> make_CudaCompressedAllGatherExecutable (low r) status = Inr (e r)"
    and inputs: "length inputs = W" "\<And>xs. xs \<in> set inputs \<Longrightarrow> int (length xs) = shape_numel shape"
    and g: "gathers (\<lambda>r. all_gather_send zero (e r) (inputs ! r)) W gathered" and r: "r < W"
  shows "all_gather_finish junk (e r) gathered
     = Inr (take (nat (shape_numel shape))
         (red (map (\<lambda>xs. q (pad zero (group_count (shape_numel shape) w * qw_group_size w) xs)) inputs)))"
proof -
  let ?n = "shape_numel shape"
  let ?k = "nat (group_count ?n w)" and ?padded = "group_count ?n w * qw_group_size w"
  let ?nb = "group_count ?n w * group_nbytes d w"
  have w: "valid_wire w" and n: "0 \<le> ?n" "?n < 2 ^ 53"
    using job by (auto simp: same_job_def)
  have fields: "prog_wire (low_program (low i)) = QuantizedWire w"
    "?n = shape_numel (ctx_shape (low_context (low i)))" "d = ctx_dtype (low_context (low i))"
    if "i < W" for i
    using job that by (auto simp: same_job_def)
  have f: "ag_wire (e i) = w" "ag_lowered (e i) = low i" "ag_original_numel (e i) = ?n"
    "ag_padded_numel (e i) = ?padded" "ag_payload_numel (e i) = ?nb"
    "ag_payload_stride (e i) = align ?nb 16" "exec_require_module status = Inr (ag_module (e i))"
    if "i < W" for i
    using all_gather_fields[OF e[OF that] fields(1)[OF that] w fields(2)[OF that] n fields(3)[OF that]]
    by simp_all
  obtain name where c: "codec_ready status m" "quant_type_names (qw_quant_type w) = Some name"
    and qz: "quantizes m w (group_nbytes d w) name q" and red: "reduces m w (group_nbytes d w) name red"
    using ready by (auto simp: kernels_ready_def)
  have m: "ag_module (e r) = m"
    using f(7)[OF r] exec_require_module_ready[OF c(1)] by simp
  have k: "0 \<le> group_count ?n w"
    using w n by (simp add: group_count_nonneg)
  have nb: "nat ?nb = ?k * nat (group_nbytes d w)" and np: "nat ?padded = ?k * nat (qw_group_size w)"
    using k by (simp_all add: nat_mult_distrib)
  have fits: "nat ?nb \<le> nat (align ?nb 16)"
    using align_bounds[of 16 ?nb] by linarith
  have "?n \<le> ?padded"
    using align_bounds[of "qw_group_size w" ?n] w by (simp add: group_count_align valid_wire_group_pos)
  then have src: "length (pad zero ?padded xs) = ?k * nat (qw_group_size w)" if "xs \<in> set inputs" for xs
    using inputs(2)[OF that] np by simp
  have "map (\<lambda>i. narrow gathered (i * nat (align ?nb 16)) (nat ?nb)) [0..<W]
      = map (\<lambda>i. q (pad zero ?padded (inputs ! i))) [0..<W]"
  proof (rule gathered_payloads[OF g _ fits])
    fix i assume i: "i < W"
    have "int (length (inputs ! i)) = ?n"
      using i inputs by simp
    then show "\<exists>b. all_gather_send zero (e i) (inputs ! i) = Inr b \<and> length b = nat (align ?nb 16)
        \<and> take (nat ?nb) b = q (pad zero ?padded (inputs ! i))"
      using all_gather_send_eq[OF job ready e[OF i] i, of "inputs ! i" zero] f[OF i] by simp
  qed
  also have "\<dots> = map (\<lambda>xs. q (pad zero ?padded xs)) inputs"
    using inputs(1) by (auto intro: nth_equalityI)
  finally have payloads: "map (\<lambda>i. narrow gathered (i * nat (align ?nb 16)) (nat ?nb)) [0..<W]
      = map (\<lambda>xs. q (pad zero ?padded xs)) inputs" .
  have "nt_reduce_mean m (wire_args w name) (int (length (map (\<lambda>xs. q (pad zero ?padded xs)) inputs)))
      (map (\<lambda>xs. q (pad zero ?padded xs)) inputs)
      (uninitialised junk ?padded) = Inr (True, red (map (\<lambda>xs. q (pad zero ?padded xs)) inputs))"
  proof (rule reducesD(1)[OF red])
    show "map (\<lambda>xs. q (pad zero ?padded xs)) inputs \<noteq> []"
      using r inputs by auto
    show "length (uninitialised junk ?padded) = ?k * nat (qw_group_size w)"
      using np by simp
    fix p assume "p \<in> set (map (\<lambda>xs. q (pad zero ?padded xs)) inputs)"
    then show "length p = ?k * nat (group_nbytes d w)"
      using quantizes_length[OF qz src] by auto
  qed
  moreover have "ctx_world_size (low_context (low r)) = int W"
    using job r by (auto simp: same_job_def)
  ultimately show ?thesis
    using payloads f[OF r] m exec_quant_type_ready[OF c] inputs(1)
    by (simp add: all_gather_finish_def Let_def)
qed

section \<open>Error of a lossy codec\<close>

text \<open>
  \<open>averages\<close>: the fused kernel returns the mean of what the payloads decode to.  \<open>near\<close>: two
  tensors differ by at most \<open>\<delta>\<close> on their first elements.
\<close>

definition averages :: "(byte list \<Rightarrow> rat list) \<Rightarrow> (byte list list \<Rightarrow> rat list) \<Rightarrow> bool" where
  "averages dq red \<longleftrightarrow>
     (\<forall>ps i. ps \<noteq> [] \<longrightarrow> i < length (red ps) \<longrightarrow> red ps ! i = mean_at (map dq ps) i)"

definition near :: "nat \<Rightarrow> rat \<Rightarrow> rat list \<Rightarrow> rat list \<Rightarrow> bool" where
  "near n \<delta> xs ys \<longleftrightarrow> (\<forall>i < n. \<bar>xs ! i - ys ! i\<bar> \<le> \<delta>)"

lemma column_sum_within:
  assumes "\<And>x. x \<in> set xs \<Longrightarrow> \<bar>f x ! i - g x ! i\<bar> \<le> (\<delta> :: rat)"
  shows "\<bar>column_sum (map f xs) i - column_sum (map g xs) i\<bar> \<le> of_nat (length xs) * \<delta>"
  using assms
proof (induction xs)
  case Nil
  then show ?case by (simp add: column_sum_def)
next
  case (Cons x xs)
  have "\<bar>f x ! i - g x ! i\<bar> \<le> \<delta>"
    and "\<bar>column_sum (map f xs) i - column_sum (map g xs) i\<bar> \<le> of_nat (length xs) * \<delta>"
    using Cons by auto
  then show ?case
    by (simp add: column_sum_def distrib_right abs_le_iff)
qed

lemma mean_within:
  assumes "xs \<noteq> []" and "\<And>x. x \<in> set xs \<Longrightarrow> \<bar>f x ! i - g x ! i\<bar> \<le> (\<delta> :: rat)"
  shows "\<bar>mean_at (map f xs) i - mean_at (map g xs) i\<bar> \<le> \<delta>"
proof -
  have pos: "0 < (of_nat (length xs) :: rat)"
    using assms(1) by simp
  have "\<bar>mean_at (map f xs) i - mean_at (map g xs) i\<bar>
      = \<bar>column_sum (map f xs) i - column_sum (map g xs) i\<bar> / of_nat (length xs)"
    using pos by (simp add: mean_at_def diff_divide_distrib[symmetric] abs_divide)
  also have "\<dots> \<le> \<delta>"
    using column_sum_within[OF assms(2)] pos by (simp add: pos_divide_le_eq mult.commute)
  finally show ?thesis .
qed

text \<open>The mean of decoded payloads against the mean of the tensors they encode.\<close>

lemma decoded_mean_within:
  assumes "averages dq red" and "inputs \<noteq> []" and "i < length (red (map enc inputs))" and "i < n"
    and "\<And>xs. xs \<in> set inputs \<Longrightarrow> near n \<delta> (dq (enc xs)) (pre xs)"
  shows "\<bar>red (map enc inputs) ! i - mean_at (map pre inputs) i\<bar> \<le> \<delta>"
proof -
  have "red (map enc inputs) ! i = mean_at (map (\<lambda>xs. dq (enc xs)) inputs) i"
    using assms(1,2,3) by (simp add: averages_def o_def)
  then show ?thesis
    using mean_within[OF assms(2), of "\<lambda>xs. dq (enc xs)" i pre \<delta>] assms(4,5)
    by (auto simp: near_def)
qed

lemma mean_at_pad:
  "(\<And>xs. xs \<in> set inputs \<Longrightarrow> i < length xs) \<Longrightarrow> mean_at (map (pad zero n) inputs) i = mean_at inputs i"
  by (simp add: mean_at_def column_sum_def nth_pad o_def cong: map_cong)

section \<open>Reduced shard\<close>

record 'x reduced_shard_executable =
  rse_lowered :: lowered_program
  rse_status :: "'x native extension_status"
  rse_module :: "'x native"
  rse_wire :: quantized_wire
  rse_layout_version :: int
  rse_plan :: shard_plan
  rse_payload_numel :: int
  rse_payload_stride :: int

definition make_CudaReducedShardExecutable ::
    "lowered_program \<Rightarrow> 'x native extension_status \<Rightarrow> 'x reduced_shard_executable res" where
  "make_CudaReducedShardExecutable lowered status =
     (case prog_output (low_program lowered) of
        ReducedShard dtype layout_version \<Rightarrow>
          rbind (exec_require_module status) (\<lambda>m.
          rbind (require_callable m ''inplace_dequantize_reduce_mean'') (\<lambda>_.
          rbind (wire_attributes (prog_wire (low_program lowered)) ''group_size'') (\<lambda>w.
          let c = low_context lowered in
          rbind (compile_shard_plan (shape_numel (ctx_shape c)) (ctx_rank c) (ctx_world_size c)
                   (qw_group_size w)) (\<lambda>plan.
          rbind (payload_nbytes (PInt (sp_shard_numel plan)) (PDataType (ctx_dtype c)) (Some w))
            (\<lambda>payload.
              Inr \<lparr>rse_lowered = lowered, rse_status = status, rse_module = m, rse_wire = w,
                   rse_layout_version = layout_version, rse_plan = plan,
                   rse_payload_numel = payload, rse_payload_stride = align payload 16\<rparr>)))))
      | _ \<Rightarrow> Inl (TypeError ''CUDA reduced-shard executable requires ReducedShard output''))"

text \<open>The rows of the send matrix, one per destination, in uninitialised memory.\<close>

definition shard_of :: "'x list \<Rightarrow> nat \<Rightarrow> shard_plan \<Rightarrow> 'x list" where
  "shard_of padded destination plan =
     narrow padded (destination * nat (sp_shard_numel plan)) (nat (sp_shard_numel plan))"

definition reduced_shard_send ::
    "'x \<Rightarrow> (nat \<Rightarrow> nat \<Rightarrow> byte) \<Rightarrow> 'x reduced_shard_executable \<Rightarrow> 'x list \<Rightarrow> byte list list res" where
  "reduced_shard_send zero junk e flat =
     (if int (length flat) \<noteq> sp_original_numel (rse_plan e)
        then Inl (ValueError ''input numel differs from the compiled shape'')
      else
        (let padded = pad zero (sp_padded_numel (rse_plan e)) flat in
         rmap (\<lambda>destination.
             let row = uninitialised (junk destination) (rse_payload_stride e) in
             rbind (quantize_into (rse_status e) (shard_of padded destination (rse_plan e))
                      (take (nat (rse_payload_numel e)) row) (rse_wire e))
               (\<lambda>payload. Inr (write_prefix payload row)))
           [0..<nat (sp_world_size (rse_plan e))]))"

text \<open>The callback \<open>complete\<close>, on the received rows.\<close>

definition reduced_shard_complete ::
    "(nat \<Rightarrow> 'x) \<Rightarrow> 'x reduced_shard_executable \<Rightarrow> byte list list
     \<Rightarrow> 'x list reduced_shard_value res" where
  "reduced_shard_complete junk e received =
     (let plan = rse_plan e; c = low_context (rse_lowered e);
          payloads = map (\<lambda>index. take (nat (rse_payload_numel e)) (received ! index))
                       [0..<nat (sp_world_size plan)] in
      rbind (exec_quant_type (rse_module e) (qw_quant_type (rse_wire e))) (\<lambda>name.
      rbind (nt_reduce_mean (rse_module e) (wire_args (rse_wire e) name) (sp_world_size plan) payloads
               (uninitialised junk (sp_shard_numel plan)))
        (\<lambda>(used, out).
          if \<not> used
            then Inl (RuntimeError ''fused dequant-reduce-mean declined compiled payloads'')
          else make_ReducedShardValue out (sp_rank plan) (sp_shard_numel plan) (ctx_shape c)
                 (sp_original_numel plan) (sp_world_size plan) ''mean''
                 (PDataType (ctx_dtype c)) (rse_layout_version e))))"

text \<open>The work \<open>run\<close> returns: it completes once, and its buffers have no \<open>release\<close>.\<close>

definition reduced_shard_work ::
    "(nat \<Rightarrow> 'x) \<Rightarrow> 'x reduced_shard_executable \<Rightarrow> byte list list
     \<Rightarrow> ('x list reduced_shard_value option, 'h) work" where
  "reduced_shard_work junk e received =
     make_CompletionWork None
       (Some (\<lambda>h. (rbind (reduced_shard_complete junk e received) (\<lambda>v. Inr (Some v)), h)))
       [None, None, None, None]"

lemma reduced_shard_fields:
  assumes "make_CudaReducedShardExecutable low status = Inr e"
    and "prog_wire (low_program low) = QuantizedWire w" and "valid_wire w"
    and "n = shape_numel (ctx_shape (low_context low))" and "0 \<le> n"
    and "W = ctx_world_size (low_context low)" and "n + W * qw_group_size w \<le> 2 ^ 53"
    and "d = ctx_dtype (low_context low)" and "r = ctx_rank (low_context low)"
  shows "rse_wire e = w" "rse_lowered e = low" "rse_status e = status"
    "compile_shard_plan n r W (qw_group_size w) = Inr (rse_plan e)"
    "rse_payload_numel e = group_count (sp_shard_numel (rse_plan e)) w * group_nbytes d w"
    "rse_payload_stride e = align (rse_payload_numel e) 16"
    "exec_require_module status = Inr (rse_module e)"
    "prog_output (low_program low) = ReducedShard dt v \<Longrightarrow> rse_layout_version e = v"
proof -
  obtain dt' v' m payload plan where out: "prog_output (low_program low) = ReducedShard dt' v'"
    and m: "exec_require_module status = Inr m"
    and plan: "compile_shard_plan n r W (qw_group_size w) = Inr plan"
    and payload: "payload_nbytes (PInt (sp_shard_numel plan)) (PDataType d) (Some w) = Inr payload"
    and e: "e = \<lparr>rse_lowered = low, rse_status = status, rse_module = m, rse_wire = w,
        rse_layout_version = v', rse_plan = plan, rse_payload_numel = payload,
        rse_payload_stride = align payload 16\<rparr>"
    using assms
    by (auto simp: make_CudaReducedShardExecutable_def wire_attributes_def Let_def
        split: output_type.splits)
  have g: "0 < qw_group_size w"
    using assms(3) by (rule valid_wire_group_pos)
  have vp: "valid_plan (qw_group_size w) plan"
    by (rule compile_shard_plan_valid[OF plan g])
  have W: "1 \<le> W" using vp compile_shard_plan_fields[OF plan] by (simp add: valid_plan_def)
  have s: "0 \<le> sp_shard_numel plan" using vp by (simp add: valid_plan_def)
  have "sp_shard_numel plan * 1 \<le> sp_shard_numel plan * W"
    using W s by (intro mult_left_mono)
  also have "\<dots> < n + W * qw_group_size w"
    using padding_bound[OF plan g] compile_shard_plan_fields(4)[OF plan] by simp
  finally have "sp_shard_numel plan < 2 ^ 53"
    using assms(7) by simp
  then have "payload = group_count (sp_shard_numel plan) w * group_nbytes d w"
    using payload payload_nbytes_exact[OF assms(3) s] by simp
  then show "rse_wire e = w" "rse_lowered e = low" "rse_status e = status"
    "compile_shard_plan n r W (qw_group_size w) = Inr (rse_plan e)"
    "rse_payload_numel e = group_count (sp_shard_numel (rse_plan e)) w * group_nbytes d w"
    "rse_payload_stride e = align (rse_payload_numel e) 16"
    "exec_require_module status = Inr (rse_module e)"
    "prog_output (low_program low) = ReducedShard dt v \<Longrightarrow> rse_layout_version e = v"
    using e m plan out by auto
qed

text \<open>A plan on whole groups: sizes as naturals, and the shards of a padded tensor.\<close>

lemma plan_groups:
  assumes "compile_shard_plan n r W (qw_group_size w) = Inr p" and "valid_wire w"
  defines "k \<equiv> nat (group_count (sp_shard_numel p) w)"
  shows "nat (sp_shard_numel p) = k * nat (qw_group_size w)"
    and "nat (group_count (sp_shard_numel p) w * b) = k * nat b"
    and "nat (sp_padded_numel p) = nat W * nat (sp_shard_numel p)"
    and "n \<le> sp_padded_numel p"
proof -
  have g: "0 < qw_group_size w" using assms(2) by (rule valid_wire_group_pos)
  have v: "valid_plan (qw_group_size w) p"
    by (rule compile_shard_plan_valid[OF assms(1) g])
  then obtain j where j: "sp_shard_numel p = j * qw_group_size w" "0 \<le> sp_shard_numel p" "0 < sp_world_size p"
    unfolding valid_plan_def by (metis dvd_def mult.commute)
  then have c: "group_count (sp_shard_numel p) w = j"
    using assms(2) by (simp add: group_count_exact)
  moreover have "0 \<le> j" using j(1,2) g by (simp add: zero_le_mult_iff)
  ultimately show "nat (sp_shard_numel p) = k * nat (qw_group_size w)"
    and "nat (group_count (sp_shard_numel p) w * b) = k * nat b"
    using j(1) by (simp_all add: k_def nat_mult_distrib)
  show "nat (sp_padded_numel p) = nat W * nat (sp_shard_numel p)" and "n \<le> sp_padded_numel p"
    using v j compile_shard_plan_fields[OF assms(1)]
    by (simp_all add: valid_plan_def nat_mult_distrib mult.commute)
qed

lemma length_shard_of:
  assumes "length padded = W * nat (sp_shard_numel p)" and "destination < W"
  shows "length (shard_of padded destination p) = nat (sp_shard_numel p)"
proof -
  have "(destination + 1) * nat (sp_shard_numel p) \<le> W * nat (sp_shard_numel p)"
    using assms(2) by (intro mult_right_mono) auto
  then show ?thesis
    unfolding shard_of_def by (intro length_narrow) (simp add: assms(1) distrib_right)
qed

lemma nth_shard_of:
  "i < nat (sp_shard_numel p) \<Longrightarrow> r * nat (sp_shard_numel p) + i < length padded \<Longrightarrow>
     shard_of padded r p ! i = padded ! (r * nat (sp_shard_numel p) + i)"
  by (simp add: shard_of_def narrow_def)

text \<open>Quantising one shard into a row of the send matrix.\<close>

lemma quantized_row:
  assumes c: "codec_ready status m" "quant_type_names (qw_quant_type w) = Some name"
    and qz: "quantizes m w gb name q"
    and src: "length src = k * nat (qw_group_size w)"
    and row: "length row = stride" and payload: "payload = k * nat gb" and "payload \<le> stride"
  shows "\<exists>new. quantize_into status src (take payload row) w = Inr (q src)
     \<and> write_prefix (q src) row = new \<and> length new = stride \<and> take payload new = q src"
proof -
  have view: "length (take payload row) = k * nat gb"
    using row payload assms(7) by simp
  have "length (q src) = payload"
    using quantizes_length[OF qz src] payload by simp
  then show ?thesis
    using quantize_into_ready[OF c] quantizesD(1)[OF qz src view] row assms(7)
      take_write_prefix[of "q src" row] by simp
qed

text \<open>The exchange of a job, rank by rank.\<close>

text \<open>
  \<open>all_to_all_single\<close> on equal rows: rank \<open>r\<close> receives row \<open>r\<close> of every rank, in rank order.
\<close>

definition exchanges ::
    "(nat \<Rightarrow> byte list list res) \<Rightarrow> nat \<Rightarrow> nat \<Rightarrow> byte list list \<Rightarrow> bool" where
  "exchanges sends W r received \<longleftrightarrow>
     (\<exists>ms. length ms = W \<and> (\<forall>s < W. sends s = Inr (ms ! s)) \<and> received = map (\<lambda>m. m ! r) ms)"

lemma exchanges_exists: "(\<And>s. s < W \<Longrightarrow> \<exists>m. sends s = Inr m) \<Longrightarrow> \<exists>x. exchanges sends W r x"
proof -
  assume "\<And>s. s < W \<Longrightarrow> \<exists>m. sends s = Inr m"
  then obtain f where f: "\<And>s. s < W \<Longrightarrow> sends s = Inr (f s)" by metis
  show ?thesis
    by (rule exI[of _ "map (\<lambda>m. m ! r) (map f [0..<W])"], unfold exchanges_def,
        rule exI[of _ "map f [0..<W]"]) (simp add: f)
qed

lemma exchanged_payloads:
  assumes "exchanges sends W r received"
    and "\<And>s. s < W \<Longrightarrow> \<exists>m. sends s = Inr m \<and> take k (m ! r) = payload s"
  shows "map (\<lambda>s. take k (received ! s)) [0..<W] = map payload [0..<W]"
  using assms by (force simp: exchanges_def intro!: map_cong)

lemma job_plans:
  assumes "same_job low W w d shape" and "make_CudaReducedShardExecutable (low r) status = Inr e"
    and "r < W"
  shows "compile_shard_plan (shape_numel shape) (int r) (int W) (qw_group_size w) = Inr (rse_plan e)"
    and "rse_wire e = w" "rse_lowered e = low r" "rse_status e = status"
    and "rse_payload_numel e = group_count (sp_shard_numel (rse_plan e)) w * group_nbytes d w"
    and "rse_payload_stride e = align (rse_payload_numel e) 16"
    and "exec_require_module status = Inr (rse_module e)"
proof -
  have "prog_wire (low_program (low r)) = QuantizedWire w" "valid_wire w"
    "shape_numel shape = shape_numel (ctx_shape (low_context (low r)))" "0 \<le> shape_numel shape"
    "int W = ctx_world_size (low_context (low r))"
    "shape_numel shape + int W * qw_group_size w \<le> 2 ^ 53"
    "d = ctx_dtype (low_context (low r))" "int r = ctx_rank (low_context (low r))"
    using assms(1,3) by (auto simp: same_job_def)
  note f = reduced_shard_fields[OF assms(2) this]
  from f show "compile_shard_plan (shape_numel shape) (int r) (int W) (qw_group_size w) = Inr (rse_plan e)"
    and "rse_wire e = w" "rse_lowered e = low r" "rse_status e = status"
    and "rse_payload_numel e = group_count (sp_shard_numel (rse_plan e)) w * group_nbytes d w"
    and "rse_payload_stride e = align (rse_payload_numel e) 16"
    and "exec_require_module status = Inr (rse_module e)" by simp_all
qed

text \<open>Packing the shards of a padded tensor, one row per destination.\<close>

lemma packed_rows:
  fixes zero :: 'x and row :: "nat \<Rightarrow> byte list"
  assumes c: "codec_ready status m" "quant_type_names (qw_quant_type w) = Some name"
    and qz: "quantizes m w gb name q" and w: "valid_wire w"
    and plan: "compile_shard_plan n r (int W) (qw_group_size w) = Inr p"
    and len: "int (length flat) = n"
    and payload: "payload = group_count (sp_shard_numel p) w * gb" and stride: "stride = align payload 16"
    and row: "\<And>t. length (row t) = nat stride"
  defines "padded \<equiv> pad zero (sp_padded_numel p) flat"
  shows "\<exists>rows. rmap (\<lambda>t. rbind (quantize_into status (shard_of padded t p) (take (nat payload) (row t)) w)
        (\<lambda>b. Inr (write_prefix b (row t)))) [0..<W] = Inr rows \<and> length rows = W
     \<and> (\<forall>t < W. length (rows ! t) = nat stride \<and> take (nat payload) (rows ! t) = q (shard_of padded t p))"
proof -
  note g = plan_groups[OF plan w]
  let ?k = "nat (group_count (sp_shard_numel p) w)"
  have k: "nat payload = ?k * nat gb"
    using g(2) payload by simp
  have fits: "nat payload \<le> nat stride"
    using align_bounds[of 16 payload] stride by (simp add: nat_mono)
  have padded: "length padded = W * nat (sp_shard_numel p)"
    unfolding padded_def using g(3,4) len by simp
  have packed: "quantize_into status (shard_of padded t p) (take (nat payload) (row t)) w
        = Inr (q (shard_of padded t p))
      \<and> length (write_prefix (q (shard_of padded t p)) (row t)) = nat stride
      \<and> take (nat payload) (write_prefix (q (shard_of padded t p)) (row t)) = q (shard_of padded t p)"
    if "t < W" for t
  proof -
    have "length (shard_of padded t p) = ?k * nat (qw_group_size w)"
      using length_shard_of[OF padded that] g(1) by simp
    from quantized_row[OF c qz this row k fits] show ?thesis by auto
  qed
  have "rmap (\<lambda>t. rbind (quantize_into status (shard_of padded t p) (take (nat payload) (row t)) w)
        (\<lambda>b. Inr (write_prefix b (row t)))) [0..<W]
      = Inr (map (\<lambda>t. write_prefix (q (shard_of padded t p)) (row t)) [0..<W])"
    by (rule rmap_total) (simp add: packed)
  then show ?thesis using packed by simp
qed

lemma reduced_shard_send_eq:
  fixes low :: "nat \<Rightarrow> lowered_program" and zero :: 'x
  assumes job: "same_job low W w d shape" and ready: "kernels_ready status m w d q red"
    and e: "make_CudaReducedShardExecutable (low s) status = Inr e" and s: "s < W"
    and len: "int (length flat) = shape_numel shape"
  defines "padded \<equiv> pad zero (sp_padded_numel (rse_plan e)) flat"
  shows "\<exists>rows. reduced_shard_send zero junk e flat = Inr rows \<and> length rows = W
     \<and> (\<forall>t < W. length (rows ! t) = nat (rse_payload_stride e)
          \<and> take (nat (rse_payload_numel e)) (rows ! t) = q (shard_of padded t (rse_plan e)))"
proof -
  note f = job_plans[OF job e s]
  have w: "valid_wire w" using job by (simp add: same_job_def)
  obtain name where c: "codec_ready status m" "quant_type_names (qw_quant_type w) = Some name"
    and qz: "quantizes m w (group_nbytes d w) name q"
    using ready by (auto simp: kernels_ready_def)
  show ?thesis
    using packed_rows[OF c qz w f(1) len f(5,6), of "\<lambda>t. uninitialised (junk t) (rse_payload_stride e)" zero]
      len compile_shard_plan_fields(1,3)[OF f(1)] f(2,4)
    by (simp add: reduced_shard_send_def Let_def padded_def)
qed

lemma reduced_shard_exchange:
  fixes low :: "nat \<Rightarrow> lowered_program"
  assumes job: "same_job low W w d shape" and ready: "kernels_ready status m w d q red"
    and e: "\<And>r. r < W \<Longrightarrow> make_CudaReducedShardExecutable (low r) status = Inr (e r)"
    and inputs: "length inputs = W" "\<And>xs. xs \<in> set inputs \<Longrightarrow> int (length xs) = shape_numel shape"
    and r: "r < W"
    and x: "exchanges (\<lambda>s. reduced_shard_send zero junk (e s) (inputs ! s)) W r received"
  defines "p \<equiv> rse_plan (e r)"
  shows "\<exists>v. reduced_shard_complete ojunk (e r) received = Inr v
     \<and> rsv_tensor v = red (map (\<lambda>xs. q (shard_of (pad zero (sp_padded_numel p) xs) r p)) inputs)
     \<and> length (rsv_tensor v) = nat (sp_shard_numel p)
     \<and> rsv_shard_index v = int r \<and> rsv_shard_numel v = sp_shard_numel p
     \<and> rsv_original_numel v = shape_numel shape \<and> rsv_world_size v = int W \<and> valid_shard_value v"
proof -
  let ?gb = "group_nbytes d w" and ?k = "nat (group_count (sp_shard_numel p) w)"
  let ?enc = "\<lambda>xs. q (shard_of (pad zero (sp_padded_numel p) xs) r p)"
  have w: "valid_wire w" using job by (simp add: same_job_def)
  note f = job_plans[OF job e[OF r] r, folded p_def]
  note g = plan_groups[OF f(1) w]
  obtain name where c: "codec_ready status m" "quant_type_names (qw_quant_type w) = Some name"
    and qz: "quantizes m w ?gb name q" and red: "reduces m w ?gb name red"
    using ready by (auto simp: kernels_ready_def)
  have m: "rse_module (e r) = m"
    using f(7) exec_require_module_ready[OF c(1)] by simp
  have same: "sp_shard_numel (rse_plan (e s)) = sp_shard_numel p"
    "sp_padded_numel (rse_plan (e s)) = sp_padded_numel p"
    "rse_payload_numel (e s) = rse_payload_numel (e r)" if "s < W" for s
    using compile_shard_plan_agree[OF f(1) job_plans(1)[OF job e[OF that] that]]
      job_plans(5)[OF job e[OF that] that] f(5) by simp_all
  have "map (\<lambda>s. take (nat (rse_payload_numel (e r))) (received ! s)) [0..<W]
      = map (\<lambda>s. ?enc (inputs ! s)) [0..<W]"
  proof (rule exchanged_payloads[OF x])
    fix s assume s: "s < W"
    then have "int (length (inputs ! s)) = shape_numel shape" using inputs by simp
    from reduced_shard_send_eq[OF job ready e[OF s] s this, of zero junk] same[OF s] r
    show "\<exists>rows. reduced_shard_send zero junk (e s) (inputs ! s) = Inr rows
        \<and> take (nat (rse_payload_numel (e r))) (rows ! r) = ?enc (inputs ! s)"
      by (auto simp: shard_of_def)
  qed
  also have "\<dots> = map ?enc inputs"
    using inputs(1) by (auto intro: nth_equalityI)
  finally have payloads: "map (\<lambda>s. take (nat (rse_payload_numel (e r))) (received ! s)) [0..<W]
      = map ?enc inputs" .
  have "length (shard_of (pad zero (sp_padded_numel p) xs) r p) = ?k * nat (qw_group_size w)"
    if "xs \<in> set inputs" for xs
    using length_shard_of[of "pad zero (sp_padded_numel p) xs" W p r] g inputs(2)[OF that] r by simp
  then have lens: "b \<in> set (map ?enc inputs) \<Longrightarrow> length b = ?k * nat ?gb" for b
    using quantizes_length[OF qz] by auto
  have "map ?enc inputs \<noteq> []" using r inputs by auto
  note used = reducesD[OF red this lens, of "uninitialised ojunk (sp_shard_numel p)"]
  obtain v where v: "make_ReducedShardValue (red (map ?enc inputs)) (int r) (sp_shard_numel p) shape
      (shape_numel shape) (int W) ''mean'' (PDataType d) (rse_layout_version (e r)) = Inr v"
    using plan_value_constructible[OF f(1) valid_wire_group_pos[OF w],
        of "red (map ?enc inputs)" shape d "rse_layout_version (e r)"] by auto
  have "low_context (low r) = c' \<Longrightarrow> ctx_shape c' = shape \<and> ctx_dtype c' = d" for c'
    using job r by (auto simp: same_job_def)
  then have "reduced_shard_complete ojunk (e r) received = Inr v"
    using v payloads used(1) g(1) f compile_shard_plan_fields[OF f(1)] m exec_quant_type_ready[OF c]
      inputs(1)
    by (simp add: reduced_shard_complete_def Let_def p_def[symmetric])
  then show ?thesis
    using v used(2) g(1) by (auto simp: make_ReducedShardValue_Inr_iff)
qed

end
