(* ===== verification/Full_Tensor.thy ===== *)
theory Full_Tensor
  imports Executors
begin

text \<open>
  \<open>CudaFullTensorExecutable\<close> of \<open>backends/cuda/executors.py\<close>: the two-collective path whose
  wire stays quantised on both hops, its local reconstruction for gradient error feedback,
  and the work object that owns the completion future.
\<close>

section \<open>Construction\<close>

record 'x full_tensor_executable =
  fte_lowered :: lowered_program
  fte_status :: "'x native extension_status"
  fte_module :: "'x native"
  fte_wire :: quantized_wire
  fte_plan :: shard_plan
  fte_payload_numel :: int
  fte_payload_stride :: int

definition make_CudaFullTensorExecutable ::
    "lowered_program \<Rightarrow> 'x native extension_status \<Rightarrow> 'x full_tensor_executable res" where
  "make_CudaFullTensorExecutable lowered status =
     (if \<not> is_FullTensor (prog_output (low_program lowered))
        then Inl (TypeError ''CUDA full-tensor executable requires FullTensor output'')
      else
        rbind (wire_attributes (prog_wire (low_program lowered)) ''compact'') (\<lambda>w.
        if qw_compact w
          then Inl (RuntimeError ''fused FullTensor requantize currently requires compact=False'')
        else if qw_bit w \<noteq> 8 \<or> qw_group_size w \<noteq> 64 \<or> qw_quant_type w \<noteq> ''linear''
          then Inl (RuntimeError ''fused FullTensor requires INT8 linear group_size=64'')
        else
          let c = low_context lowered in
          rbind (exec_require_module status) (\<lambda>m.
          rbind (require_callable m ''inplace_quantize'') (\<lambda>_.
          rbind (require_callable m ''inplace_dequantize_reduce_mean_requantize'') (\<lambda>_.
          rbind (require_callable m ''inplace_dequantize_gathered'') (\<lambda>_.
          rbind (compile_shard_plan (shape_numel (ctx_shape c)) (ctx_rank c) (ctx_world_size c)
                   (qw_group_size w)) (\<lambda>plan.
          rbind (payload_nbytes (PInt (sp_shard_numel plan)) (PDataType (ctx_dtype c)) (Some w))
            (\<lambda>payload.
              Inr \<lparr>fte_lowered = lowered, fte_status = status, fte_module = m, fte_wire = w,
                   fte_plan = plan, fte_payload_numel = payload,
                   fte_payload_stride = align payload 16\<rparr>))))))))"

section \<open>The two hops\<close>

text \<open>The send matrix, in zeroed memory.\<close>

definition full_tensor_send ::
    "'x \<Rightarrow> 'x full_tensor_executable \<Rightarrow> 'x list \<Rightarrow> byte list list res" where
  "full_tensor_send zero e flat =
     (if int (length flat) \<noteq> sp_original_numel (fte_plan e)
        then Inl (ValueError ''input numel differs from the compiled shape'')
      else
        (let padded = pad zero (sp_padded_numel (fte_plan e)) flat in
         rmap (\<lambda>destination.
             let row = replicate (nat (fte_payload_stride e)) 0 in
             rbind (quantize_into (fte_status e) (shard_of padded destination (fte_plan e))
                      (take (nat (fte_payload_numel e)) row) (fte_wire e))
               (\<lambda>payload. Inr (write_prefix payload row)))
           [0..<nat (sp_world_size (fte_plan e))]))"

definition linear_args :: "string \<Rightarrow> codec_args" where
  "linear_args name =
     \<lparr>ca_group_size = 64, ca_bit = 8, ca_quant_type = name, ca_compact = False\<rparr>"

text \<open>\<open>_finish\<close> up to the second collective: this rank's reduced and requantised shard.\<close>

definition full_tensor_reduce ::
    "'x full_tensor_executable \<Rightarrow> byte list list \<Rightarrow> byte list res" where
  "full_tensor_reduce e received =
     (let payloads = map (\<lambda>index. take (nat (fte_payload_numel e)) (received ! index))
                       [0..<nat (sp_world_size (fte_plan e))];
          reduced_payload = replicate (nat (fte_payload_stride e)) 0 in
      rbind (exec_quant_type (fte_module e) ''linear'') (\<lambda>name.
      rbind (exec_dtype (fte_module e) (ctx_dtype (low_context (fte_lowered e)))) (\<lambda>dtype.
      rbind (nt_requantize (fte_module e) (linear_args name) dtype (sp_world_size (fte_plan e))
               payloads reduced_payload)
        (\<lambda>(used, reduced).
          if \<not> used then Inl (RuntimeError ''fused dequant-reduce-mean-requantize declined'')
          else Inr reduced))))"

text \<open>\<open>_finish\<close> after it: the whole tensor from the gathered shards.\<close>

definition full_tensor_writeback ::
    "(nat \<Rightarrow> 'x) \<Rightarrow> 'x full_tensor_executable \<Rightarrow> byte list \<Rightarrow> 'x list res" where
  "full_tensor_writeback junk e gathered =
     (let restored = uninitialised junk (sp_padded_numel (fte_plan e)) in
      rbind (exec_quant_type (fte_module e) ''linear'') (\<lambda>name.
      rbind (exec_dtype (fte_module e) (ctx_dtype (low_context (fte_lowered e)))) (\<lambda>dtype.
      rbind (nt_gathered (fte_module e) (linear_args name) dtype (sp_world_size (fte_plan e))
               (fte_payload_numel e) (fte_payload_stride e) (sp_shard_numel (fte_plan e))
               gathered restored)
        (\<lambda>(used, out).
          if \<not> used then Inl (RuntimeError ''gathered-dequant-writeback declined'')
          else Inr (take (nat (sp_original_numel (fte_plan e))) out)))))"

section \<open>Local reconstruction\<close>

definition reconstruct_local ::
    "'x \<Rightarrow> (nat \<Rightarrow> byte) \<Rightarrow> (nat \<Rightarrow> 'x) \<Rightarrow> 'x full_tensor_executable \<Rightarrow> 'x list \<Rightarrow> 'x list res" where
  "reconstruct_local zero junk_bytes junk e flat =
     (let original_numel = int (length flat);
          g = qw_group_size (fte_wire e);
          padded_numel = (original_numel + g - 1) div g * g;
          prepared = pad zero padded_numel flat;
          dtype = PDataType (ctx_dtype (low_context (fte_lowered e))) in
      rbind (payload_nbytes (PInt padded_numel) dtype (Some (fte_wire e))) (\<lambda>nbytes.
      rbind (quantize_into (fte_status e) prepared (uninitialised junk_bytes nbytes) (fte_wire e))
        (\<lambda>payload.
      rbind (dequantize_into (fte_status e) payload (uninitialised junk padded_numel) (fte_wire e) dtype)
        (\<lambda>restored. Inr (take (length flat) restored)))))"

section \<open>The completion future\<close>

datatype 'a future = FuturePending | FutureDone "'a res"

definition full_tensor_query :: "'a future \<Rightarrow> bool" where
  "full_tensor_query future = (case future of FuturePending \<Rightarrow> False | FutureDone _ \<Rightarrow> True)"

text \<open>
  \<open>Future.result(timeout)\<close>; \<open>later\<close> is what the pool thread has stored by the deadline (ever,
  if there is none).  \<open>None\<close>: the call does not return.
\<close>

definition full_tensor_wait :: "'a future \<Rightarrow> pyfloat option \<Rightarrow> 'a future \<Rightarrow> 'a res option" where
  "full_tensor_wait future timeout later =
     (case future of
        FutureDone r \<Rightarrow> Some r
      | FuturePending \<Rightarrow>
          (case later of
             FutureDone r \<Rightarrow> Some r
           | FuturePending \<Rightarrow> (case timeout of
               None \<Rightarrow> None
             | Some _ \<Rightarrow> Some (Inl (TimeoutError '''')))))"

lemma full_tensor_wait_done:
  "full_tensor_query future \<Longrightarrow> full_tensor_wait future timeout later = full_tensor_wait future t' l'"
  by (auto simp: full_tensor_query_def full_tensor_wait_def split: future.splits)

section \<open>What the fused kernels promise\<close>

definition requantizes ::
    "'x native \<Rightarrow> quantized_wire \<Rightarrow> int \<Rightarrow> string \<Rightarrow> string \<Rightarrow> (byte list list \<Rightarrow> byte list) \<Rightarrow> bool" where
  "requantizes m w gb name dtype rq \<longleftrightarrow>
     (\<forall>k ps out. ps \<noteq> [] \<longrightarrow> (\<forall>p \<in> set ps. length p = k * nat gb) \<longrightarrow> k * nat gb \<le> length out \<longrightarrow>
        nt_requantize m (wire_args w name) dtype (int (length ps)) ps out
          = Inr (True, write_prefix (rq ps) out)
        \<and> length (rq ps) = k * nat gb)"

definition writes_back ::
    "'x native \<Rightarrow> quantized_wire \<Rightarrow> int \<Rightarrow> string \<Rightarrow> string \<Rightarrow> (byte list \<Rightarrow> 'x list) \<Rightarrow> bool" where
  "writes_back m w gb name dtype dq \<longleftrightarrow>
     (\<forall>k W stride buffer out. length buffer = W * stride \<longrightarrow> k * nat gb \<le> stride \<longrightarrow>
        length out = W * (k * nat (qw_group_size w)) \<longrightarrow>
        nt_gathered m (wire_args w name) dtype (int W) (int (k * nat gb)) (int stride)
            (int (k * nat (qw_group_size w))) buffer out
          = Inr (True, concat (map (\<lambda>r. dq (narrow buffer (r * stride) (k * nat gb))) [0..<W])))
     \<and> (\<forall>k p. length p = k * nat gb \<longrightarrow> length (dq p) = k * nat (qw_group_size w))"

lemma requantizesD:
  assumes "requantizes m w gb name dtype rq" and "ps \<noteq> []"
    and "\<forall>p \<in> set ps. length p = k * nat gb" and "k * nat gb \<le> length out"
  shows "nt_requantize m (wire_args w name) dtype (int (length ps)) ps out
      = Inr (True, write_prefix (rq ps) out)"
    and "length (rq ps) = k * nat gb"
  using assms unfolding requantizes_def by metis+

lemma writes_backD:
  assumes "writes_back m w gb name dtype dq" and "length buffer = W * stride"
    and "k * nat gb \<le> stride" and "length out = W * (k * nat (qw_group_size w))"
  shows "nt_gathered m (wire_args w name) dtype (int W) (int (k * nat gb)) (int stride)
      (int (k * nat (qw_group_size w))) buffer out
    = Inr (True, concat (map (\<lambda>r. dq (narrow buffer (r * stride) (k * nat gb))) [0..<W]))"
  using assms unfolding writes_back_def by blast

lemma writes_back_length:
  "writes_back m w gb name dtype dq \<Longrightarrow> length p = k * nat gb \<Longrightarrow>
     length (dq p) = k * nat (qw_group_size w)"
  unfolding writes_back_def by blast

definition full_kernels_ready ::
    "'x native extension_status \<Rightarrow> 'x native \<Rightarrow> quantized_wire \<Rightarrow> data_type \<Rightarrow> ('x list \<Rightarrow> byte list)
     \<Rightarrow> (byte list list \<Rightarrow> byte list) \<Rightarrow> (byte list \<Rightarrow> 'x list) \<Rightarrow> bool" where
  "full_kernels_ready status m w d q rq dq \<longleftrightarrow>
     codec_ready status m
     \<and> nt_attr m ''inplace_dequantize_reduce_mean_requantize'' = Some Callable
     \<and> nt_attr m ''inplace_dequantize_gathered'' = Some Callable
     \<and> (\<exists>dtypes. nt_attr m ''DType'' = Some (Namespace dtypes) \<and> {''FP16'', ''BF16'', ''FP32''} \<subseteq> dtypes)
     \<and> quantizes m w (group_nbytes d w) ''Linear'' q
     \<and> (\<forall>dtype. requantizes m w (group_nbytes d w) ''Linear'' dtype rq
          \<and> writes_back m w (group_nbytes d w) ''Linear'' dtype dq)"

text \<open>The only wire this executable accepts.\<close>

definition full_wire :: quantized_wire where
  "full_wire = \<lparr>qw_bit = 8, qw_group_size = 64, qw_quant_type = ''linear'', qw_compact = False\<rparr>"

lemma full_wire_simps [simp]:
  "valid_wire full_wire" "wire_args full_wire name = linear_args name"
  "qw_quant_type full_wire = ''linear''" "qw_group_size full_wire = 64"
  by (simp_all add: full_wire_def valid_wire_def wire_args_def linear_args_def py_strip_eq_Nil
      py_isspace_def)

lemma quant_type_linear [simp]: "quant_type_names ''linear'' = Some ''Linear''"
  by (simp add: quant_type_names_def)

lemma make_full_wire:
  "make_CudaFullTensorExecutable low status = Inr e \<Longrightarrow>
     is_FullTensor (prog_output (low_program low))
     \<and> prog_wire (low_program low) = QuantizedWire full_wire"
  by (auto simp: make_CudaFullTensorExecutable_def wire_attributes_def full_wire_def
      split: wire.splits if_splits)

lemma full_job_fields:
  assumes job: "same_job low W full_wire d shape"
    and make: "make_CudaFullTensorExecutable (low r) status = Inr e" and r: "r < W"
  shows "compile_shard_plan (shape_numel shape) (int r) (int W) 64 = Inr (fte_plan e)"
    and "fte_wire e = full_wire" "fte_lowered e = low r" "fte_status e = status"
    and "fte_payload_numel e
           = group_count (sp_shard_numel (fte_plan e)) full_wire * group_nbytes d full_wire"
    and "fte_payload_stride e = align (fte_payload_numel e) 16"
    and "exec_require_module status = Inr (fte_module e)"
    and "ctx_dtype (low_context (low r)) = d"
proof -
  have c: "prog_wire (low_program (low r)) = QuantizedWire full_wire"
    "ctx_shape (low_context (low r)) = shape" "0 \<le> shape_numel shape"
    "ctx_world_size (low_context (low r)) = int W" "ctx_rank (low_context (low r)) = int r"
    "shape_numel shape + int W * 64 \<le> 2 ^ 53" "ctx_dtype (low_context (low r)) = d"
    using job r by (auto simp: same_job_def)
  obtain m payload plan where m: "exec_require_module status = Inr m"
    and plan: "compile_shard_plan (shape_numel shape) (int r) (int W) 64 = Inr plan"
    and payload: "payload_nbytes (PInt (sp_shard_numel plan)) (PDataType d) (Some full_wire) = Inr payload"
    and e: "e = \<lparr>fte_lowered = low r, fte_status = status, fte_module = m, fte_wire = full_wire,
        fte_plan = plan, fte_payload_numel = payload, fte_payload_stride = align payload 16\<rparr>"
    using make c by (auto simp: make_CudaFullTensorExecutable_def wire_attributes_def Let_def)
  have v: "valid_plan 64 plan" by (rule compile_shard_plan_valid[OF plan]) simp
  then have s: "0 \<le> sp_shard_numel plan" and W: "1 \<le> int W"
    using r by (auto simp: valid_plan_def)
  have "sp_shard_numel plan * 1 \<le> sp_shard_numel plan * int W"
    using W s by (intro mult_left_mono)
  also have "\<dots> < shape_numel shape + int W * 64"
    using padding_bound[OF plan] compile_shard_plan_fields(4)[OF plan] by simp
  finally have "sp_shard_numel plan < 2 ^ 53" using c by simp
  then have "payload = group_count (sp_shard_numel plan) full_wire * group_nbytes d full_wire"
    using payload payload_nbytes_exact[of full_wire "sp_shard_numel plan" d] s by simp
  then show "compile_shard_plan (shape_numel shape) (int r) (int W) 64 = Inr (fte_plan e)"
    and "fte_wire e = full_wire" "fte_lowered e = low r" "fte_status e = status"
    and "fte_payload_numel e
           = group_count (sp_shard_numel (fte_plan e)) full_wire * group_nbytes d full_wire"
    and "fte_payload_stride e = align (fte_payload_numel e) 16"
    and "exec_require_module status = Inr (fte_module e)"
    and "ctx_dtype (low_context (low r)) = d"
    using e m plan c(7) by auto
qed

section \<open>The exchange of a job\<close>

lemma full_tensor_send_eq:
  fixes low :: "nat \<Rightarrow> lowered_program" and zero :: 'x
  assumes job: "same_job low W full_wire d shape" and ready: "full_kernels_ready status m full_wire d q rq dq"
    and e: "make_CudaFullTensorExecutable (low s) status = Inr e" and s: "s < W"
    and len: "int (length flat) = shape_numel shape"
  defines "padded \<equiv> pad zero (sp_padded_numel (fte_plan e)) flat"
  shows "\<exists>rows. full_tensor_send zero e flat = Inr rows \<and> length rows = W
     \<and> (\<forall>t < W. length (rows ! t) = nat (fte_payload_stride e)
          \<and> take (nat (fte_payload_numel e)) (rows ! t) = q (shard_of padded t (fte_plan e)))"
proof -
  note f = full_job_fields[OF job e s]
  have c: "codec_ready status m" "quant_type_names (qw_quant_type full_wire) = Some ''Linear''"
    and qz: "quantizes m full_wire (group_nbytes d full_wire) ''Linear'' q"
    using ready by (auto simp: full_kernels_ready_def)
  show ?thesis
    using packed_rows[OF c qz full_wire_simps(1) _ len f(5,6), of "int s" W
        "\<lambda>t. replicate (nat (fte_payload_stride e)) 0" zero]
      len compile_shard_plan_fields(1,3)[OF f(1)] f(1,2,4)
    by (simp add: full_tensor_send_def Let_def padded_def)
qed

text \<open>What a rank holds after the first hop: its requantised shard at the head of a row.\<close>

definition shard_payload ::
    "'x \<Rightarrow> ('x list \<Rightarrow> byte list) \<Rightarrow> (byte list list \<Rightarrow> byte list) \<Rightarrow> shard_plan \<Rightarrow> 'x list list \<Rightarrow> nat
     \<Rightarrow> byte list" where
  "shard_payload zero q rq p inputs t =
     rq (map (\<lambda>xs. q (shard_of (pad zero (sp_padded_numel p) xs) t p)) inputs)"

lemma full_tensor_reduce_eq:
  fixes low :: "nat \<Rightarrow> lowered_program" and zero :: 'x
  assumes job: "same_job low W full_wire d shape" and ready: "full_kernels_ready status m full_wire d q rq dq"
    and e: "\<And>r. r < W \<Longrightarrow> make_CudaFullTensorExecutable (low r) status = Inr (e r)"
    and inputs: "length inputs = W" "\<And>xs. xs \<in> set inputs \<Longrightarrow> int (length xs) = shape_numel shape"
    and r: "r < W" and x: "exchanges (\<lambda>s. full_tensor_send zero (e s) (inputs ! s)) W r received"
  defines "p \<equiv> fte_plan (e r)"
  shows "\<exists>b. full_tensor_reduce (e r) received = Inr b \<and> length b = nat (fte_payload_stride (e r))
     \<and> take (nat (fte_payload_numel (e r))) b = shard_payload zero q rq p inputs r"
proof -
  let ?gb = "group_nbytes d full_wire" and ?k = "nat (group_count (sp_shard_numel p) full_wire)"
  let ?enc = "\<lambda>xs. q (shard_of (pad zero (sp_padded_numel p) xs) r p)"
  let ?payload = "nat (fte_payload_numel (e r))" and ?stride = "nat (fte_payload_stride (e r))"
  note f = full_job_fields[OF job e[OF r] r, folded p_def]
  note g = plan_groups[of _ _ _ full_wire, simplified full_wire_simps, OF f(1) TrueI]
  have c: "codec_ready status m" and qz: "quantizes m full_wire ?gb ''Linear'' q"
    and rq: "requantizes m full_wire ?gb ''Linear'' dtype rq" for dtype
    using ready by (auto simp: full_kernels_ready_def)
  have m: "fte_module (e r) = m"
    using f(7) exec_require_module_ready[OF c] by simp
  have dtype: "\<exists>name. exec_dtype m d = Inr name"
    using ready by (cases d) (auto simp: full_kernels_ready_def exec_dtype_def)
  have same: "sp_shard_numel (fte_plan (e s)) = sp_shard_numel p"
    "sp_padded_numel (fte_plan (e s)) = sp_padded_numel p"
    "fte_payload_numel (e s) = fte_payload_numel (e r)" if "s < W" for s
    using compile_shard_plan_agree[OF f(1) full_job_fields(1)[OF job e[OF that] that]]
      full_job_fields(5)[OF job e[OF that] that] f(5) by simp_all
  have "map (\<lambda>s. take ?payload (received ! s)) [0..<W] = map (\<lambda>s. ?enc (inputs ! s)) [0..<W]"
  proof (rule exchanged_payloads[OF x])
    fix s assume s: "s < W"
    then have "int (length (inputs ! s)) = shape_numel shape" using inputs by simp
    from full_tensor_send_eq[OF job ready e[OF s] s this, of zero] same[OF s] r
    show "\<exists>rows. full_tensor_send zero (e s) (inputs ! s) = Inr rows
        \<and> take ?payload (rows ! r) = ?enc (inputs ! s)"
      by (auto simp: shard_of_def)
  qed
  also have "\<dots> = map ?enc inputs"
    using inputs(1) by (auto intro: nth_equalityI)
  finally have payloads: "map (\<lambda>s. take ?payload (received ! s)) [0..<W] = map ?enc inputs" .
  have "length (shard_of (pad zero (sp_padded_numel p) xs) r p) = ?k * nat (qw_group_size full_wire)"
    if "xs \<in> set inputs" for xs
    using length_shard_of[of "pad zero (sp_padded_numel p) xs" W p r] g inputs(2)[OF that] r by simp
  then have lens: "\<forall>b \<in> set (map ?enc inputs). length b = ?k * nat ?gb"
    using quantizes_length[OF qz] by auto
  have fits: "?payload \<le> ?stride"
    using align_bounds[of 16 "fte_payload_numel (e r)"] f(6) by (simp add: nat_mono)
  have payload: "?payload = ?k * nat ?gb"
    using g(2)[of ?gb] f(5) by simp
  have "map ?enc inputs \<noteq> []" using r inputs by auto
  note used = requantizesD[OF rq this lens, of "replicate ?stride 0"]
  have "nt_requantize m (linear_args ''Linear'') dtype (int W) (map ?enc inputs) (replicate ?stride 0)
      = Inr (True, write_prefix (rq (map ?enc inputs)) (replicate ?stride 0))" for dtype
    using used(1)[of dtype] fits payload inputs(1) by simp
  moreover have "length (rq (map ?enc inputs)) = ?payload"
    using used(2) fits payload by simp
  ultimately show ?thesis
    using payloads f compile_shard_plan_fields(3)[OF f(1)] m dtype fits
      exec_quant_type_ready[OF c quant_type_linear] take_write_prefix[of "rq (map ?enc inputs)"]
    by (auto simp: full_tensor_reduce_def Let_def p_def[symmetric] shard_payload_def)
qed

text \<open>The second hop: every rank restores the same tensor from the gathered rows.\<close>

lemma full_tensor_exchange:
  fixes low :: "nat \<Rightarrow> lowered_program" and zero :: 'x
  assumes job: "same_job low W full_wire d shape" and ready: "full_kernels_ready status m full_wire d q rq dq"
    and e: "\<And>r. r < W \<Longrightarrow> make_CudaFullTensorExecutable (low r) status = Inr (e r)"
    and inputs: "length inputs = W" "\<And>xs. xs \<in> set inputs \<Longrightarrow> int (length xs) = shape_numel shape"
    and x: "\<And>r. r < W \<Longrightarrow> exchanges (\<lambda>s. full_tensor_send zero (e s) (inputs ! s)) W r (received r)"
    and g: "gathers (\<lambda>r. full_tensor_reduce (e r) (received r)) W gathered" and r: "r < W"
  defines "p \<equiv> fte_plan (e r)"
  shows "full_tensor_writeback junk (e r) gathered
     = Inr (take (nat (shape_numel shape))
         (concat (map (\<lambda>t. dq (shard_payload zero q rq p inputs t)) [0..<W])))"
proof -
  let ?gb = "group_nbytes d full_wire" and ?k = "nat (group_count (sp_shard_numel p) full_wire)"
  let ?payload = "nat (fte_payload_numel (e r))" and ?stride = "nat (fte_payload_stride (e r))"
  note f = full_job_fields[OF job e[OF r] r, folded p_def]
  note n = plan_groups[of _ _ _ full_wire, simplified full_wire_simps, OF f(1) TrueI]
  have c: "codec_ready status m"
    and wb: "writes_back m full_wire ?gb ''Linear'' dtype dq" for dtype
    using ready by (auto simp: full_kernels_ready_def)
  have m: "fte_module (e r) = m"
    using f(7) exec_require_module_ready[OF c] by simp
  obtain dtype where dtype: "exec_dtype m d = Inr dtype"
    using ready by (cases d) (auto simp: full_kernels_ready_def exec_dtype_def)
  have same: "sp_shard_numel (fte_plan (e s)) = sp_shard_numel p"
    "sp_padded_numel (fte_plan (e s)) = sp_padded_numel p"
    "fte_payload_numel (e s) = fte_payload_numel (e r)"
    "fte_payload_stride (e s) = fte_payload_stride (e r)" if "s < W" for s
    using compile_shard_plan_agree[OF f(1) full_job_fields(1)[OF job e[OF that] that]]
      full_job_fields(5,6)[OF job e[OF that] that] f(5,6) by simp_all
  have fits: "?payload \<le> ?stride"
    using align_bounds[of 16 "fte_payload_numel (e r)"] f(6) by (simp add: nat_mono)
  have payload: "?payload = ?k * nat ?gb"
    using n(2)[of ?gb] f(5) by simp
  have rows: "\<exists>b. full_tensor_reduce (e t) (received t) = Inr b \<and> length b = ?stride
      \<and> take ?payload b = shard_payload zero q rq p inputs t" if t: "t < W" for t
    using full_tensor_reduce_eq[OF job ready e inputs t x[OF t]] same[OF t]
    by (auto simp: shard_payload_def shard_of_def)
  have "length gathered = W * ?stride"
  proof -
    obtain bs where bs: "length bs = W" "\<And>t. t < W \<Longrightarrow> full_tensor_reduce (e t) (received t) = Inr (bs ! t)"
      "gathered = concat bs"
      using g by (auto simp: gathers_def)
    have "length b = ?stride" if "b \<in> set bs" for b
      using that bs rows by (metis in_set_conv_nth sum.inject(2))
    then show ?thesis using length_concat_const[of bs ?stride] bs(1,3) by simp
  qed
  moreover have "length (uninitialised junk (sp_padded_numel p)) = W * (?k * nat (qw_group_size full_wire))"
    using n(1,3) by simp
  ultimately have call: "nt_gathered m (wire_args full_wire ''Linear'') dtype (int W) (int (?k * nat ?gb))
      (int ?stride) (int (?k * nat (qw_group_size full_wire))) gathered (uninitialised junk (sp_padded_numel p))
    = Inr (True, concat (map (\<lambda>t. dq (narrow gathered (t * ?stride) (?k * nat ?gb))) [0..<W]))"
    using fits payload by (intro writes_backD[OF wb]) simp_all
  have "map (\<lambda>t. narrow gathered (t * ?stride) ?payload) [0..<W]
      = map (shard_payload zero q rq p inputs) [0..<W]"
    by (rule gathered_payloads[OF g rows fits])
  then have restored: "map (\<lambda>t. dq (narrow gathered (t * ?stride) ?payload)) [0..<W]
      = map (\<lambda>t. dq (shard_payload zero q rq p inputs t)) [0..<W]"
    by simp
  have shard: "0 \<le> sp_shard_numel p"
    using compile_shard_plan_valid[OF f(1)] by (simp add: valid_plan_def)
  moreover have payload_nonneg: "0 \<le> fte_payload_numel (e r)"
    using f(5) group_count_nonneg[OF full_wire_simps(1) shard] group_nbytes_bounds(1)[OF full_wire_simps(1), of d]
    by simp
  moreover from this have "0 \<le> fte_payload_stride (e r)"
    using f(6) align_nonneg[of 16] by simp
  ultimately have ints: "int (?k * nat ?gb) = fte_payload_numel (e r)" "int ?stride = fte_payload_stride (e r)"
    "int (?k * nat (qw_group_size full_wire)) = sp_shard_numel p"
    unfolding payload[symmetric] n(1)[unfolded full_wire_simps, symmetric] full_wire_simps by simp_all
  have "nt_gathered m (linear_args ''Linear'') dtype (int W) (fte_payload_numel (e r))
      (fte_payload_stride (e r)) (sp_shard_numel p) gathered (uninitialised junk (sp_padded_numel p))
    = Inr (True, concat (map (\<lambda>t. dq (shard_payload zero q rq p inputs t)) [0..<W]))"
    using call payload_nonneg
    unfolding ints full_wire_simps(2) payload[symmetric] restored by simp
  then show ?thesis
    using f(3,8) compile_shard_plan_fields(1,3)[OF f(1)] m dtype exec_quant_type_ready[OF c quant_type_linear]
    by (simp add: full_tensor_writeback_def Let_def p_def[symmetric])
qed

section \<open>The reconstruction of one rank\<close>

definition dequantizes ::
    "'x native \<Rightarrow> quantized_wire \<Rightarrow> int \<Rightarrow> string \<Rightarrow> (byte list \<Rightarrow> 'x list) \<Rightarrow> bool" where
  "dequantizes m w gb name dq \<longleftrightarrow>
     (\<forall>k p out. length p = k * nat gb \<longrightarrow> length out = k * nat (qw_group_size w) \<longrightarrow>
        nt_dequantize m (wire_args w name) p out = Inr (dq p) \<and> length (dq p) = length out)"

lemma dequantizesD:
  assumes "dequantizes m w gb name dq" and "length p = k * nat gb"
    and "length out = k * nat (qw_group_size w)"
  shows "nt_dequantize m (wire_args w name) p out = Inr (dq p)"
    and "length (dq p) = k * nat (qw_group_size w)"
  using assms unfolding dequantizes_def by metis+

lemma reconstruct_local_eq:
  assumes c: "codec_ready (fte_status e) m" "quant_type_names (qw_quant_type (fte_wire e)) = Some name"
    and w: "valid_wire (fte_wire e)" and n: "int (length flat) + 64 \<le> 2 ^ 53"
  defines "gb \<equiv> group_nbytes (ctx_dtype (low_context (fte_lowered e))) (fte_wire e)"
  defines "padded \<equiv> align (int (length flat)) (qw_group_size (fte_wire e))"
  assumes qz: "quantizes m (fte_wire e) gb name q" and dq: "dequantizes m (fte_wire e) gb name dq"
  shows "reconstruct_local zero jb jx e flat = Inr (take (length flat) (dq (q (pad zero padded flat))))"
    and "length (take (length flat) (dq (q (pad zero padded flat)))) = length flat"
proof -
  let ?w = "fte_wire e" and ?d = "ctx_dtype (low_context (fte_lowered e))"
  let ?g = "qw_group_size (fte_wire e)" and ?n = "int (length flat)"
  let ?k = "nat (group_count ?n ?w)"
  have g: "0 < ?g" "?g \<le> 64" using w by (auto simp: valid_wire_def)
  have padded: "padded = group_count ?n ?w * ?g"
    unfolding padded_def by (rule group_count_align[OF w])
  have k: "0 \<le> group_count ?n ?w" by (rule group_count_nonneg[OF w]) simp
  have bounds: "?n \<le> padded" "padded < ?n + ?g"
    using align_bounds[OF g(1), of ?n] by (simp_all add: padded_def)
  have "payload_nbytes (PInt padded) (PDataType ?d) (Some ?w) = Inr (group_count ?n ?w * gb)"
    using payload_nbytes_exact[OF w, of padded ?d] bounds n g w
    by (simp add: gb_def group_count_exact[OF w] padded)
  moreover have src: "length (pad zero padded flat) = ?k * nat ?g"
    using bounds(1) k padded by (simp add: nat_mult_distrib)
  have out: "length (uninitialised jb (group_count ?n ?w * gb)) = ?k * nat gb"
    "length (uninitialised jx padded) = ?k * nat ?g"
    using k padded by (simp_all add: nat_mult_distrib)
  have payload: "length (q (pad zero padded flat)) = ?k * nat gb"
    by (rule quantizes_length[OF qz src])
  moreover have "(?n + ?g - 1) div ?g * ?g = padded"
    using g by (simp add: padded_def align_eq)
  ultimately show "reconstruct_local zero jb jx e flat
      = Inr (take (length flat) (dq (q (pad zero padded flat))))"
    using quantize_into_ready[OF c] quantizesD(1)[OF qz src out(1)]
      dequantize_into_ready[OF c] dequantizesD(1)[OF dq payload out(2)]
    by (simp add: reconstruct_local_def Let_def)
  have "length (dq (q (pad zero padded flat))) = nat padded"
    using dequantizesD(2)[OF dq payload out(2)] k padded by (simp add: nat_mult_distrib)
  then show "length (take (length flat) (dq (q (pad zero padded flat)))) = length flat"
    using bounds(1) by simp
qed

end
