(* ===== verification/Cuda_Backend.thy ===== *)
theory Cuda_Backend
  imports Compiler Full_Tensor
begin

text \<open>
  \<open>backends/cuda/backend.py\<close>: lowering to named stages and binding of the executable that
  implements them.  The extension status is taken when the backend is made.
\<close>

definition cuda_capabilities :: "compile_context \<Rightarrow> backend_capabilities res" where
  "cuda_capabilities context =
     make_BackendCapabilities (PStr ''cuda'') {4, 8}
       {''native'', ''compressed_all_gather'', ''compressed_reduce_scatter'', ''compressed_rs_ag''}
       True True"

text \<open>The stages of an algorithm: a name, and whether the stage is a collective.\<close>

fun cuda_stages :: "algorithm \<Rightarrow> (string \<times> bool) list option" where
  "cuda_stages NativeAllReduce = Some [(''native_all_reduce'', True)]"
| "cuda_stages CompressedAllGather = Some
     [(''quantize_full_contribution'', False),
      (''compressed_all_gather'', True),
      (''fused_dequant_reduce_mean'', False)]"
| "cuda_stages CompressedReduceScatter = Some
     [(''quantize_destination_chunks'', False),
      (''quantized_reduce_scatter'', True),
      (''fused_dequant_reduce_mean'', False),
      (''return_reduced_shard'', False)]"
| "cuda_stages CompressedReduceScatterAllGather = Some
     [(''quantize_destination_chunks'', False),
      (''quantized_reduce_scatter'', True),
      (''fused_dequant_reduce_mean_requantize'', False),
      (''quantized_all_gather'', True),
      (''gathered_dequant_writeback'', False)]"
| "cuda_stages AutoAlgorithm = None"
| "cuda_stages (OtherAlgorithm _) = None"

definition cuda_lower ::
    "program \<Rightarrow> compile_context \<Rightarrow> runtime_bindings \<Rightarrow> lowered_program res" where
  "cuda_lower program context bindings =
     (case cuda_stages (prog_algorithm program) of
        None \<Rightarrow> Inl (ValueError ''CUDA backend does not yet lower this algorithm'')
      | Some stages \<Rightarrow>
          rbind (rmap (\<lambda>(name, collective).
                     make_LoweredStage (PStr name) (Some (prog_wire program)) collective) stages)
            (\<lambda>lowered_stages.
              make_LoweredProgram (PStr ''cuda'') program lowered_stages context bindings))"

datatype 'x cuda_executable =
    CudaNativeAllReduce native_executable
  | CudaCompressedAllGather "'x all_gather_executable"
  | CudaReducedShard "'x reduced_shard_executable"
  | CudaFullTensor "'x full_tensor_executable"

definition cuda_compile ::
    "'x native extension_status \<Rightarrow> lowered_program \<Rightarrow> 'x cuda_executable res" where
  "cuda_compile status lowered =
     (case prog_algorithm (low_program lowered) of
        NativeAllReduce \<Rightarrow>
          rbind (make_CudaNativeAllReduceExecutable lowered) (\<lambda>e. Inr (CudaNativeAllReduce e))
      | CompressedAllGather \<Rightarrow>
          rbind (make_CudaCompressedAllGatherExecutable lowered status)
            (\<lambda>e. Inr (CudaCompressedAllGather e))
      | CompressedReduceScatter \<Rightarrow>
          rbind (make_CudaReducedShardExecutable lowered status) (\<lambda>e. Inr (CudaReducedShard e))
      | CompressedReduceScatterAllGather \<Rightarrow>
          rbind (make_CudaFullTensorExecutable lowered status) (\<lambda>e. Inr (CudaFullTensor e))
      | _ \<Rightarrow> Inl (ValueError ''CUDA backend does not yet compile this algorithm''))"

definition CudaBackend :: "'x native extension_status \<Rightarrow> 'x cuda_executable backend" where
  "CudaBackend status =
     \<lparr>be_name = ''cuda'', be_abi_version = 1, be_capabilities = cuda_capabilities,
      be_lower = cuda_lower, be_compile = cuda_compile status\<rparr>"

lemma cuda_name_ok [simp]: "py_strip ''cuda'' = ''cuda''"
  by (rule py_strip_id) (auto simp: py_isspace_def)

lemma cuda_capabilities_eq:
  "cuda_capabilities c = Inr \<lparr>cap_target = ''cuda'', cap_supported_bits = {4, 8},
     cap_supported_algorithms = default_supported_algorithms,
     cap_supports_full_tensor = True, cap_supports_reduced_shard = True\<rparr>"
  by (simp add: cuda_capabilities_def make_BackendCapabilities_def default_supported_algorithms_def)

lemma cuda_stage_names:
  assumes "cuda_stages a = Some stages"
  shows "stages \<noteq> []" and "(name, c) \<in> set stages \<Longrightarrow> py_strip name \<noteq> []"
  using assms by (cases a; auto simp: py_strip_eq_Nil py_isspace_def)+

lemma cuda_lower_eq:
  "cuda_lower p c b =
     (case cuda_stages (prog_algorithm p) of
        None \<Rightarrow> Inl (ValueError ''CUDA backend does not yet lower this algorithm'')
      | Some stages \<Rightarrow> Inr \<lparr>low_target = ''cuda'', low_program = p,
          low_stages = map (\<lambda>(n, col). \<lparr>st_name = n, st_wire = prog_wire p, st_collective = col\<rparr>) stages,
          low_context = c, low_bindings = b\<rparr>)"
proof (cases "cuda_stages (prog_algorithm p)")
  case (Some stages)
  have "rmap (\<lambda>(n, col). make_LoweredStage (PStr n) (Some (prog_wire p)) col) stages
      = Inr (map (\<lambda>(n, col). \<lparr>st_name = n, st_wire = prog_wire p, st_collective = col\<rparr>) stages)"
    using cuda_stage_names(2)[OF Some] by (intro rmap_total) (auto simp: make_LoweredStage_def)
  then show ?thesis
    using cuda_stage_names(1)[OF Some]
    by (simp add: cuda_lower_def Some make_LoweredProgram_def)
qed (simp add: cuda_lower_def)

interpretation cuda: backend_contract "CudaBackend status"
proof
  fix p :: program and c b and low :: lowered_program
  assume "be_lower (CudaBackend status) p c b = Inr low"
  then show "low_target low = be_name (CudaBackend status) \<and> low_program low = p \<and> low_context low = c
      \<and> low_bindings low = b \<and> low_stages low \<noteq> []
      \<and> (\<forall>s \<in> set (low_stages low). st_wire s = prog_wire p)"
    using cuda_stage_names(1)[of "prog_algorithm p"]
    by (auto simp: CudaBackend_def cuda_lower_eq)
next
  fix c
  show "\<exists>cap. be_capabilities (CudaBackend status) c = Inr cap
      \<and> cap_target cap = be_name (CudaBackend status)"
    by (simp add: CudaBackend_def cuda_capabilities_eq)
next
  fix c cap n b and p :: program
  assume "be_capabilities (CudaBackend status) c = Inr cap"
    and "algorithm_name (prog_algorithm p) = Inr n" and "n \<in> cap_supported_algorithms cap"
  then show "\<exists>low. be_lower (CudaBackend status) p c b = Inr low"
    by (cases "prog_algorithm p")
      (auto simp: CudaBackend_def cuda_capabilities_eq cuda_lower_eq
        default_supported_algorithms_def)
qed

text \<open>
  Which programs bind on this target.  A quantised wire is one of the constructor's; the
  extension is only consulted by the compressed algorithms.
\<close>

definition shard_kernel_ready :: "'x native extension_status \<Rightarrow> bool" where
  "shard_kernel_ready status \<longleftrightarrow>
     (\<exists>m. exec_require_module status = Inr m
        \<and> nt_attr m ''inplace_dequantize_reduce_mean'' = Some Callable)"

definition full_kernel_ready :: "'x native extension_status \<Rightarrow> bool" where
  "full_kernel_ready status \<longleftrightarrow>
     (\<exists>m. exec_require_module status = Inr m
        \<and> nt_attr m ''inplace_quantize'' = Some Callable
        \<and> nt_attr m ''inplace_dequantize_reduce_mean_requantize'' = Some Callable
        \<and> nt_attr m ''inplace_dequantize_gathered'' = Some Callable)"

definition cuda_binds :: "'x native extension_status \<Rightarrow> program \<Rightarrow> bool" where
  "cuda_binds status p \<longleftrightarrow>
     (case prog_algorithm p of
        NativeAllReduce \<Rightarrow> True
      | CompressedAllGather \<Rightarrow>
          shard_kernel_ready status \<and> (\<exists>w. prog_wire p = QuantizedWire w)
      | CompressedReduceScatter \<Rightarrow>
          shard_kernel_ready status \<and> (\<exists>w. prog_wire p = QuantizedWire w)
          \<and> is_ReducedShard (prog_output p)
      | CompressedReduceScatterAllGather \<Rightarrow>
          full_kernel_ready status \<and> prog_wire p = QuantizedWire full_wire
          \<and> is_FullTensor (prog_output p)
      | _ \<Rightarrow> False)"

text \<open>The wire and the size of the tensor a context describes are within the exact range.\<close>

definition ordinary_job :: "program \<Rightarrow> compile_context \<Rightarrow> bool" where
  "ordinary_job p c \<longleftrightarrow>
     valid_context c \<and> shape_numel (ctx_shape c) + ctx_world_size c * 64 \<le> 2 ^ 53
     \<and> (\<forall>w. prog_wire p = QuantizedWire w \<longrightarrow> valid_wire w)"

lemma shape_numel_nonneg: "(\<forall>d \<in> set shape. 0 \<le> d) \<Longrightarrow> 0 \<le> shape_numel shape"
proof -
  have "0 \<le> a \<Longrightarrow> (\<forall>d \<in> set shape. 0 \<le> d) \<Longrightarrow> 0 \<le> foldl (*) a shape" for a :: int
    by (induction shape arbitrary: a) auto
  then show "(\<forall>d \<in> set shape. 0 \<le> d) \<Longrightarrow> 0 \<le> shape_numel shape"
    by (simp add: shape_numel_def)
qed

lemma ordinary_shard_payload:
  assumes "ordinary_job p c" and "prog_wire p = QuantizedWire w"
  shows "\<exists>plan nb. compile_shard_plan (shape_numel (ctx_shape c)) (ctx_rank c) (ctx_world_size c)
        (qw_group_size w) = Inr plan
     \<and> payload_nbytes (PInt (sp_shard_numel plan)) (PDataType d) (Some w) = Inr nb"
proof -
  let ?n = "shape_numel (ctx_shape c)" and ?W = "ctx_world_size c" and ?g = "qw_group_size w"
  have w: "valid_wire w" and n: "0 \<le> ?n" and c: "0 \<le> ctx_rank c" "ctx_rank c < ?W"
    and size: "?n + ?W * 64 \<le> 2 ^ 53"
    using assms shape_numel_nonneg by (auto simp: ordinary_job_def valid_context_def)
  obtain plan where plan: "compile_shard_plan ?n (ctx_rank c) ?W ?g = Inr plan"
    using compile_shard_plan_total[OF n c, of ?g] by auto
  have g: "0 < ?g" "?g \<le> 64" using w by (auto simp: valid_wire_def)
  have s: "0 \<le> sp_shard_numel plan"
    using compile_shard_plan_valid[OF plan g(1)] by (simp add: valid_plan_def)
  have "sp_shard_numel plan * 1 \<le> sp_shard_numel plan * ?W"
    using c s by (intro mult_left_mono) auto
  also have "\<dots> < ?n + ?W * ?g"
    using padding_bound[OF plan g(1)] compile_shard_plan_fields(4)[OF plan] by simp
  also have "\<dots> \<le> 2 ^ 53"
  proof -
    have "?W * ?g \<le> ?W * 64" using c g by (intro mult_left_mono) auto
    then show ?thesis using size by linarith
  qed
  finally show ?thesis
    using plan payload_nbytes_exact[OF w s] by auto
qed

lemma cuda_binds_iff:
  assumes "ordinary_job p c" and "cuda_lower p c b = Inr low"
  shows "(\<exists>e. cuda_compile status low = Inr e) \<longleftrightarrow> cuda_binds status p"
proof -
  have low: "low_program low = p" "low_context low = c"
    using assms(2) by (auto simp: cuda_lower_eq split: option.splits)
  have n: "0 \<le> shape_numel (ctx_shape c)" "shape_numel (ctx_shape c) < 2 ^ 53"
    using assms(1) shape_numel_nonneg by (auto simp: ordinary_job_def valid_context_def)
  show ?thesis
  proof (cases "prog_wire p")
    case (QuantizedWire w)
    then have w: "valid_wire w" using assms(1) by (simp add: ordinary_job_def)
    obtain plan nb where plan: "compile_shard_plan (shape_numel (ctx_shape c)) (ctx_rank c)
        (ctx_world_size c) (qw_group_size w) = Inr plan"
      and nb: "payload_nbytes (PInt (sp_shard_numel plan)) (PDataType (ctx_dtype c)) (Some w) = Inr nb"
      using ordinary_shard_payload[OF assms(1) QuantizedWire] by blast
    show ?thesis
      using plan nb payload_nbytes_exact[OF w n, of "ctx_dtype c"] low QuantizedWire
      by (cases "prog_algorithm p"; cases "prog_output p"; cases w)
        (auto simp: cuda_compile_def cuda_binds_def shard_kernel_ready_def full_kernel_ready_def
          make_CudaNativeAllReduceExecutable_def make_CudaCompressedAllGatherExecutable_def
          make_CudaReducedShardExecutable_def make_CudaFullTensorExecutable_def
          wire_attributes_def require_callable_def full_wire_def Let_def)
  qed (use low in \<open>cases "prog_algorithm p"; cases "prog_output p";
      auto simp: cuda_compile_def cuda_binds_def make_CudaNativeAllReduceExecutable_def
        make_CudaCompressedAllGatherExecutable_def make_CudaReducedShardExecutable_def
        make_CudaFullTensorExecutable_def wire_attributes_def Let_def\<close>)+
qed

text \<open>When the compiler returns on the CUDA target.\<close>

lemma cuda_compiles_iff:
  assumes "reg (ctx_device_type c) = Some (CudaBackend status)" and "ordinary_job p c"
  shows "(\<exists>b. compile_program (Some p) (Some c) bindings reg evidence = Inr b) \<longleftrightarrow>
     well_formed p c
     \<and> cuda_binds status (fst (select_effective_program p c (ctx_device_type c) evidence))"
proof -
  let ?q = "fst (select_effective_program p c (ctx_device_type c) evidence)"
  have q: "ordinary_job ?q c"
    using assms(2) by (auto simp: ordinary_job_def select_effective_program_def Let_def)
  have bits: "quantized_bit (prog_wire ?q) = Some b \<Longrightarrow> b \<in> {4, 8}" for b
    using q by (cases "prog_wire ?q") (auto simp: ordinary_job_def valid_wire_def)
  have other: "(\<exists>n. prog_algorithm ?q = OtherAlgorithm n) \<longleftrightarrow> (\<exists>n. prog_algorithm p = OtherAlgorithm n)"
    by (auto simp: select_effective_program_def Let_def)
  have binds: "(\<exists>e. cuda_compile status low = Inr e) \<longleftrightarrow> cuda_binds status ?q"
    if "cuda_lower ?q c bindings = Inr low" for low
    by (rule cuda_binds_iff[OF q that])
  show ?thesis
  proof (cases "cuda_lower ?q c bindings")
    case (Inl e)
    then have "\<not> cuda_binds status ?q"
      by (cases "prog_algorithm ?q") (auto simp: cuda_lower_eq cuda_binds_def)
    then show ?thesis
      using Inl assms(1) by (auto simp: compile_program_Inr_iff CudaBackend_def)
  next
    case (Inr low)
    then have "\<exists>n. algorithm_name (prog_algorithm ?q) = Inr n \<and> n \<in> default_supported_algorithms"
      by (cases "prog_algorithm ?q") (auto simp: cuda_lower_eq default_supported_algorithms_def)
    moreover from this have "\<exists>n. algorithm_name (prog_algorithm p) = Inr n"
      using other by (cases "prog_algorithm p") auto
    ultimately show ?thesis
      using binds[OF Inr] bits Inr assms(1)
      by (auto simp: compile_program_Inr_iff CudaBackend_def cuda_capabilities_eq
          require_supported_Inr_iff)
  qed
qed

section \<open>Properties\<close>

text \<open>C12: what compiles on the CUDA target is what the record of the decision says: the lowered
  program is the selected one, every stage carries the effective wire, the names recorded are
  those of the requested and the lowered algorithm, and the executable bound is the one built
  from that lowered program.\<close>

theorem cuda_compiled_faithful:
  assumes "reg (ctx_device_type c) = Some (CudaBackend status)"
    and "compile_program (Some p) (Some c) bindings reg evidence = Inr bound"
  shows "let low = bd_lowered bound; info = bd_execution_info bound in
     low_program low = fst (select_effective_program p c (ctx_device_type c) evidence)
     \<and> low_target low = ''cuda'' \<and> low_context low = c \<and> low_bindings low = bindings
     \<and> prog_output (low_program low) = prog_output p \<and> prog_operation (low_program low) = prog_operation p
     \<and> low_stages low \<noteq> [] \<and> (\<forall>s \<in> set (low_stages low). st_wire s = ei_effective_wire info)
     \<and> algorithm_name (prog_algorithm p) = Inr (ei_requested_algorithm info)
     \<and> algorithm_name (prog_algorithm (low_program low)) = Inr (ei_effective_algorithm info)
     \<and> cuda_compile status low = Inr (bd_executable bound)"
proof -
  note f = cuda.compiled_faithful[OF assms]
  obtain q reason i where sel: "select_effective_program p c (ctx_device_type c) evidence = (q, reason, i)"
    by (cases "select_effective_program p c (ctx_device_type c) evidence")
  have req: "algorithm_name (prog_algorithm p) = Inr (ei_requested_algorithm (bd_execution_info bound))"
    and low: "be_lower (CudaBackend status) q c bindings = Inr (bd_lowered bound)"
    using assms sel by (auto simp: compile_program_Inr_iff)
  show ?thesis
    using f req select_frame[OF sel] cuda.lower_faithful[OF low]
    by (simp add: Let_def CudaBackend_def sel)
qed


definition no_extension :: "rat native extension_status" where
  "no_extension = \<lparr>cs_available = False, cs_module = None, cs_reason = Some ''x'', cs_abi_version = None\<rparr>"


theorem cuda_compiled_faithful_witness:
  "\<exists>bound. compile_program (Some (sample_program (FullTensor FP16) (FullPrecisionWire FP16) NativeAllReduce))
        (Some (sample_context ''cuda'')) sample_bindings [''cuda'' \<mapsto> CudaBackend no_extension] None = Inr bound
     \<and> ei_effective_algorithm (bd_execution_info bound) = ''native''
     \<and> cuda_compile no_extension (bd_lowered bound) = Inr (bd_executable bound)"
proof -
  let ?p = "sample_program (FullTensor FP16) (FullPrecisionWire FP16) NativeAllReduce"
  have reg: "[''cuda'' \<mapsto> CudaBackend no_extension] (ctx_device_type (sample_context ''cuda''))
      = Some (CudaBackend no_extension)"
    by (simp add: sample_defs)
  have "\<exists>b. compile_program (Some ?p) (Some (sample_context ''cuda'')) sample_bindings
      [''cuda'' \<mapsto> CudaBackend no_extension] None = Inr b"
    by (simp add: compile_program_Inr_iff sample_defs CudaBackend_def cuda_capabilities_eq
        well_formed_def select_effective_program_def require_supported_def cuda_lower_eq cuda_compile_def
        make_CudaNativeAllReduceExecutable_def default_supported_algorithms_def)
  then obtain b where b: "compile_program (Some ?p) (Some (sample_context ''cuda'')) sample_bindings
      [''cuda'' \<mapsto> CudaBackend no_extension] None = Inr b" by blast
  show ?thesis
    using cuda_compiled_faithful[OF reg b] b
    by (auto simp: Let_def sample_defs select_effective_program_def)
qed

end
