(* ===== verification/Cuda_Collectives.thy ===== *)
theory Cuda_Collectives
  imports Full_Tensor
begin

text \<open>
  The properties of the CUDA executables as collectives: what every rank of a job returns,
  against the exact mean of the inputs.  A sample set of kernels, an INT8 codec that rounds
  down to integers, shows that what is asked of the kernels can be had.
\<close>

section \<open>A sample codec\<close>

text \<open>A group of \<open>g\<close> values is packed into \<open>g\<close> bytes and \<open>s\<close> bytes of scale.\<close>

definition sample_q :: "nat \<Rightarrow> nat \<Rightarrow> rat list \<Rightarrow> byte list" where
  "sample_q g s src =
     concat (map (\<lambda>i. map (\<lambda>x. word_of_int \<lfloor>x\<rfloor>) (narrow src (i * g) g) @ replicate s 0)
       [0..<length src div g])"

definition sample_dq :: "nat \<Rightarrow> nat \<Rightarrow> byte list \<Rightarrow> rat list" where
  "sample_dq g s bs =
     concat (map (\<lambda>i. map (\<lambda>b. of_int (uint b)) (narrow bs (i * (g + s)) g))
       [0..<length bs div (g + s)])"

definition sample_red :: "nat \<Rightarrow> nat \<Rightarrow> byte list list \<Rightarrow> rat list" where
  "sample_red g s ps =
     map (mean_at (map (sample_dq g s) ps)) [0..<length (sample_dq g s (hd ps))]"

definition sample_native :: "nat \<Rightarrow> nat \<Rightarrow> rat native" where
  "sample_native g s =
     \<lparr>nt_attr =
        [''inplace_quantize'' \<mapsto> Callable, ''inplace_dequantize'' \<mapsto> Callable,
         ''inplace_dequantize_reduce_mean'' \<mapsto> Callable,
         ''inplace_dequantize_reduce_mean_requantize'' \<mapsto> Callable,
         ''inplace_dequantize_gathered'' \<mapsto> Callable,
         ''QuantType'' \<mapsto> Namespace {''Linear'', ''Normal'', ''Uniform'', ''E3M0'', ''E2M1''},
         ''ReduceOP'' \<mapsto> Namespace {''NONE''}, ''DType'' \<mapsto> Namespace {''FP16'', ''BF16'', ''FP32''}],
      nt_quantize = (\<lambda>_ src _. Inr (sample_q g s src)),
      nt_dequantize = (\<lambda>_ p _. Inr (sample_dq g s p)),
      nt_reduce_mean = (\<lambda>_ _ ps _. Inr (True, sample_red g s ps)),
      nt_requantize = (\<lambda>_ _ _ ps out. Inr (True, write_prefix (sample_q g s (sample_red g s ps)) out)),
      nt_gathered = (\<lambda>_ _ W payload stride _ buffer _.
        Inr (True, concat (map (\<lambda>r. sample_dq g s (narrow buffer (r * nat stride) (nat payload)))
          [0..<nat W])))\<rparr>"

definition sample_status :: "nat \<Rightarrow> nat \<Rightarrow> rat native extension_status" where
  "sample_status g s = \<lparr>cs_available = True, cs_module = Some (sample_native g s),
     cs_reason = None, cs_abi_version = Some 1\<rparr>"

lemma sample_codec_ready: "codec_ready (sample_status g s) (sample_native g s)"
  by (simp add: codec_ready_def sample_status_def sample_native_def)

lemma row_fits: "i < k \<Longrightarrow> i * r + r \<le> k * (r :: nat)"
  using mult_le_mono1[of "Suc i" k r] by simp

lemma length_sample_q:
  assumes "0 < g" and "length src = k * g" shows "length (sample_q g s src) = k * (g + s)"
proof -
  let ?rows = "map (\<lambda>i. map (\<lambda>x. word_of_int \<lfloor>x\<rfloor>) (narrow src (i * g) g) @ replicate s (0 :: byte)) [0..<k]"
  have "length x = g + s" if "x \<in> set ?rows" for x
    using that assms(2) row_fits[of _ k g] by auto
  then show ?thesis
    using assms length_concat_const[of ?rows "g + s"] by (simp add: sample_q_def)
qed

lemma length_sample_dq:
  assumes "0 < g" and "length p = k * (g + s)" shows "length (sample_dq g s p) = k * g"
proof -
  let ?rows = "map (\<lambda>i. map (\<lambda>b. of_int (uint b) :: rat) (narrow p (i * (g + s)) g)) [0..<k]"
  have "i < k \<Longrightarrow> i * (g + s) + g \<le> k * (g + s)" for i
    using row_fits[of i k "g + s"] by simp
  then have "length x = g" if "x \<in> set ?rows" for x
    using that assms(2) by auto
  then show ?thesis
    using assms length_concat_const[of ?rows g] by (simp add: sample_dq_def del: of_int_uint)
qed

lemma length_sample_red:
  assumes "0 < g" and "ps \<noteq> []" and "\<And>p. p \<in> set ps \<Longrightarrow> length p = k * (g + s)"
  shows "length (sample_red g s ps) = k * g"
  using assms length_sample_dq[of g "hd ps" k s] by (simp add: sample_red_def)

lemma nth_concat_rows:
  assumes "\<And>x. x \<in> set xss \<Longrightarrow> length x = s" and "i < length xss" and "j < s"
  shows "concat xss ! (i * s + j) = xss ! i ! j"
proof -
  have "Suc i * s \<le> length xss * s" using assms(2) by (intro mult_le_mono1) simp
  then have "i * s + j < length (concat xss)"
    using length_concat_const[of xss s] assms(1,3) by simp
  then have "narrow (concat xss) (i * s) s ! j = concat xss ! (i * s + j)"
    using assms(3) by (simp add: narrow_def)
  then show ?thesis using narrow_concat[of xss s i] assms(1,2) by simp
qed

text \<open>The sample codec rounds every byte-sized value down.\<close>

lemma sample_roundtrip:
  assumes g: "0 < g" and len: "length src = k * g" and j: "j < k * g"
    and byte: "0 \<le> src ! j" "src ! j < 256"
  shows "sample_dq g s (sample_q g s src) ! j = of_int \<lfloor>src ! j\<rfloor>"
proof -
  let ?rows = "map (\<lambda>i. map (\<lambda>x. word_of_int \<lfloor>x\<rfloor> :: byte) (narrow src (i * g) g) @ replicate s 0) [0..<k]"
  let ?i = "j div g" and ?r = "j mod g"
  have i: "?i < k" and r: "?r < g" and ij: "?i * g + ?r = j"
    using g j by (simp_all add: less_mult_imp_div_less)
  note fit = row_fits[of _ k g]
  have q: "sample_q g s src = concat ?rows"
    using len g by (simp add: sample_q_def)
  have rows: "length x = g + s" if "x \<in> set ?rows" for x
    using that fit len by auto
  have row: "narrow (concat ?rows) (i * (g + s)) g = map (\<lambda>x. word_of_int \<lfloor>x\<rfloor>) (narrow src (i * g) g)"
    if "i < k" for i
    using narrow_prefix[of ?rows "g + s" i g] rows that fit[OF that] len by simp
  have n: "length (concat ?rows) div (g + s) = k"
    using length_concat_const[of ?rows "g + s"] rows g by simp
  have dq: "sample_dq g s (concat ?rows)
      = concat (map (\<lambda>i. map (\<lambda>x. of_int (uint (word_of_int \<lfloor>x\<rfloor> :: byte))) (narrow src (i * g) g)) [0..<k])"
    unfolding sample_dq_def n by (intro arg_cong[where f = concat] map_cong refl) (simp add: row)
  have "sample_dq g s (concat ?rows) ! (?i * g + ?r)
      = map (\<lambda>x. of_int (uint (word_of_int \<lfloor>x\<rfloor> :: byte))) (narrow src (?i * g) g) ! ?r"
    unfolding dq using i r fit len
    by (subst nth_concat_rows[where s = g]) auto
  also have "\<dots> = of_int (uint (word_of_int \<lfloor>src ! j\<rfloor> :: byte))"
  proof -
    have "?i * g \<le> length src" using fit[OF i] len by linarith
    then have d: "drop (?i * g) src ! ?r = src ! j"
      using ij by (metis nth_drop)
    have "?r < length (narrow src (?i * g) g)" using r fit[OF i] len by simp
    then have "map (\<lambda>x. of_int (uint (word_of_int \<lfloor>x\<rfloor> :: byte)) :: rat) (narrow src (?i * g) g) ! ?r
        = of_int (uint (word_of_int \<lfloor>narrow src (?i * g) g ! ?r\<rfloor> :: byte))"
      by (rule nth_map)
    moreover have "narrow src (?i * g) g ! ?r = src ! j"
      unfolding narrow_def using r d by (simp only: nth_take)
    ultimately show ?thesis by simp
  qed
  also have "uint (word_of_int \<lfloor>src ! j\<rfloor> :: byte) = \<lfloor>src ! j\<rfloor>"
    using byte by (simp add: uint_word_of_int floor_less_iff)
  finally show ?thesis by (simp add: q ij)
qed

lemma sample_near:
  assumes "0 < g" and "length src = k * g" and "n \<le> k * g" and "\<And>x. x \<in> set src \<Longrightarrow> 0 \<le> x \<and> x < 256"
  shows "near n 1 (sample_dq g s (sample_q g s src)) src"
proof -
  have "\<bar>of_int \<lfloor>x\<rfloor> - x\<bar> \<le> 1" for x :: rat
    using of_int_floor_le[of x] floor_correct[of x] by (simp add: abs_le_iff)
  then show ?thesis
    using assms sample_roundtrip[OF assms(1,2)] by (simp add: near_def)
qed

lemma sample_averages: "averages (sample_dq g s) (sample_red g s)"
  by (simp add: averages_def sample_red_def)

lemma sample_kernels:
  assumes "nat (qw_group_size w) = g" and "0 < g" and "nat gb = g + s"
  shows "quantizes (sample_native g s) w gb name (sample_q g s)"
    and "dequantizes (sample_native g s) w gb name (sample_dq g s)"
    and "reduces (sample_native g s) w gb name (sample_red g s)"
    and "requantizes (sample_native g s) w gb name dtype (\<lambda>ps. sample_q g s (sample_red g s ps))"
    and "writes_back (sample_native g s) w gb name dtype (sample_dq g s)"
  using assms length_sample_q[OF assms(2)] length_sample_dq[OF assms(2)] length_sample_red[OF assms(2)]
  by (simp_all add: quantizes_def dequantizes_def reduces_def requantizes_def writes_back_def
      sample_native_def del: of_nat_mult of_nat_add)

section \<open>Shards of a padded tensor\<close>

lemma shard_element:
  assumes plan: "compile_shard_plan n (int r) (int W) (qw_group_size w) = Inr p" and w: "valid_wire w"
    and len: "int (length xs) = n" and r: "r < W"
    and i: "i < nat (sp_shard_numel p)" "r * nat (sp_shard_numel p) + i < length xs"
  shows "shard_of (pad zero (sp_padded_numel p) xs) r p ! i = xs ! (r * nat (sp_shard_numel p) + i)"
proof -
  note g = plan_groups[OF plan w]
  have "length (pad zero (sp_padded_numel p) xs) = nat (sp_padded_numel p)"
    using g(4) len by simp
  then have "r * nat (sp_shard_numel p) + i < length (pad zero (sp_padded_numel p) xs)"
    using i(2) g(4) len by linarith
  then show ?thesis
    using i by (simp add: nth_shard_of nth_pad)
qed

lemma mean_at_shards:
  assumes plan: "compile_shard_plan n (int r) (int W) (qw_group_size w) = Inr p" and w: "valid_wire w"
    and len: "\<And>xs. xs \<in> set inputs \<Longrightarrow> int (length xs) = n" and r: "r < W"
    and i: "i < nat (sp_shard_numel p)" "r * nat (sp_shard_numel p) + i < nat n"
  shows "mean_at (map (\<lambda>xs. shard_of (pad zero (sp_padded_numel p) xs) r p) inputs) i
    = mean_at inputs (r * nat (sp_shard_numel p) + i)"
proof -
  have "shard_of (pad zero (sp_padded_numel p) xs) r p ! i = xs ! (r * nat (sp_shard_numel p) + i)"
    if "xs \<in> set inputs" for xs
    using shard_element[OF plan w len[OF that] r i(1)] i(2) len[OF that] by auto
  then show ?thesis
    by (simp add: mean_at_def column_sum_def o_def cong: map_cong)
qed

text \<open>The mean a rank computes from the encoded shards, against the exact mean.\<close>

lemma shard_mean_within:
  assumes plan: "compile_shard_plan n (int r) (int W) (qw_group_size w) = Inr p" and w: "valid_wire w"
    and len: "\<And>xs. xs \<in> set inputs \<Longrightarrow> int (length xs) = n" "inputs \<noteq> []" and r: "r < W"
    and avg: "averages dq red"
    and near: "\<And>xs. xs \<in> set inputs \<Longrightarrow> near (nat (sp_shard_numel p)) \<delta>
      (dq (q (shard_of (pad zero (sp_padded_numel p) xs) r p))) (shard_of (pad zero (sp_padded_numel p) xs) r p)"
    and red: "length (red (map (\<lambda>xs. q (shard_of (pad zero (sp_padded_numel p) xs) r p)) inputs)) = nat (sp_shard_numel p)"
    and i: "i < nat (sp_shard_numel p)" "r * nat (sp_shard_numel p) + i < nat n"
  shows "\<bar>red (map (\<lambda>xs. q (shard_of (pad zero (sp_padded_numel p) xs) r p)) inputs) ! i
      - mean_at inputs (r * nat (sp_shard_numel p) + i)\<bar> \<le> \<delta>"
proof -
  have "\<bar>red (map (\<lambda>xs. q (shard_of (pad zero (sp_padded_numel p) xs) r p)) inputs) ! i
      - mean_at (map (\<lambda>xs. shard_of (pad zero (sp_padded_numel p) xs) r p) inputs) i\<bar> \<le> \<delta>"
    (is "\<bar>_ - ?m\<bar> \<le> _")
    by (rule decoded_mean_within[OF avg len(2) _ i(1) near]) (use red i(1) in simp_all)
  moreover have "?m = mean_at inputs (r * nat (sp_shard_numel p) + i)"
    by (rule mean_at_shards[OF plan w len(1) r i])
  ultimately show ?thesis by (simp only:)
qed

section \<open>What every rank returns\<close>

lemma reduces_length:
  "reduces m w gb name red \<Longrightarrow> ps \<noteq> [] \<Longrightarrow> (\<And>p. p \<in> set ps \<Longrightarrow> length p = k * nat gb) \<Longrightarrow>
     length (red ps) = k * nat (qw_group_size w)"
  using reducesD(2)[of m w gb name red ps k "replicate (k * nat (qw_group_size w)) undefined"] by simp

text \<open>A padded tensor fills whole groups, and its payload is as long as the plan says.\<close>

lemma padded_payload:
  assumes w: "valid_wire w" and "quantizes m w gb name q" and "int (length xs) = n"
  shows "length (q (pad zero (group_count n w * qw_group_size w) xs)) = nat (group_count n w) * nat gb"
    and "n \<le> group_count n w * qw_group_size w"
proof -
  show le: "n \<le> group_count n w * qw_group_size w"
    using align_bounds[of "qw_group_size w" n] w by (simp add: group_count_align valid_wire_group_pos)
  have "0 \<le> group_count n w" using group_count_nonneg[OF w, of n] assms(3) by simp
  then show "length (q (pad zero (group_count n w * qw_group_size w) xs)) = nat (group_count n w) * nat gb"
    using le assms(3) by (intro quantizes_length[OF assms(2)]) (simp add: nat_mult_distrib)
qed

text \<open>A native all-reduce returns, on every rank, the exact elementwise mean of the ranks'
  tensors, whichever reduction the program names.\<close>

lemma native_all_reduce_mean:
  assumes "make_CudaNativeAllReduceExecutable low = Inr e"
    and "ctx_world_size (low_context low) = int (length inputs)" and "all_reduced inputs buffer"
  shows "native_finish e buffer = map (mean_at inputs) [0..<length buffer]"
proof -
  have "ctx_world_size (low_context (ne_lowered e)) = int (length inputs)"
    using assms(1,2) by (auto simp: make_CudaNativeAllReduceExecutable_def)
  then show ?thesis
    using native_finish_mean[of e inputs buffer] assms(3) by (intro nth_equalityI) simp_all
qed

definition sample_low :: "output_type \<Rightarrow> wire \<Rightarrow> algorithm \<Rightarrow> nat \<Rightarrow> lowered_program" where
  "sample_low out w a r =
     \<lparr>low_target = ''cuda'',
      low_program = \<lparr>prog_operation = ReduceSum, prog_output = out, prog_wire = w, prog_algorithm = a,
        prog_async_op = True, prog_error_feedback = EF_NONE\<rparr>,
      low_stages = [\<lparr>st_name = ''s'', st_wire = w, st_collective = True\<rparr>],
      low_context = \<lparr>ctx_rank = int r, ctx_world_size = 2, ctx_shape = [3], ctx_dtype = FP16,
        ctx_device_type = ''cuda'', ctx_device_architecture = ''a'', ctx_topology_signature = ''t'',
        ctx_layout_generation = 0, ctx_workspace_budget_bytes = None\<rparr>,
      low_bindings = \<lparr>rb_process_group = PNone, rb_backend_runtime = PNone,
        rb_stream_provider = PNone, rb_allocator = PNone\<rparr>\<rparr>"


text \<open>Two ranks, three elements each, on the sample codec.\<close>

definition sample_inputs :: "rat list list" where
  "sample_inputs = [[2, 4, 7], [4, 6, 1]]"

abbreviation sample_wire :: wire where "sample_wire \<equiv> QuantizedWire full_wire"

lemma sample_group: "group_nbytes FP16 full_wire = 66"
  by (simp add: group_nbytes_def full_wire_def dtype_bytes_def)

lemma sample_job: "same_job (sample_low out sample_wire a) 2 full_wire FP16 [3]"
  by (simp add: same_job_def sample_low_def shape_numel_def)

lemma sample_kernels_64:
  "kernels_ready (sample_status 64 2) (sample_native 64 2) full_wire FP16 (sample_q 64 2) (sample_red 64 2)"
  "full_kernels_ready (sample_status 64 2) (sample_native 64 2) full_wire FP16 (sample_q 64 2)
     (\<lambda>ps. sample_q 64 2 (sample_red 64 2 ps)) (sample_dq 64 2)"
  using sample_kernels[of full_wire 64 66 2]
  by (simp_all add: kernels_ready_def full_kernels_ready_def sample_codec_ready sample_group
      sample_native_def[THEN arg_cong, of nt_attr])

lemma sample_inputs_length: "xs \<in> set sample_inputs \<Longrightarrow> length xs = 3"
  by (auto simp: sample_inputs_def)

lemma sample_group_count: "group_count 3 full_wire = 1"
  by (simp add: group_count_def full_wire_def)

lemma sample_make_all_gather:
  "\<exists>e. make_CudaCompressedAllGatherExecutable (sample_low out sample_wire a r) (sample_status 64 2) = Inr e"
  using payload_nbytes_exact[of full_wire 3 FP16]
  by (simp add: make_CudaCompressedAllGatherExecutable_def exec_require_module_def sample_status_def
      require_callable_def sample_native_def sample_low_def wire_attributes_def shape_numel_def Let_def)

lemma sample_near_inputs:
  assumes "xs \<in> set sample_inputs"
  shows "near (length xs) 1 (sample_dq 64 2 (sample_q 64 2 (pad 0 64 xs))) xs"
proof -
  have n: "length xs = 3" using assms by (rule sample_inputs_length)
  have "x \<in> set (pad 0 64 xs) \<Longrightarrow> 0 \<le> x \<and> x < 256" for x
    using assms by (auto simp: sample_inputs_def pad_def split: if_splits)
  then have "near 3 1 (sample_dq 64 2 (sample_q 64 2 (pad 0 64 xs))) (pad 0 64 xs)"
    using n by (intro sample_near[where k = 1]) simp_all
  then show ?thesis using n by (simp add: near_def pad_def nth_append)
qed


section \<open>The reduced shard\<close>


lemma sample_plan:
  "compile_shard_plan 3 (int r) 2 64 = Inr p \<Longrightarrow> sp_shard_numel p = 64 \<and> sp_padded_numel p = 128"
  by (auto simp: compile_shard_plan_def Let_def split: if_splits)

lemma sample_make_reduced_shard:
  assumes "r < 2"
  shows "\<exists>e. make_CudaReducedShardExecutable (sample_low (ReducedShard FP16 0) sample_wire a r)
      (sample_status 64 2) = Inr e"
proof -
  obtain p where p: "compile_shard_plan 3 (int r) 2 64 = Inr p"
    using compile_shard_plan_total[of 3 "int r" 2 64] assms by auto
  then show ?thesis
    using payload_nbytes_exact[of full_wire 64 FP16] sample_plan[OF p]
    by (simp add: make_CudaReducedShardExecutable_def exec_require_module_def sample_status_def
        require_callable_def sample_native_def sample_low_def wire_attributes_def shape_numel_def Let_def)
qed

text \<open>The sample codec on a shard of a sample input.\<close>

lemma sample_near_shard:
  assumes xs: "xs \<in> set sample_inputs" and p: "sp_shard_numel p = 64" and r: "r < 2"
  shows "near 64 1 (sample_dq 64 2 (sample_q 64 2 (shard_of (pad 0 128 xs) r p))) (shard_of (pad 0 128 xs) r p)"
proof -
  have len: "length (pad 0 128 xs) = 2 * nat (sp_shard_numel p)"
    using sample_inputs_length[OF xs] p by simp
  have "x \<in> set (shard_of (pad 0 128 xs) r p) \<Longrightarrow> 0 \<le> x \<and> x < 256" for x
    using xs by (auto simp: sample_inputs_def pad_def shard_of_def narrow_def
        dest!: in_set_takeD in_set_dropD split: if_splits)
  then show ?thesis
    using length_shard_of[OF len r] p by (intro sample_near[where k = 1]) simp_all
qed


section \<open>The full tensor over two quantised hops\<close>

lemma compile_shard_plan_rank:
  "compile_shard_plan n r W g = Inr p \<Longrightarrow> 0 \<le> r' \<Longrightarrow> r' < W \<Longrightarrow>
     compile_shard_plan n r' W g = Inr (p\<lparr>sp_rank := r'\<rparr>)"
  by (cases p) (auto simp: compile_shard_plan_def Let_def split: if_splits)

lemma shard_of_rank [simp]: "shard_of padded t (p\<lparr>sp_rank := r\<rparr>) = shard_of padded t p"
  by (simp add: shard_of_def)

text \<open>The same tensor, whichever rank's plan it is written with.\<close>

lemma shard_payload_agree:
  assumes "compile_shard_plan n r W g = Inr p" and "compile_shard_plan n r' W g = Inr p'"
  shows "shard_payload zero q rq p' inputs = shard_payload zero q rq p inputs"
  using compile_shard_plan_agree[OF assms] by (intro ext) (simp add: shard_payload_def shard_of_def)

lemma full_tensor_agree:
  fixes low :: "nat \<Rightarrow> lowered_program" and zero :: 'x
  assumes job: "same_job low W full_wire d shape" and ready: "full_kernels_ready status m full_wire d q rq dq"
    and e: "\<And>r. r < W \<Longrightarrow> make_CudaFullTensorExecutable (low r) status = Inr (e r)"
    and inputs: "length inputs = W" "\<And>xs. xs \<in> set inputs \<Longrightarrow> int (length xs) = shape_numel shape"
    and x: "\<And>r. r < W \<Longrightarrow> exchanges (\<lambda>s. full_tensor_send zero (e s) (inputs ! s)) W r (received r)"
    and g: "gathers (\<lambda>r. full_tensor_reduce (e r) (received r)) W gathered" and r: "r < W"
  shows "full_tensor_writeback junk (e r) gathered
     = Inr (take (nat (shape_numel shape))
         (concat (map (\<lambda>t. dq (shard_payload zero q rq (fte_plan (e 0)) inputs t)) [0..<W])))"
proof -
  have "0 < W" using r by simp
  note same = shard_payload_agree[OF full_job_fields(1)[OF job e[OF this] this] full_job_fields(1)[OF job e[OF r] r]]
  show ?thesis
    using full_tensor_exchange[OF job ready e inputs x g r, of junk]
      same[of zero q rq inputs] by simp
qed

lemma concat_shards_within:
  assumes rows: "\<And>t. t < W \<Longrightarrow> length (f t) = S" and n: "n \<le> W * S"
    and near: "\<And>t i. t < W \<Longrightarrow> i < S \<Longrightarrow> t * S + i < n \<Longrightarrow> \<bar>f t ! i - g (t * S + i)\<bar> \<le> (\<delta> :: rat)"
  shows "length (take n (concat (map f [0..<W]))) = n"
    and "near n \<delta> (take n (concat (map f [0..<W]))) (map g [0..<n])"
proof -
  have len: "length x = S" if "x \<in> set (map f [0..<W])" for x
    using that rows by auto
  show "length (take n (concat (map f [0..<W]))) = n"
    using length_concat_const[of "map f [0..<W]" S] len n by simp
  have "\<bar>concat (map f [0..<W]) ! j - g j\<bar> \<le> \<delta>" if j: "j < n" for j
  proof -
    have S: "0 < S" using j n by (cases S) auto
    let ?t = "j div S" and ?i = "j mod S"
    have t: "?t < W" and i: "?i < S" and ji: "?t * S + ?i = j"
      using S j n by (simp_all add: less_mult_imp_div_less)
    have "concat (map f [0..<W]) ! j = f ?t ! ?i"
      using nth_concat_rows[of "map f [0..<W]" S ?t ?i] len t i ji by simp
    then show ?thesis using near[OF t i] ji j by simp
  qed
  then show "near n \<delta> (take n (concat (map f [0..<W]))) (map g [0..<n])"
    by (simp add: near_def)
qed

text \<open>The sizes along the two-hop path: the payloads a rank collects, their reduction and the row
  the rank sends back.\<close>

lemma full_tensor_lengths:
  fixes inputs :: "'x list list" and p :: shard_plan and zero :: 'x and q :: "'x list \<Rightarrow> byte list"
  defines "encs \<equiv> \<lambda>t. map (\<lambda>xs. q (shard_of (pad zero (sp_padded_numel p) xs) t p)) inputs"
  assumes plan: "compile_shard_plan n 0 (int W) (qw_group_size full_wire) = Inr p" and t: "t < W"
    and ready: "full_kernels_ready status m full_wire d q (\<lambda>ps. q (red ps)) dq"
    and inputs: "inputs \<noteq> []" "\<And>xs. xs \<in> set inputs \<Longrightarrow> int (length xs) = n"
    and red: "\<And>ps. ps \<noteq> [] \<Longrightarrow> length (red ps) = length (dq (hd ps))"
  shows "length (red (encs t)) = nat (sp_shard_numel p)"
    and "length (dq (shard_payload zero q (\<lambda>ps. q (red ps)) p inputs t)) = nat (sp_shard_numel p)"
proof -
  let ?gb = "group_nbytes d full_wire" and ?k = "nat (group_count (sp_shard_numel p) full_wire)"
  note groups = plan_groups[OF plan full_wire_simps(1)]
  have qz: "quantizes m full_wire ?gb ''Linear'' q"
    and rq: "requantizes m full_wire ?gb ''Linear'' dtype (\<lambda>ps. q (red ps))"
    and wb: "writes_back m full_wire ?gb ''Linear'' dtype dq" for dtype
    using ready by (auto simp: full_kernels_ready_def)
  have encs: "length b = ?k * nat ?gb" if b: "b \<in> set (encs t)" for b
  proof -
    obtain xs where xs: "xs \<in> set inputs" and b: "b = q (shard_of (pad zero (sp_padded_numel p) xs) t p)"
      using b by (auto simp: encs_def)
    have "length (shard_of (pad zero (sp_padded_numel p) xs) t p) = ?k * nat (qw_group_size full_wire)"
      using length_shard_of[of "pad zero (sp_padded_numel p) xs" W p t] groups inputs(2)[OF xs] t
      by simp
    then show ?thesis using quantizes_length[OF qz] b by simp
  qed
  have ne: "encs t \<noteq> []" using inputs(1) by (simp add: encs_def)
  then have "length (dq (hd (encs t))) = ?k * nat (qw_group_size full_wire)"
    by (intro writes_back_length[OF wb] encs hd_in_set)
  then show "length (red (encs t)) = nat (sp_shard_numel p)" using red[OF ne] groups(1) by simp
  have "length (q (red (encs t))) = ?k * nat ?gb"
    using requantizesD(2)[OF rq ne, of ?k "replicate (?k * nat ?gb) 0"] encs by auto
  then show "length (dq (shard_payload zero q (\<lambda>ps. q (red ps)) p inputs t)) = nat (sp_shard_numel p)"
    using writes_back_length[OF wb, of _ ?k] groups(1) by (simp add: shard_payload_def encs_def)
qed

text \<open>What the two-hop path computes, for the compiled jobs as well.\<close>

lemma full_tensor_mean:
  fixes low :: "nat \<Rightarrow> lowered_program"
  assumes job: "same_job low W full_wire d shape" and W: "0 < W"
    and ready: "full_kernels_ready status m full_wire d q (\<lambda>ps. q (red ps)) dq"
    and e: "\<And>r. r < W \<Longrightarrow> make_CudaFullTensorExecutable (low r) status = Inr (e r)"
    and inputs: "length inputs = W" "\<And>xs. xs \<in> set inputs \<Longrightarrow> int (length xs) = shape_numel shape"
    and x: "\<And>r. r < W \<Longrightarrow> exchanges (\<lambda>s. full_tensor_send zero (e s) (inputs ! s)) W r (received r)"
    and g: "gathers (\<lambda>r. full_tensor_reduce (e r) (received r)) W gathered"
    and avg: "averages dq red" "\<And>ps. ps \<noteq> [] \<Longrightarrow> length (red ps) = length (dq (hd ps))"
    and near: "\<And>xs t. xs \<in> set inputs \<Longrightarrow> t < W \<Longrightarrow> near (nat (sp_shard_numel (fte_plan (e 0)))) \<delta>
      (dq (q (shard_of (pad zero (sp_padded_numel (fte_plan (e 0))) xs) t (fte_plan (e 0)))))
      (shard_of (pad zero (sp_padded_numel (fte_plan (e 0))) xs) t (fte_plan (e 0)))"
      "\<And>t. t < W \<Longrightarrow> near (nat (sp_shard_numel (fte_plan (e 0)))) \<epsilon>
        (dq (shard_payload zero q (\<lambda>ps. q (red ps)) (fte_plan (e 0)) inputs t))
        (red (map (\<lambda>xs. q (shard_of (pad zero (sp_padded_numel (fte_plan (e 0))) xs) t (fte_plan (e 0)))) inputs))"
  shows "\<exists>out. (\<forall>r < W. full_tensor_writeback (junk r) (e r) gathered = Inr out)
     \<and> int (length out) = shape_numel shape
     \<and> near (length out) (\<delta> + \<epsilon>) out (map (mean_at inputs) [0..<length out])"
proof -
  let ?p = "fte_plan (e 0)" and ?n = "nat (shape_numel shape)" and ?S = "nat (sp_shard_numel (fte_plan (e 0)))"
  let ?encs = "\<lambda>t. map (\<lambda>xs. q (shard_of (pad zero (sp_padded_numel ?p) xs) t ?p)) inputs"
  let ?f = "\<lambda>t. dq (shard_payload zero q (\<lambda>ps. q (red ps)) ?p inputs t)"
  have ne: "inputs \<noteq> []" using inputs(1) W by auto
  have n0: "0 \<le> shape_numel shape" using job by (simp add: same_job_def)
  note fields = full_job_fields(1)[OF job e[OF W] W]
  have plan: "compile_shard_plan (shape_numel shape) (int t) (int W) (qw_group_size full_wire)
      = Inr (?p\<lparr>sp_rank := int t\<rparr>)" if "t < W" for t
    using compile_shard_plan_rank[OF fields] that by simp
  note groups = plan_groups[OF plan[OF W] full_wire_simps(1)]
  have "compile_shard_plan (shape_numel shape) 0 (int W) (qw_group_size full_wire) = Inr ?p"
    using fields by simp
  note lens = full_tensor_lengths[OF this _ ready ne inputs(2) avg(2), where zero = zero]
  note red_len = lens(1) and row_len = lens(2)
  have within: "\<bar>?f t ! i - mean_at inputs (t * ?S + i)\<bar> \<le> \<delta> + \<epsilon>"
    if t: "t < W" and i: "i < ?S" and j: "t * ?S + i < ?n" for t i
  proof -
    have "\<bar>red (?encs t) ! i - mean_at inputs (t * ?S + i)\<bar> \<le> \<delta>"
      using shard_mean_within[OF plan[OF t] full_wire_simps(1) inputs(2) ne t avg(1),
          where zero = zero and \<delta> = \<delta> and q = q and i = i]
        near(1)[OF _ t] red_len[OF t] i j by simp
    moreover have "\<bar>?f t ! i - red (?encs t) ! i\<bar> \<le> \<epsilon>"
      using near(2)[OF t] i by (simp add: near_def)
    ultimately show ?thesis by linarith
  qed
  have n: "?n \<le> W * ?S" using nat_mono[OF groups(4)] groups(3) by simp
  let ?out = "take ?n (concat (map ?f [0..<W]))"
  have len: "length ?out = ?n"
    by (rule concat_shards_within(1)[where S = ?S, OF row_len n within])
  have close: "near ?n (\<delta> + \<epsilon>) ?out (map (mean_at inputs) [0..<?n])"
    by (rule concat_shards_within(2)[where S = ?S, OF row_len n within])
  have "\<forall>r < W. full_tensor_writeback (junk r) (e r) gathered = Inr ?out"
    using full_tensor_agree[OF job ready e inputs x g] by blast
  moreover have "int (length ?out) = shape_numel shape"
    using n0 by (simp only: len int_nat_eq if_True)
  moreover have "near (length ?out) (\<delta> + \<epsilon>) ?out (map (mean_at inputs) [0..<length ?out])"
    using close by (simp only: len)
  ultimately show ?thesis by (intro exI[of _ ?out] conjI)
qed


text \<open>The sample kernels on the sample inputs: decoded bytes average to values a byte can hold.\<close>

lemma sample_dq_range: "x \<in> set (sample_dq g s p) \<Longrightarrow> 0 \<le> x \<and> x \<le> 255"
proof -
  assume "x \<in> set (sample_dq g s p)"
  then obtain b :: byte where "x = of_int (uint b)" by (auto simp: sample_dq_def simp del: of_int_uint)
  moreover have "0 \<le> uint b" "uint b \<le> 255"
    using uint_lt2p[of b] by simp_all
  ultimately show ?thesis by (simp del: of_int_uint)
qed

lemma mean_at_range:
  assumes "xss \<noteq> []" and "\<And>xs. xs \<in> set xss \<Longrightarrow> 0 \<le> xs ! i \<and> xs ! i \<le> (2 * c :: rat)"
  shows "0 \<le> mean_at xss i \<and> mean_at xss i \<le> 2 * c"
proof -
  have "\<bar>mean_at (map (\<lambda>xs. xs) xss) i - mean_at (map (\<lambda>_. replicate (Suc i) c) xss) i\<bar> \<le> c"
    using assms(2) by (intro mean_within[OF assms(1)]) (force simp: abs_le_iff simp del: replicate_Suc)
  moreover have "mean_at (map (\<lambda>_. replicate (Suc i) c) xss) i = c"
    using assms(1) by (simp add: mean_at_def column_sum_def o_def sum_list_triv del: replicate_Suc)
  ultimately show ?thesis by (simp add: abs_le_iff)
qed

lemma sample_red_near:
  assumes g: "0 < g" and ps: "ps \<noteq> []" and len: "\<And>p. p \<in> set ps \<Longrightarrow> length p = k * (g + s)"
  shows "near (k * g) 1 (sample_dq g s (sample_q g s (sample_red g s ps))) (sample_red g s ps)"
proof (intro sample_near[OF g length_sample_red[OF g ps len]])
  fix x assume "x \<in> set (sample_red g s ps)"
  then obtain i where x: "x = mean_at (map (sample_dq g s) ps) i" and i: "i < length (sample_dq g s (hd ps))"
    by (auto simp: sample_red_def)
  have mem: "sample_dq g s p ! i \<in> set (sample_dq g s p)" if "p \<in> set ps" for p
    using i length_sample_dq[OF g len[OF that]] length_sample_dq[OF g len[OF hd_in_set[OF ps]]] by simp
  have "0 \<le> sample_dq g s p ! i \<and> sample_dq g s p ! i \<le> 2 * (255 / 2)" if "p \<in> set ps" for p
    using sample_dq_range[OF mem[OF that]] by simp
  then have "0 \<le> x \<and> x \<le> 2 * (255 / 2)"
    unfolding x using ps by (intro mean_at_range) auto
  then show "0 \<le> x \<and> x < 256" by simp
qed simp_all

lemma sample_make_full_tensor:
  assumes "r < 2"
  shows "\<exists>e. make_CudaFullTensorExecutable (sample_low (FullTensor FP16) sample_wire a r)
      (sample_status 64 2) = Inr e"
proof -
  obtain p where p: "compile_shard_plan 3 (int r) 2 64 = Inr p"
    using compile_shard_plan_total[of 3 "int r" 2 64] assms by auto
  moreover have "qw_bit full_wire = 8" "\<not> qw_compact full_wire" by (simp_all add: full_wire_def)
  ultimately show ?thesis
    using payload_nbytes_exact[of full_wire 64 FP16] sample_plan[OF p]
    by (simp add: make_CudaFullTensorExecutable_def exec_require_module_def sample_status_def
        require_callable_def sample_native_def sample_low_def wire_attributes_def shape_numel_def Let_def)
qed


end
