(* ===== verification/Metadata.thy ===== *)
theory Metadata
  imports Core_Types
begin

text \<open>
  \<open>core/metadata.py\<close>: the fixed-layout packet that precedes every dynamically shaped
  payload.  The encoder \<open>to_values\<close> and the decoder \<open>from_values\<close> are modelled word by
  word; the interface the transports rely on is the locale \<open>packet_codec\<close>, interpreted
  below on these two functions.
\<close>

section \<open>The packet codec as an interface\<close>

text \<open>
  What a transport needs of a codec: every valid value encodes, decoding an encoding gives
  the value back, and whatever decodes is the encoding of a valid value, so that the wire
  form is canonical.
\<close>

locale packet_codec =
  fixes enc :: "'p \<Rightarrow> 'w list res"
    and dec :: "'w list \<Rightarrow> 'p res"
    and valid :: "'p \<Rightarrow> bool"
    and size_w :: nat
  assumes enc_total: "valid p \<Longrightarrow> \<exists>ws. enc p = Inr ws"
    and enc_length: "valid p \<Longrightarrow> enc p = Inr ws \<Longrightarrow> length ws = size_w"
    and dec_enc: "valid p \<Longrightarrow> enc p = Inr ws \<Longrightarrow> dec ws = Inr p"
    and enc_dec: "dec ws = Inr p \<Longrightarrow> valid p \<and> enc p = Inr ws"
begin

lemma dec_iff: "dec ws = Inr p \<longleftrightarrow> valid p \<and> enc p = Inr ws"
  by (blast intro: dec_enc dest: enc_dec)

lemma enc_inj: "valid p \<Longrightarrow> valid q \<Longrightarrow> enc p = enc q \<Longrightarrow> p = q"
  using enc_total[of p] by (metis dec_enc sum.inject(2))

lemma dec_canonical: "dec ws = Inr p \<Longrightarrow> dec ws' = Inr p \<Longrightarrow> ws = ws'"
  by (auto simp: dec_iff)

lemma dec_length: "dec ws = Inr p \<Longrightarrow> length ws = size_w"
  using enc_dec enc_length by blast

lemma dec_wrong_length: "length ws \<noteq> size_w \<Longrightarrow> \<exists>e. dec ws = Inl e"
  using dec_length by (cases "dec ws") auto

text \<open>Decoding the rows of a gathered buffer gives back what every rank encoded.\<close>

lemma dec_all:
  assumes "\<And>p. p \<in> set ps \<Longrightarrow> valid p" and "rmap enc ps = Inr wss"
  shows "rmap dec wss = Inr ps"
  using assms
proof (induction ps arbitrary: wss)
  case Nil
  then show ?case by simp
next
  case (Cons p ps)
  then show ?case by (auto simp: dec_iff)
qed

lemma enc_all:
  assumes "\<And>p. p \<in> set ps \<Longrightarrow> valid p"
  shows "\<exists>wss. rmap enc ps = Inr wss \<and> length wss = length ps
           \<and> (\<forall>ws \<in> set wss. length ws = size_w)"
  using assms
proof (induction ps)
  case Nil
  then show ?case by simp
next
  case (Cons p ps)
  then obtain ws wss where "enc p = Inr ws" "rmap enc ps = Inr wss" "length wss = length ps"
    "\<forall>ws \<in> set wss. length ws = size_w"
    using enc_total[of p] by auto
  then show ?case
    using enc_length[of p ws] Cons.prems by auto
qed

end

section \<open>Tables and constants\<close>

definition METADATA_PROTOCOL_VERSION :: int where "METADATA_PROTOCOL_VERSION = 1"
definition METADATA_PACKET_MAX_NDIM :: nat where "METADATA_PACKET_MAX_NDIM = 8"
definition METADATA_PACKET_WORDS :: nat where "METADATA_PACKET_WORDS = 24"
definition DIMS_OFFSET :: nat where "DIMS_OFFSET = 16"

lemmas packet_constants =
  METADATA_PROTOCOL_VERSION_def METADATA_PACKET_MAX_NDIM_def METADATA_PACKET_WORDS_def
  DIMS_OFFSET_def

definition DTYPE_TO_CODE :: "(data_type \<times> int) list" where
  "DTYPE_TO_CODE = [(FP16, 1), (BF16, 2), (FP32, 3)]"

definition CODE_TO_DTYPE :: "(int \<times> data_type) list" where
  "CODE_TO_DTYPE = map (\<lambda>(dtype, code). (code, dtype)) DTYPE_TO_CODE"

definition QUANT_TO_CODE :: "(string \<times> int) list" where
  "QUANT_TO_CODE =
     [(''linear'', 1), (''normal'', 2), (''uniform'', 3), (''e3m0'', 4), (''e2m1'', 5)]"

definition CODE_TO_QUANT :: "(int \<times> string) list" where
  "CODE_TO_QUANT = map (\<lambda>(name, code). (code, name)) QUANT_TO_CODE"

lemma dtype_codes:
  "map_of DTYPE_TO_CODE d = Some c \<longleftrightarrow> map_of CODE_TO_DTYPE c = Some d"
  by (cases d) (auto simp: DTYPE_TO_CODE_def CODE_TO_DTYPE_def)

lemma dtype_code_total: "\<exists>c. map_of DTYPE_TO_CODE d = Some c"
  by (cases d) (auto simp: DTYPE_TO_CODE_def)

lemma quant_codes:
  "map_of QUANT_TO_CODE q = Some c \<longleftrightarrow> map_of CODE_TO_QUANT c = Some q"
  by (auto simp: QUANT_TO_CODE_def CODE_TO_QUANT_def split: if_splits)

lemma quant_known_non_empty: "map_of QUANT_TO_CODE q = Some c \<Longrightarrow> py_strip q \<noteq> []"
  by (auto simp: QUANT_TO_CODE_def py_strip_eq_Nil py_isspace_def split: if_splits)

section \<open>The packet\<close>

record metadata_packet =
  mp_shape :: "int list"
  mp_dtype :: data_type
  mp_wire :: quantized_wire
  mp_payload_numel :: int
  mp_layout_generation :: int
  mp_flags :: int

definition non_negative :: "pyval \<Rightarrow> string \<Rightarrow> int res" where
  "non_negative v name =
     (if \<not> is_plain_int v then Inl (TypeError (name @ '' must be an integer''))
      else if the_int v < 0 then Inl (ValueError (name @ '' must be non-negative''))
      else Inr (the_int v))"

lemma non_negative_Inr [simp]: "non_negative v name = Inr i \<longleftrightarrow> v = PInt i \<and> 0 \<le> i"
  by (cases v) (auto simp: non_negative_def)

text \<open>\<open>None\<close> stands for an argument that is not iterable.\<close>

definition shape_of :: "pyval list option \<Rightarrow> int list res" where
  "shape_of value =
     (case value of
        None \<Rightarrow> Inl (TypeError ''shape must be an integer sequence'')
      | Some result \<Rightarrow>
          if METADATA_PACKET_MAX_NDIM < length result
            then Inl (ValueError ''metadata shape exceeds maximum rank'')
          else rmap (\<lambda>dimension. non_negative dimension ''shape dimension'') result)"

lemma rmap_non_negative [simp]:
  "rmap (\<lambda>d. non_negative d name) vs = Inr is \<longleftrightarrow> vs = map PInt is \<and> (\<forall>i \<in> set is. 0 \<le> i)"
  by (induction vs arbitrary: "is") auto

definition make_MetadataPacket ::
    "pyval list option \<Rightarrow> pyval \<Rightarrow> wire \<Rightarrow> pyval \<Rightarrow> pyval \<Rightarrow> pyval \<Rightarrow> metadata_packet res" where
  [constructor_defs]:
  "make_MetadataPacket shape dtype wire payload_numel layout_generation flags =
     rbind (shape_of shape) (\<lambda>dims.
     if \<not> is_data_type dtype then Inl (TypeError ''dtype must be a DataType'')
     else case wire of
       QuantizedWire w \<Rightarrow>
         if map_of QUANT_TO_CODE (qw_quant_type w) = None
           then Inl (ValueError ''unsupported quant_type'')
         else rbind (non_negative payload_numel ''payload_numel'') (\<lambda>payload.
              rbind (non_negative layout_generation ''layout_generation'') (\<lambda>generation.
              rbind (non_negative flags ''flags'') (\<lambda>fl.
              Inr \<lparr>mp_shape = dims, mp_dtype = the_data_type dtype, mp_wire = w,
                   mp_payload_numel = payload, mp_layout_generation = generation,
                   mp_flags = fl\<rparr>)))
     | _ \<Rightarrow> Inl (TypeError ''wire must be a QuantizedWire''))"

definition valid_packet :: "metadata_packet \<Rightarrow> bool" where
  "valid_packet p \<longleftrightarrow>
     length (mp_shape p) \<le> METADATA_PACKET_MAX_NDIM \<and> (\<forall>d \<in> set (mp_shape p). 0 \<le> d)
     \<and> valid_wire (mp_wire p) \<and> map_of QUANT_TO_CODE (qw_quant_type (mp_wire p)) \<noteq> None
     \<and> 0 \<le> mp_payload_numel p \<and> 0 \<le> mp_layout_generation p \<and> 0 \<le> mp_flags p"

lemma make_MetadataPacket_Inr_iff:
  "make_MetadataPacket shape dtype wire payload gen flags = Inr p \<longleftrightarrow>
     shape = Some (map PInt (mp_shape p)) \<and> dtype = PDataType (mp_dtype p)
     \<and> wire = QuantizedWire (mp_wire p) \<and> payload = PInt (mp_payload_numel p)
     \<and> gen = PInt (mp_layout_generation p) \<and> flags = PInt (mp_flags p)
     \<and> length (mp_shape p) \<le> METADATA_PACKET_MAX_NDIM \<and> (\<forall>d \<in> set (mp_shape p). 0 \<le> d)
     \<and> map_of QUANT_TO_CODE (qw_quant_type (mp_wire p)) \<noteq> None
     \<and> 0 \<le> mp_payload_numel p \<and> 0 \<le> mp_layout_generation p \<and> 0 \<le> mp_flags p"
  by (cases dtype; cases wire)
    (auto simp: make_MetadataPacket_def shape_of_def split: option.splits)

definition logical_numel :: "metadata_packet \<Rightarrow> int" where
  "logical_numel p = foldl (*) 1 (mp_shape p)"

lemma foldl_mult: "foldl (*) a xs = a * prod_list (xs :: int list)"
  by (induction xs arbitrary: a) (auto simp: algebra_simps)

lemma prod_list_nonneg: "(\<forall>d \<in> set ds. (0 :: int) \<le> d) \<Longrightarrow> 0 \<le> prod_list ds"
  by (induction ds) auto

lemma logical_numel_nonneg: "valid_packet p \<Longrightarrow> 0 \<le> logical_numel p"
  by (simp add: logical_numel_def foldl_mult valid_packet_def prod_list_nonneg)

section \<open>Encoding and decoding\<close>

text \<open>Assignment to a slice of a list.\<close>

definition slice_assign :: "'a list \<Rightarrow> nat \<Rightarrow> nat \<Rightarrow> 'a list \<Rightarrow> 'a list" where
  "slice_assign values start stop xs = take start values @ xs @ drop stop values"

definition to_values :: "metadata_packet \<Rightarrow> int list res" where
  "to_values p =
     (let values = replicate METADATA_PACKET_WORDS 0;
          values = values[0 := METADATA_PROTOCOL_VERSION];
          values = values[1 := int (length (mp_shape p))]
      in case map_of DTYPE_TO_CODE (mp_dtype p) of None \<Rightarrow> Inl (KeyError ''dtype'')
      | Some dtype_code \<Rightarrow>
        (let values = values[2 := dtype_code];
             values = values[3 := mp_payload_numel p];
             values = values[4 := qw_bit (mp_wire p)];
             values = values[5 := qw_group_size (mp_wire p)]
         in case map_of QUANT_TO_CODE (qw_quant_type (mp_wire p)) of
              None \<Rightarrow> Inl (KeyError ''quant_type'')
            | Some quant_code \<Rightarrow>
              (let values = values[6 := quant_code];
                   values = values[7 := (if qw_compact (mp_wire p) then 1 else 0)];
                   values = values[8 := mp_layout_generation p];
                   values = values[9 := mp_flags p];
                   values = values[10 := logical_numel p]
               in Inr (slice_assign values DIMS_OFFSET
                        (DIMS_OFFSET + length (mp_shape p)) (mp_shape p)))))"

text \<open>The builtin \<open>any\<close> on integers.\<close>

definition py_any :: "int list \<Rightarrow> bool" where
  "py_any xs \<longleftrightarrow> list_ex (\<lambda>x. x \<noteq> 0) xs"

lemma not_py_any: "\<not> py_any xs \<longleftrightarrow> xs = replicate (length xs) 0"
  by (induction xs) (auto simp: py_any_def)

lemma py_any_zeros [simp]: "\<not> py_any (replicate n 0)"
  by (induction n) (auto simp: py_any_def)

definition from_values :: "pyval list \<Rightarrow> metadata_packet res" where
  "from_values values =
     (if length values \<noteq> METADATA_PACKET_WORDS
        then Inl (ValueError ''metadata packet must contain 24 integers'')
      else if (\<exists>v \<in> set values. \<not> is_plain_int v)
        then Inl (TypeError ''metadata packet values must be integers'')
      else
        let words = map the_int values;
            ndim = words ! 1;
            shape_words = drop DIMS_OFFSET words
        in if words ! 0 \<noteq> METADATA_PROTOCOL_VERSION
          then Inl (ValueError ''metadata packet protocol version mismatch'')
        else if ndim < 0 \<or> int METADATA_PACKET_MAX_NDIM < ndim
          then Inl (ValueError ''metadata packet rank exceeds the fixed maximum rank'')
        else if py_any (take (DIMS_OFFSET - 11) (drop 11 words))
          then Inl (ValueError ''metadata packet reserved words must be zero'')
        else if py_any (drop (nat ndim) shape_words)
          then Inl (ValueError ''metadata packet unused shape words must be zero'')
        else case map_of CODE_TO_DTYPE (words ! 2) of
            None \<Rightarrow> Inl (ValueError ''unknown dtype code'')
          | Some dtype \<Rightarrow>
          (case map_of CODE_TO_QUANT (words ! 6) of
            None \<Rightarrow> Inl (ValueError ''unknown quant_type code'')
          | Some quant_type \<Rightarrow>
            if words ! 7 \<notin> {0, 1}
              then Inl (ValueError ''metadata packet compact field must be zero or one'')
            else
              rbind (make_QuantizedWire (PInt (words ! 4)) (PInt (words ! 5)) (PStr quant_type)
                       (PBool (words ! 7 \<noteq> 0))) (\<lambda>wire.
              rbind (make_MetadataPacket (Some (map PInt (take (nat ndim) shape_words)))
                       (PDataType dtype) (QuantizedWire wire) (PInt (words ! 3)) (PInt (words ! 8))
                       (PInt (words ! 9))) (\<lambda>result.
              if logical_numel result \<noteq> words ! 10
                then Inl (ValueError ''metadata packet logical_numel does not match shape'')
              else Inr result))))"

section \<open>The round trip\<close>

text \<open>The layout of the packet, word by word.\<close>

definition packet_layout :: "metadata_packet \<Rightarrow> int \<Rightarrow> int \<Rightarrow> int list" where
  "packet_layout p dtype_code quant_code =
     [1, int (length (mp_shape p)), dtype_code, mp_payload_numel p, qw_bit (mp_wire p),
      qw_group_size (mp_wire p), quant_code, (if qw_compact (mp_wire p) then 1 else 0),
      mp_layout_generation p, mp_flags p, logical_numel p, 0, 0, 0, 0, 0]
     @ mp_shape p @ replicate (8 - length (mp_shape p)) 0"

lemma drop_eight_zeros:
  "drop n [0, 0, 0, 0, 0, 0, 0, 0 :: int]
     = replicate (Suc (Suc (Suc (Suc (Suc (Suc (Suc (Suc 0))))))) - n) 0"
  using drop_replicate[of n 8 "0 :: int"] by (simp add: eval_nat_numeral)

lemma to_values_layout:
  "to_values p = Inr ws \<longleftrightarrow>
     (\<exists>dc qc. map_of DTYPE_TO_CODE (mp_dtype p) = Some dc
        \<and> map_of QUANT_TO_CODE (qw_quant_type (mp_wire p)) = Some qc
        \<and> ws = packet_layout p dc qc)"
  by (auto simp: to_values_def packet_layout_def packet_constants slice_assign_def Let_def
      eval_nat_numeral drop_eight_zeros split: option.splits)

lemma length_packet_layout:
  "length (mp_shape p) \<le> 8 \<Longrightarrow> length (packet_layout p dc qc) = 24"
  by (simp add: packet_layout_def)

lemma packet_layout_words:
  "packet_layout p dc qc ! 0 = 1" "packet_layout p dc qc ! Suc 0 = int (length (mp_shape p))"
  "packet_layout p dc qc ! 2 = dc" "packet_layout p dc qc ! 3 = mp_payload_numel p"
  "packet_layout p dc qc ! 4 = qw_bit (mp_wire p)"
  "packet_layout p dc qc ! 5 = qw_group_size (mp_wire p)"
  "packet_layout p dc qc ! 6 = qc"
  "packet_layout p dc qc ! 7 = (if qw_compact (mp_wire p) then 1 else 0)"
  "packet_layout p dc qc ! 8 = mp_layout_generation p"
  "packet_layout p dc qc ! 9 = mp_flags p"
  "packet_layout p dc qc ! 10 = logical_numel p"
  "take 5 (drop 11 (packet_layout p dc qc)) = replicate 5 0"
  "drop 16 (packet_layout p dc qc) = mp_shape p @ replicate (8 - length (mp_shape p)) 0"
  by (auto simp: packet_layout_def eval_nat_numeral nth_Cons' le_Suc_eq less_Suc_eq)

lemma from_values_layout:
  assumes "valid_packet p" and "map_of DTYPE_TO_CODE (mp_dtype p) = Some dc"
    and "map_of QUANT_TO_CODE (qw_quant_type (mp_wire p)) = Some qc"
  shows "from_values (map PInt (packet_layout p dc qc)) = Inr p"
proof -
  have len: "length (mp_shape p) \<le> 8"
    using assms(1) by (simp add: valid_packet_def packet_constants)
  have d: "map_of CODE_TO_DTYPE dc = Some (mp_dtype p)"
    and q: "map_of CODE_TO_QUANT qc = Some (qw_quant_type (mp_wire p))"
    using assms(2,3) by (simp_all add: dtype_codes quant_codes)
  have wr: "make_QuantizedWire (PInt (qw_bit (mp_wire p))) (PInt (qw_group_size (mp_wire p)))
      (PStr (qw_quant_type (mp_wire p)))
      (PBool ((if qw_compact (mp_wire p) then 1 else 0 :: int) \<noteq> 0)) = Inr (mp_wire p)"
    using assms(1) by (auto simp: make_QuantizedWire_Inr_iff valid_packet_def)
  have mk: "make_MetadataPacket (Some (map PInt (mp_shape p))) (PDataType (mp_dtype p))
      (QuantizedWire (mp_wire p)) (PInt (mp_payload_numel p)) (PInt (mp_layout_generation p))
      (PInt (mp_flags p)) = Inr p"
    using assms(1) by (simp add: make_MetadataPacket_Inr_iff valid_packet_def)
  show ?thesis
    using len by (simp add: from_values_def packet_constants length_packet_layout Let_def o_def
        packet_layout_words d q wr mk)
qed

lemma take_16: "length ws = 24 \<Longrightarrow>
  ws = [ws!0, ws!1, ws!2, ws!3, ws!4, ws!5, ws!6, ws!7, ws!8, ws!9, ws!10]
         @ take 5 (drop 11 ws) @ drop 16 ws"
  by (auto simp: eval_nat_numeral length_Suc_conv)

lemma from_values_inv:
  assumes "from_values vs = Inr p"
  shows "valid_packet p \<and> (\<exists>ws. to_values p = Inr ws \<and> vs = map PInt ws)"
proof -
  define ws where "ws = map the_int vs"
  have len: "length vs = 24" and ints: "\<forall>v \<in> set vs. is_plain_int v"
    using assms by (auto simp: from_values_def packet_constants split: if_splits)
  have vs: "vs = map PInt ws"
    using ints unfolding ws_def by (auto intro!: map_idI[symmetric])
  have lw: "length ws = 24"
    using len by (simp add: ws_def)
  obtain d q wire where
    v0: "ws ! 0 = 1" and nd: "0 \<le> ws ! 1" "ws ! 1 \<le> 8"
    and res: "\<not> py_any (take 5 (drop 11 ws))"
    and unused: "\<not> py_any (drop (nat (ws ! 1)) (drop 16 ws))"
    and d: "map_of CODE_TO_DTYPE (ws ! 2) = Some d"
    and q: "map_of CODE_TO_QUANT (ws ! 6) = Some q"
    and c: "ws ! 7 = 0 \<or> ws ! 7 = 1"
    and wire: "make_QuantizedWire (PInt (ws ! 4)) (PInt (ws ! 5)) (PStr q) (PBool (ws ! 7 \<noteq> 0))
      = Inr wire"
    and mk: "make_MetadataPacket (Some (map PInt (take (nat (ws ! 1)) (drop 16 ws))))
      (PDataType d) (QuantizedWire wire) (PInt (ws ! 3)) (PInt (ws ! 8)) (PInt (ws ! 9)) = Inr p"
    and num: "logical_numel p = ws ! 10"
    using assms
    unfolding from_values_def packet_constants Let_def ws_def[symmetric] if_Inl_eq_Inr
      option_Inl_eq_Inr rbind_eq_Inr
    by (elim conjE exE) (rule that; simp add: not_less)
  have p: "mp_shape p = take (nat (ws ! 1)) (drop 16 ws)" "mp_dtype p = d" "mp_wire p = wire"
      "mp_payload_numel p = ws ! 3" "mp_layout_generation p = ws ! 8" "mp_flags p = ws ! 9"
    and wf: "qw_bit wire = ws ! 4" "qw_group_size wire = ws ! 5" "qw_quant_type wire = q"
      "qw_compact wire \<longleftrightarrow> ws ! 7 \<noteq> 0"
    using mk wire by (auto simp: make_MetadataPacket_Inr_iff make_QuantizedWire_Inr_iff
        inj_map_eq_map inj_def)
  have valid: "valid_packet p"
    using mk wire p by (auto simp: make_MetadataPacket_Inr_iff make_QuantizedWire_Inr_iff
        valid_packet_def)
  have ls: "length (mp_shape p) = nat (ws ! 1)"
    using nd lw by (simp add: p)
  have pad: "drop (nat (ws ! 1)) (drop 16 ws) = replicate (8 - nat (ws ! 1)) 0"
    using unused lw by (simp add: not_py_any)
  have shape: "drop 16 ws = mp_shape p @ replicate (8 - length (mp_shape p)) 0"
    using append_take_drop_id[of "nat (ws ! 1)" "drop 16 ws"] pad ls p(1) by simp
  have zs: "take 5 (drop 11 ws) = [0, 0, 0, 0, 0]"
    using res lw by (simp add: not_py_any eval_nat_numeral)
  have "ws = packet_layout p (ws ! 2) (ws ! 6)"
    using take_16[OF lw] v0 nd c num ls unfolding zs shape
    by (auto simp: packet_layout_def p(2-) wf)
  then have "to_values p = Inr ws"
    using d q by (auto simp: to_values_layout p(2,3) wf dtype_codes quant_codes)
  then show ?thesis
    using valid vs by blast
qed

text \<open>The packet functions provide the interface.\<close>

definition decode_packet :: "int list \<Rightarrow> metadata_packet res" where
  "decode_packet ws = from_values (map PInt ws)"

interpretation packet: packet_codec to_values decode_packet valid_packet 24
proof unfold_locales
  fix p assume v: "valid_packet p"
  obtain dc qc where codes: "map_of DTYPE_TO_CODE (mp_dtype p) = Some dc"
      "map_of QUANT_TO_CODE (qw_quant_type (mp_wire p)) = Some qc"
    using v dtype_code_total[of "mp_dtype p"] by (auto simp: valid_packet_def)
  then show "\<exists>ws. to_values p = Inr ws"
    by (auto simp: to_values_layout)
  fix ws assume e: "to_values p = Inr ws"
  then show "length ws = 24"
    using v by (auto simp: to_values_layout length_packet_layout valid_packet_def packet_constants)
  show "decode_packet ws = Inr p"
    using v e by (auto simp: to_values_layout decode_packet_def from_values_layout)
next
  fix ws p assume "decode_packet ws = Inr p"
  then show "valid_packet p \<and> to_values p = Inr ws"
    by (auto simp: decode_packet_def inj_map_eq_map inj_def dest!: from_values_inv)
qed

section \<open>Properties\<close>

text \<open>C4: every packet the constructor accepts on a constructed wire is encoded into 24 words and
  read back unchanged.\<close>

theorem packet_roundtrip:
  assumes "make_MetadataPacket shape dtype wire payload generation flags = Inr p"
    and "make_QuantizedWire b g q c = Inr (mp_wire p)"
  shows "\<exists>ws. to_values p = Inr ws \<and> length ws = 24 \<and> from_values (map PInt ws) = Inr p"
proof -
  have v: "valid_packet p"
    using assms by (auto simp: make_MetadataPacket_Inr_iff make_QuantizedWire_Inr_iff valid_packet_def)
  obtain ws where "to_values p = Inr ws" using packet.enc_total[OF v] by blast
  then show ?thesis
    using packet.enc_length[OF v] packet.dec_enc[OF v] by (auto simp: decode_packet_def)
qed

theorem packet_roundtrip_witness:
  "\<exists>p ws. make_MetadataPacket (Some [PInt 2, PInt 3]) (PDataType FP16)
        (QuantizedWire \<lparr>qw_bit = 8, qw_group_size = 64, qw_quant_type = ''linear'', qw_compact = False\<rparr>)
        (PInt 66) (PInt 0) (PInt 0) = Inr p
     \<and> to_values p = Inr ws \<and> from_values (map PInt ws) = Inr p"
proof -
  let ?w = "\<lparr>qw_bit = 8, qw_group_size = 64, qw_quant_type = ''linear'', qw_compact = False\<rparr>"
  let ?p = "\<lparr>mp_shape = [2, 3], mp_dtype = FP16, mp_wire = ?w, mp_payload_numel = 66,
      mp_layout_generation = 0, mp_flags = 0\<rparr>"
  have p: "make_MetadataPacket (Some [PInt 2, PInt 3]) (PDataType FP16) (QuantizedWire ?w)
      (PInt 66) (PInt 0) (PInt 0) = Inr ?p"
    by (simp add: make_MetadataPacket_Inr_iff QUANT_TO_CODE_def METADATA_PACKET_MAX_NDIM_def)
  have "make_QuantizedWire (PInt 8) (PInt 64) (PStr ''linear'') (PBool False) = Inr (mp_wire ?p)"
    by (simp add: make_QuantizedWire_Inr_iff valid_wire_def py_strip_eq_Nil py_isspace_def)
  from packet_roundtrip[OF p this] p show ?thesis by blast
qed

text \<open>C5: the decoder accepts nothing but encodings: a packet it returns satisfies every constraint
  of the constructors, and the words it came from are exactly that packet's encoding, so no two
  word sequences decode to the same packet.\<close>

theorem packet_decoding_canonical:
  assumes "from_values vs = Inr p"
  shows "valid_packet p \<and> (\<exists>ws. to_values p = Inr ws \<and> vs = map PInt ws)
     \<and> (\<forall>vs'. from_values vs' = Inr p \<longrightarrow> vs' = vs)"
  using from_values_inv[OF assms] from_values_inv[of _ p] by force

theorem packet_decoding_canonical_witness:
  "valid_packet \<lparr>mp_shape = [], mp_dtype = FP32,
      mp_wire = \<lparr>qw_bit = 4, qw_group_size = 16, qw_quant_type = ''e2m1'', qw_compact = True\<rparr>,
      mp_payload_numel = 12, mp_layout_generation = 7, mp_flags = 1\<rparr>"
proof -
  let ?vs = "map PInt [1, 0, 3, 12, 4, 16, 5, 1, 7, 1, 1, 0, 0, 0, 0, 0, 0, 0, 0, 0, 0, 0, 0, 0]"
  have "from_values ?vs = Inr \<lparr>mp_shape = [], mp_dtype = FP32,
      mp_wire = \<lparr>qw_bit = 4, qw_group_size = 16, qw_quant_type = ''e2m1'', qw_compact = True\<rparr>,
      mp_payload_numel = 12, mp_layout_generation = 7, mp_flags = 1\<rparr>"
    by code_simp
  from packet_decoding_canonical[OF this] show ?thesis by blast
qed

end
