(* ===== verification/P2P.thy ===== *)
theory P2P
  imports Full_Tensor Metadata
begin

text \<open>
  \<open>backends/cuda/p2p.py\<close>: typed point-to-point transfer of tensors whose shape the receiver
  does not know.  A transfer is two messages, a metadata packet and a payload, on two
  physical tags.  A tensor is its shape with its elements in row-major order.  The network
  matches a receive to the oldest message sent by the peer with the same tag, so a tag is a
  queue; \<open>int64_tensor\<close> is \<open>torch.tensor(..., dtype=int64)\<close>.
\<close>

section \<open>Tags\<close>

record p2p_tags =
  tag_metadata :: int
  tag_payload :: int

definition from_logical :: "pyval \<Rightarrow> p2p_tags res" where
  "from_logical tag =
     (if \<not> is_plain_int tag then Inl (TypeError ''tag must be an integer'')
      else if the_int tag < 0 then Inl (ValueError ''tag must be non-negative'')
      else Inr \<lparr>tag_metadata = 2 * the_int tag, tag_payload = 2 * the_int tag + 1\<rparr>)"

lemma from_logical_Inr_iff:
  "from_logical v = Inr t \<longleftrightarrow>
     (\<exists>i. v = PInt i \<and> 0 \<le> i \<and> t = \<lparr>tag_metadata = 2 * i, tag_payload = 2 * i + 1\<rparr>)"
  by (cases v) (auto simp: from_logical_def)

lemma from_logical_disjoint:
  assumes "from_logical v = Inr t" and "from_logical v' = Inr t'" and "v \<noteq> v'"
  shows "{tag_metadata t, tag_payload t} \<inter> {tag_metadata t', tag_payload t'} = {}"
    and "tag_metadata t \<noteq> tag_payload t"
  using assms by (auto simp: from_logical_Inr_iff; presburger)+

section \<open>Sender and receiver\<close>

record 'x p2p_end =
  pe_peer :: int
  pe_tags :: p2p_tags
  pe_dtype :: data_type
  pe_wire :: quantized_wire
  pe_status :: "'x native extension_status"

text \<open>The two constructors make the same checks in the same order.\<close>

definition make_p2p_end ::
    "pyval \<Rightarrow> pyval \<Rightarrow> pyval \<Rightarrow> wire \<Rightarrow> 'x native extension_status \<Rightarrow> 'x p2p_end res" where
  "make_p2p_end peer tag dtype wire status =
     (if \<not> is_plain_int peer \<or> the_int peer < 0
        then Inl (ValueError ''peer must be a non-negative integer'')
      else if \<not> is_data_type dtype then Inl (TypeError ''dtype must be a DataType'')
      else case wire of
          QuantizedWire w \<Rightarrow>
            rbind (from_logical tag) (\<lambda>tags.
              Inr \<lparr>pe_peer = the_int peer, pe_tags = tags, pe_dtype = the_data_type dtype,
                   pe_wire = w, pe_status = status\<rparr>)
        | _ \<Rightarrow> Inl (TypeError ''wire must be a QuantizedWire''))"

definition make_CudaQuantizedSender ::
    "pyval \<Rightarrow> pyval \<Rightarrow> pyval \<Rightarrow> wire \<Rightarrow> 'x native extension_status \<Rightarrow> 'x p2p_end res" where
  "make_CudaQuantizedSender = make_p2p_end"

definition make_CudaQuantizedReceiver ::
    "pyval \<Rightarrow> pyval \<Rightarrow> pyval \<Rightarrow> wire \<Rightarrow> 'x native extension_status \<Rightarrow> 'x p2p_end res" where
  "make_CudaQuantizedReceiver = make_p2p_end"

definition pad_source :: "'x \<Rightarrow> 'x list \<Rightarrow> int \<Rightarrow> int \<Rightarrow> 'x list" where
  "pad_source zero flat numel group_size =
     (if numel mod group_size = 0 then flat
      else pad zero ((numel + group_size - 1) div group_size * group_size) flat)"

datatype message = Words "int list" | Bytes "byte list"

text \<open>\<open>isend\<close>: the messages it submits, in order, each with its tag.\<close>

definition isend ::
    "(int list \<Rightarrow> int list res) \<Rightarrow> 'x \<Rightarrow> (nat \<Rightarrow> byte) \<Rightarrow> 'x p2p_end \<Rightarrow> int list \<Rightarrow> 'x list
     \<Rightarrow> pyval \<Rightarrow> pyval \<Rightarrow> (int \<times> message) list res" where
  "isend int64_tensor zero junk e shape flat layout_generation flags =
     (let original_numel = int (length flat);
          prepared = pad_source zero flat original_numel (qw_group_size (pe_wire e)) in
      rbind (payload_nbytes (PInt original_numel) (PDataType (pe_dtype e)) (Some (pe_wire e)))
        (\<lambda>payload_size.
      rbind (quantize_into (pe_status e) prepared (uninitialised junk payload_size) (pe_wire e))
        (\<lambda>payload.
      rbind (make_MetadataPacket (Some (map PInt shape)) (PDataType (pe_dtype e))
               (QuantizedWire (pe_wire e)) (PInt payload_size) layout_generation flags)
        (\<lambda>packet.
      rbind (to_values packet) (\<lambda>values.
      rbind (int64_tensor values) (\<lambda>metadata.
        Inr [(tag_metadata (pe_tags e), Words metadata), (tag_payload (pe_tags e), Bytes payload)]))))))"

text \<open>The receiver on a metadata packet: what it checks before it posts the payload receive.\<close>

definition receiver_accept :: "'x p2p_end \<Rightarrow> int list \<Rightarrow> metadata_packet res" where
  "receiver_accept e metadata =
     rbind (decode_packet metadata) (\<lambda>packet.
     if mp_dtype packet \<noteq> pe_dtype e then Inl (TypeError ''received dtype'')
     else if mp_wire packet \<noteq> pe_wire e then Inl (ValueError ''received quantized wire'')
     else
       rbind (payload_nbytes (PInt (logical_numel packet)) (PDataType (mp_dtype packet))
                (Some (mp_wire packet)))
         (\<lambda>expected_payload.
       if mp_payload_numel packet \<noteq> expected_payload
         then Inl (ValueError ''metadata payload length does not match tensor and quant schema'')
       else Inr packet))"

text \<open>The rest of \<open>_finish\<close>, on the payload received.\<close>

definition receiver_decode ::
    "(nat \<Rightarrow> 'x) \<Rightarrow> 'x p2p_end \<Rightarrow> metadata_packet \<Rightarrow> byte list \<Rightarrow> (int list \<times> 'x list) res" where
  "receiver_decode junk e packet payload =
     (let g = qw_group_size (mp_wire packet);
          padded_numel = (logical_numel packet + g - 1) div g * g in
      rbind (dequantize_into (pe_status e) payload (uninitialised junk padded_numel) (mp_wire packet)
               (PDataType (mp_dtype packet)))
        (\<lambda>out. Inr (mp_shape packet, take (nat (logical_numel packet)) out)))"

section \<open>One transfer\<close>

text \<open>Both ends agree on the schema, and the kernels are available to both.\<close>

definition schema_paired ::
    "'x p2p_end \<Rightarrow> 'x p2p_end \<Rightarrow> 'x native \<Rightarrow> ('x list \<Rightarrow> byte list) \<Rightarrow> (byte list \<Rightarrow> 'x list) \<Rightarrow> bool" where
  "schema_paired s r m q dq \<longleftrightarrow>
     pe_wire s = pe_wire r \<and> pe_dtype s = pe_dtype r \<and> pe_tags s = pe_tags r
     \<and> valid_wire (pe_wire s) \<and> codec_ready (pe_status s) m \<and> codec_ready (pe_status r) m
     \<and> map_of QUANT_TO_CODE (qw_quant_type (pe_wire s)) \<noteq> None
     \<and> (\<exists>name. quant_type_names (qw_quant_type (pe_wire s)) = Some name
          \<and> quantizes m (pe_wire s) (group_nbytes (pe_dtype s) (pe_wire s)) name q
          \<and> dequantizes m (pe_wire s) (group_nbytes (pe_dtype s) (pe_wire s)) name dq)"

text \<open>A tensor that a packet can describe.\<close>

definition sendable :: "int list \<Rightarrow> 'x list \<Rightarrow> bool" where
  "sendable shape flat \<longleftrightarrow>
     length shape \<le> METADATA_PACKET_MAX_NDIM \<and> (\<forall>d \<in> set shape. 0 \<le> d \<and> d < 2 ^ 63)
     \<and> foldl (*) 1 shape = int (length flat) \<and> int (length flat) < 2 ^ 53"

definition padded_for :: "'x \<Rightarrow> quantized_wire \<Rightarrow> 'x list \<Rightarrow> 'x list" where
  "padded_for zero w flat = pad zero (align (int (length flat)) (qw_group_size w)) flat"

lemma pad_source_eq:
  assumes "valid_wire w"
  shows "pad_source zero flat (int (length flat)) (qw_group_size w) = padded_for zero w flat"
proof -
  let ?g = "qw_group_size w" and ?n = "int (length flat)"
  have g: "0 < ?g" using assms by (rule valid_wire_group_pos)
  have "pad zero ?n flat = flat" by (simp add: pad_def)
  moreover have "(?n + ?g - 1) div ?g * ?g = ?n" if "?n mod ?g = 0"
  proof -
    have e: "?n div ?g * ?g = ?n"
      by (rule dvd_div_mult_self[OF mod_0_imp_dvd[OF that]])
    have "(?n div ?g * ?g + ?g - 1) div ?g = ?n div ?g"
      by (rule ceil_div_exact[OF g])
    then show ?thesis unfolding e by (simp only: e)
  qed
  ultimately show ?thesis
    using g by (auto simp: pad_source_def padded_for_def align_eq)
qed

text \<open>
  \<open>torch.tensor\<close> keeps every word that fits a signed 64-bit element, and the words of the
  packet of a tensor in memory do.
\<close>

definition int64_faithful :: "(int list \<Rightarrow> int list res) \<Rightarrow> bool" where
  "int64_faithful int64_tensor \<longleftrightarrow>
     (\<forall>ws. (\<forall>x \<in> set ws. 0 \<le> x \<and> x < 2 ^ 63) \<longrightarrow> int64_tensor ws = Inr ws)"

lemma packet_words_range:
  assumes "valid_packet p" and "to_values p = Inr ws"
    and "\<And>d. d \<in> set (mp_shape p) \<Longrightarrow> d < 2 ^ 63" and "logical_numel p < 2 ^ 63"
    and "mp_payload_numel p < 2 ^ 63" and "mp_layout_generation p < 2 ^ 63" and "mp_flags p < 2 ^ 63"
  shows "\<forall>x \<in> set ws. 0 \<le> x \<and> x < 2 ^ 63"
proof -
  obtain dc qc where c: "map_of DTYPE_TO_CODE (mp_dtype p) = Some dc"
      "map_of QUANT_TO_CODE (qw_quant_type (mp_wire p)) = Some qc" and ws: "ws = packet_layout p dc qc"
    using assms(2) by (auto simp: to_values_layout)
  have codes: "0 \<le> dc \<and> dc < 2 ^ 63" "0 \<le> qc \<and> qc < 2 ^ 63"
    using c by (auto simp: DTYPE_TO_CODE_def QUANT_TO_CODE_def split: if_splits)
  have wire: "qw_bit (mp_wire p) \<in> {4, 8}" "qw_group_size (mp_wire p) \<in> {16, 32, 64}"
    and nonneg: "0 \<le> mp_payload_numel p" "0 \<le> mp_layout_generation p" "0 \<le> mp_flags p"
      "\<And>d. d \<in> set (mp_shape p) \<Longrightarrow> 0 \<le> d" "int (length (mp_shape p)) \<le> 8"
    using assms(1) by (simp_all add: valid_packet_def valid_wire_def METADATA_PACKET_MAX_NDIM_def)
  have num: "0 \<le> logical_numel p"
    using assms(1) by (rule logical_numel_nonneg)
  have "set ws \<subseteq> {1, int (length (mp_shape p)), dc, mp_payload_numel p, qw_bit (mp_wire p),
      qw_group_size (mp_wire p), qc, 0, mp_layout_generation p, mp_flags p, logical_numel p}
      \<union> set (mp_shape p)"
    by (auto simp: ws packet_layout_def)
  moreover have "0 \<le> x \<and> x < 2 ^ 63" if "x \<in> {1, int (length (mp_shape p)), dc, mp_payload_numel p,
      qw_bit (mp_wire p), qw_group_size (mp_wire p), qc, 0, mp_layout_generation p, mp_flags p,
      logical_numel p} \<union> set (mp_shape p)" for x
    using that codes wire nonneg num assms(3-7) by auto
  ultimately show ?thesis by blast
qed

lemma transfer:
  fixes zero :: 'x
  assumes p: "schema_paired s r m q dq" and t: "sendable shape flat"
    and gen: "0 \<le> gen" "gen < 2 ^ 63" and flags: "0 \<le> flags" "flags < 2 ^ 63"
    and dev: "int64_faithful int64_tensor"
  obtains words packet where
    "isend int64_tensor zero jb s shape flat (PInt gen) (PInt flags)
       = Inr [(tag_metadata (pe_tags s), Words words),
              (tag_payload (pe_tags s), Bytes (q (padded_for zero (pe_wire s) flat)))]"
    and "receiver_accept r words = Inr packet"
    and "mp_payload_numel packet = int (length (q (padded_for zero (pe_wire s) flat)))"
    and "mp_layout_generation packet = gen" and "mp_flags packet = flags"
    and "receiver_decode jx r packet (q (padded_for zero (pe_wire s) flat))
       = Inr (shape, take (length flat) (dq (q (padded_for zero (pe_wire s) flat))))"
proof -
  let ?w = "pe_wire s" and ?d = "pe_dtype s"
  let ?n = "int (length flat)" and ?g = "qw_group_size (pe_wire s)"
  let ?k = "nat (group_count ?n ?w)" and ?gb = "group_nbytes ?d ?w"
  let ?src = "padded_for zero ?w flat"
  note facts = p[unfolded schema_paired_def]
  have w: "valid_wire ?w" and cs: "codec_ready (pe_status s) m" and cr: "codec_ready (pe_status r) m"
    and code: "map_of QUANT_TO_CODE (qw_quant_type ?w) \<noteq> None"
    and same: "pe_wire r = ?w" "pe_dtype r = ?d"
    using facts by metis+
  obtain name where name: "quant_type_names (qw_quant_type ?w) = Some name"
    and qz: "quantizes m ?w ?gb name q" and dq: "dequantizes m ?w ?gb name dq"
    using facts by blast
  have g: "0 < ?g" using w by (rule valid_wire_group_pos)
  have k: "0 \<le> group_count ?n ?w" by (rule group_count_nonneg[OF w]) simp
  have size: "payload_nbytes (PInt ?n) (PDataType ?d) (Some ?w) = Inr (group_count ?n ?w * ?gb)"
    using payload_nbytes_exact[OF w] t by (simp add: sendable_def)
  have "?n \<le> align ?n ?g" using align_bounds[OF g] by simp
  then have src: "length ?src = ?k * nat ?g"
    using k by (simp add: padded_for_def group_count_align[OF w] nat_mult_distrib)
  have gb: "0 \<le> ?gb" using group_nbytes_bounds(1)[OF w, of ?d] by simp
  have buf: "length (uninitialised jb (group_count ?n ?w * ?gb)) = ?k * nat ?gb"
    "length (uninitialised jx (group_count ?n ?w * ?g)) = ?k * nat ?g"
    using k by (simp_all add: nat_mult_distrib)
  have len: "length (q ?src) = ?k * nat ?gb" by (rule quantizes_length[OF qz src])
  then have int_len: "int (length (q ?src)) = group_count ?n ?w * ?gb"
    using k gb by simp
  define packet where "packet = \<lparr>mp_shape = shape, mp_dtype = ?d, mp_wire = ?w,
      mp_payload_numel = group_count ?n ?w * ?gb, mp_layout_generation = gen, mp_flags = flags\<rparr>"
  have valid: "valid_packet packet"
    using t w code gen flags k gb by (simp add: valid_packet_def packet_def sendable_def)
  have num: "logical_numel packet = ?n"
    using t by (simp add: logical_numel_def packet_def sendable_def)
  have mk: "make_MetadataPacket (Some (map PInt shape)) (PDataType ?d) (QuantizedWire ?w)
      (PInt (group_count ?n ?w * ?gb)) (PInt gen) (PInt flags) = Inr packet"
    using valid by (simp add: make_MetadataPacket_Inr_iff valid_packet_def packet_def)
  obtain words where words: "to_values packet = Inr words"
    using packet.enc_total[OF valid] by blast
  have "group_count ?n ?w * ?gb \<le> 2 ^ 53 * 68"
    using group_count_le[OF w, of ?n] t group_nbytes_bounds(2)[OF w, of ?d] gb
    by (intro mult_mono) (simp_all add: sendable_def)
  then have "\<forall>x \<in> set words. 0 \<le> x \<and> x < 2 ^ 63"
    using t gen(2) flags(2) num
    by (intro packet_words_range[OF valid words]) (auto simp: packet_def sendable_def)
  then have tensor: "int64_tensor words = Inr words"
    using dev by (simp add: int64_faithful_def)
  show thesis
  proof
    show "isend int64_tensor zero jb s shape flat (PInt gen) (PInt flags)
        = Inr [(tag_metadata (pe_tags s), Words words), (tag_payload (pe_tags s), Bytes (q ?src))]"
      using size mk words tensor quantize_into_ready[OF cs name] quantizesD(1)[OF qz src buf(1)]
      by (simp add: isend_def pad_source_eq[OF w] Let_def)
    show "receiver_accept r words = Inr packet"
      using packet.dec_enc[OF valid words] size num same
      by (simp add: receiver_accept_def packet_def)
    show "mp_payload_numel packet = int (length (q ?src))"
      "mp_layout_generation packet = gen" "mp_flags packet = flags"
      using int_len by (simp_all add: packet_def)
    have "(?n + ?g - 1) div ?g = group_count ?n ?w"
      by (simp add: group_count_def)
    then show "receiver_decode jx r packet (q ?src)
        = Inr (shape, take (length flat) (dq (q ?src)))"
      using dequantize_into_ready[OF cr name] dequantizesD(1)[OF dq len buf(2)] num
      by (simp add: receiver_decode_def packet_def Let_def)
  qed
qed

text \<open>What a receiver lets through: only a packet of its own schema and of the right size.\<close>

lemma receiver_accept_Inr:
  assumes "receiver_accept r words = Inr packet"
  shows "valid_packet packet" and "to_values packet = Inr words"
    and "mp_dtype packet = pe_dtype r" and "mp_wire packet = pe_wire r"
    and "logical_numel packet < 2 ^ 53 \<Longrightarrow> mp_payload_numel packet
           = group_count (logical_numel packet) (pe_wire r) * group_nbytes (pe_dtype r) (pe_wire r)"
proof -
  have dec: "decode_packet words = Inr packet" and f: "mp_dtype packet = pe_dtype r" "mp_wire packet = pe_wire r"
    and size: "payload_nbytes (PInt (logical_numel packet)) (PDataType (mp_dtype packet))
      (Some (mp_wire packet)) = Inr (mp_payload_numel packet)"
    using assms by (auto simp: receiver_accept_def)
  then show "valid_packet packet" "to_values packet = Inr words"
    "mp_dtype packet = pe_dtype r" "mp_wire packet = pe_wire r"
    using packet.enc_dec[OF dec] by simp_all
  then show "mp_payload_numel packet
      = group_count (logical_numel packet) (pe_wire r) * group_nbytes (pe_dtype r) (pe_wire r)"
    if "logical_numel packet < 2 ^ 53"
    using size f payload_nbytes_exact[of "mp_wire packet" "logical_numel packet" "mp_dtype packet"] that
      logical_numel_nonneg by (simp add: valid_packet_def)
qed

section \<open>Streams of transfers\<close>

text \<open>
  The two queues of one pair of tags, and the receives posted on it.  \<open>irecv\<close> posts the
  metadata receive in the caller's thread, so the receives match the packets in call order;
  the payload receive is posted by the pool thread that finishes the metadata.  \<open>Waiting\<close>
  holds the packet a receive matched, \<open>Received\<close> its outcome.
\<close>

datatype 'x task = Waiting "int list" | Received "(int list \<times> 'x list) res"

record 'x channel =
  ch_metadata :: "int list list"
  ch_payload :: "byte list list"
  ch_tasks :: "'x task list"

definition submit :: "(int \<times> message) list \<Rightarrow> 'x p2p_end \<Rightarrow> 'x channel \<Rightarrow> 'x channel" where
  "submit msgs e ch =
     ch\<lparr>ch_metadata := ch_metadata ch
          @ concat (map (\<lambda>(t, msg). case msg of Words ws \<Rightarrow> if t = tag_metadata (pe_tags e) then [ws] else []
                                               | Bytes _ \<Rightarrow> []) msgs),
        ch_payload := ch_payload ch
          @ concat (map (\<lambda>(t, msg). case msg of Bytes bs \<Rightarrow> if t = tag_payload (pe_tags e) then [bs] else []
                                               | Words _ \<Rightarrow> []) msgs)\<rparr>"

text \<open>\<open>irecv\<close> on a channel whose next packet has arrived.\<close>

definition post_receive :: "'x channel \<Rightarrow> 'x channel" where
  "post_receive ch =
     (case ch_metadata ch of
        [] \<Rightarrow> ch
      | ws # rest \<Rightarrow> ch\<lparr>ch_metadata := rest, ch_tasks := ch_tasks ch @ [Waiting ws]\<rparr>)"

text \<open>A pool thread finishes receive \<open>i\<close>.\<close>

definition finish_receive :: "(nat \<Rightarrow> 'x) \<Rightarrow> 'x p2p_end \<Rightarrow> nat \<Rightarrow> 'x channel \<Rightarrow> 'x channel" where
  "finish_receive junk e i ch =
     (case ch_tasks ch ! i of
        Received r \<Rightarrow> ch
      | Waiting ws \<Rightarrow>
          (case receiver_accept e ws of
             Inl err \<Rightarrow> ch\<lparr>ch_tasks := (ch_tasks ch)[i := Received (Inl err)]\<rparr>
           | Inr packet \<Rightarrow>
               (case ch_payload ch of
                  [] \<Rightarrow> ch
                | payload # rest \<Rightarrow>
                    ch\<lparr>ch_payload := rest,
                       ch_tasks := (ch_tasks ch)[i := Received (receiver_decode junk e packet payload)]\<rparr>)))"

text \<open>\<open>recv\<close>, and a sequence of them: each receive is posted, then waited for.\<close>

definition recv :: "(nat \<Rightarrow> 'x) \<Rightarrow> 'x p2p_end \<Rightarrow> 'x channel \<Rightarrow> 'x channel" where
  "recv junk e ch = finish_receive junk e (length (ch_tasks ch)) (post_receive ch)"

fun recv_n :: "nat \<Rightarrow> (nat \<Rightarrow> 'x) \<Rightarrow> 'x p2p_end \<Rightarrow> 'x channel \<Rightarrow> 'x channel" where
  "recv_n 0 junk e ch = ch"
| "recv_n (Suc n) junk e ch = recv_n n junk e (recv junk e ch)"

text \<open>The packets and payloads of a stream of tensors, as the sender submits them.\<close>

definition transfers ::
    "'x p2p_end \<Rightarrow> (nat \<Rightarrow> 'x) \<Rightarrow> (int list \<times> byte list) list \<Rightarrow> (int list \<times> 'x list) list \<Rightarrow> bool" where
  "transfers r junk sent received \<longleftrightarrow>
     list_all2 (\<lambda>(ws, bs) out. \<exists>packet. receiver_accept r ws = Inr packet
        \<and> receiver_decode junk r packet bs = Inr out) sent received"

lemma recv_transfer:
  assumes "receiver_accept r ws = Inr packet" and "receiver_decode junk r packet bs = Inr out"
    and "ch_metadata ch = ws # md" and "ch_payload ch = bs # pl"
  shows "recv junk r ch = ch\<lparr>ch_metadata := md, ch_payload := pl,
      ch_tasks := ch_tasks ch @ [Received (Inr out)]\<rparr>"
  using assms by (simp add: recv_def post_receive_def finish_receive_def)

text \<open>Receives that do not overlap deliver the tensors in the order they were sent.\<close>

lemma recv_n_transfers:
  assumes "transfers r junk sent received"
    and "ch_metadata ch = map fst sent @ md" and "ch_payload ch = map snd sent @ pl"
  shows "recv_n (length sent) junk r ch = ch\<lparr>ch_metadata := md, ch_payload := pl,
      ch_tasks := ch_tasks ch @ map (\<lambda>out. Received (Inr out)) received\<rparr>"
  using assms unfolding transfers_def
proof (induction sent arbitrary: received ch)
  case Nil
  then show ?case by simp
next
  case (Cons x sent)
  obtain ws bs where x: "x = (ws, bs)" by (cases x)
  with Cons.prems(1) obtain packet out outs where
    a: "receiver_accept r ws = Inr packet" "receiver_decode junk r packet bs = Inr out"
    and outs: "received = out # outs"
      "list_all2 (\<lambda>(ws, bs) out. \<exists>packet. receiver_accept r ws = Inr packet
        \<and> receiver_decode junk r packet bs = Inr out) sent outs"
    by (auto simp: list_all2_Cons1)
  have "recv junk r ch = ch\<lparr>ch_metadata := map fst sent @ md, ch_payload := map snd sent @ pl,
      ch_tasks := ch_tasks ch @ [Received (Inr out)]\<rparr>"
    by (rule recv_transfer[OF a]) (use Cons.prems x in simp_all)
  then show ?case
    using Cons.IH[OF outs(2)] outs(1) by simp
qed

text \<open>
  Receives that overlap: both packets are matched before either payload receive is posted,
  and the second thread posts first.  Each receive then decodes the other's payload.
\<close>

lemma overlapping_receives_swap:
  assumes a: "receiver_accept r ws = Inr packet" "receiver_accept r ws' = Inr packet'"
    and ch: "ch_metadata ch = [ws, ws']" "ch_payload ch = [bs, bs']" "ch_tasks ch = []"
  shows "ch_tasks (finish_receive junk r 0 (finish_receive junk r 1 (post_receive (post_receive ch))))
     = [Received (receiver_decode junk r packet bs'), Received (receiver_decode junk r packet' bs)]"
  using assms by (simp add: post_receive_def finish_receive_def)

end
