(* ===== verification/Dynamic_All_Gather.thy ===== *)
theory Dynamic_All_Gather
  imports P2P
begin

text \<open>
  \<open>backends/cuda/dynamic_all_gather.py\<close>: an all-gather of tensors whose shapes differ between
  ranks.  A first collective gathers metadata packets, a second one payloads at a common
  stride.  \<open>run\<close> is split at the two collectives: what a rank contributes to the first, what
  it makes of the gathered packets, what it contributes to the second, and its outputs.
\<close>

record 'x dynamic_all_gather =
  dg_dtype :: data_type
  dg_wire :: quantized_wire
  dg_layout_generation :: int
  dg_status :: "'x native extension_status"

definition make_CudaDynamicAllGather ::
    "pyval \<Rightarrow> wire \<Rightarrow> int \<Rightarrow> 'x native extension_status \<Rightarrow> 'x dynamic_all_gather res" where
  "make_CudaDynamicAllGather dtype wire layout_generation status =
     (if \<not> is_data_type dtype then Inl (TypeError ''dtype must be a DataType'')
      else case wire of
          QuantizedWire w \<Rightarrow>
            if layout_generation < 0
              then Inl (ValueError ''layout_generation must be non-negative'')
            else Inr \<lparr>dg_dtype = the_data_type dtype, dg_wire = w,
                      dg_layout_generation = layout_generation, dg_status = status\<rparr>
        | _ \<Rightarrow> Inl (TypeError ''wire must be a QuantizedWire''))"

definition aligned :: "int \<Rightarrow> int \<Rightarrow> int" where
  "aligned numel group_size = (numel + group_size - 1) div group_size * group_size"

definition aligned_payload_stride :: "int list \<Rightarrow> int res" where
  "aligned_payload_stride payload_sizes =
     (if payload_sizes = [] \<or> (\<exists>size \<in> set payload_sizes. size < 0)
        then Inl (ValueError ''payload_sizes must be non-empty and non-negative'')
      else Inr (aligned (Max (set payload_sizes)) 16))"

definition dynamic_pad :: "'x \<Rightarrow> 'x list \<Rightarrow> int \<Rightarrow> 'x list" where
  "dynamic_pad zero flat group_size =
     (if int (length flat) mod group_size = 0 then flat
      else pad zero (aligned (int (length flat)) group_size) flat)"

text \<open>Up to the first collective: the rank's payload and its metadata words.\<close>

definition dynamic_contribute ::
    "(int list \<Rightarrow> int list res) \<Rightarrow> 'x \<Rightarrow> (nat \<Rightarrow> byte) \<Rightarrow> 'x dynamic_all_gather \<Rightarrow> int list \<Rightarrow> 'x list
     \<Rightarrow> (byte list \<times> int list) res" where
  "dynamic_contribute int64_tensor zero junk e shape flat =
     (let prepared = dynamic_pad zero flat (qw_group_size (dg_wire e)) in
      rbind (payload_nbytes (PInt (int (length flat))) (PDataType (dg_dtype e)) (Some (dg_wire e)))
        (\<lambda>valid_payload.
      rbind (quantize_into (dg_status e) prepared (uninitialised junk valid_payload) (dg_wire e))
        (\<lambda>payload.
      rbind (make_MetadataPacket (Some (map PInt shape)) (PDataType (dg_dtype e))
               (QuantizedWire (dg_wire e)) (PInt valid_payload) (PInt (dg_layout_generation e))
               (PInt 0)) (\<lambda>packet.
      rbind (to_values packet) (\<lambda>values.
      rbind (int64_tensor values) (\<lambda>metadata. Inr (payload, metadata)))))))"

text \<open>The packets of the gathered rows, checked against the rank's own schema.\<close>

definition dynamic_check :: "'x dynamic_all_gather \<Rightarrow> metadata_packet \<Rightarrow> unit res" where
  "dynamic_check e received =
     (if mp_dtype received \<noteq> dg_dtype e \<or> mp_wire received \<noteq> dg_wire e
        then Inl (ValueError ''dynamic all-gather metadata schema mismatch'')
      else if mp_layout_generation received \<noteq> dg_layout_generation e
        then Inl (ValueError ''dynamic all-gather layout generation mismatch'')
      else Inr ())"

definition dynamic_packets :: "'x dynamic_all_gather \<Rightarrow> int list list \<Rightarrow> metadata_packet list res" where
  "dynamic_packets e rows =
     rbind (rmap decode_packet rows) (\<lambda>packets.
     rbind (rmap (dynamic_check e) packets) (\<lambda>_. Inr packets))"

definition dynamic_stride :: "metadata_packet list \<Rightarrow> int res" where
  "dynamic_stride packets = aligned_payload_stride (map mp_payload_numel packets)"

definition dynamic_send :: "int \<Rightarrow> byte list \<Rightarrow> byte list" where
  "dynamic_send stride payload = write_prefix payload (replicate (nat stride) 0)"

text \<open>After the second collective.\<close>

definition dynamic_output ::
    "(nat \<Rightarrow> 'x) \<Rightarrow> 'x dynamic_all_gather \<Rightarrow> int \<Rightarrow> byte list \<Rightarrow> nat \<Rightarrow> metadata_packet
     \<Rightarrow> (int list \<times> 'x list) res" where
  "dynamic_output junk e stride gathered rank active =
     (let padded_numel = aligned (logical_numel active) (qw_group_size (mp_wire active)) in
      rbind (dequantize_into (dg_status e)
               (narrow gathered (rank * nat stride) (nat (mp_payload_numel active)))
               (uninitialised junk padded_numel) (mp_wire active) (PDataType (mp_dtype active)))
        (\<lambda>out. Inr (mp_shape active, take (nat (logical_numel active)) out)))"

definition dynamic_outputs ::
    "(nat \<Rightarrow> 'x) \<Rightarrow> 'x dynamic_all_gather \<Rightarrow> int \<Rightarrow> byte list \<Rightarrow> metadata_packet list
     \<Rightarrow> (int list \<times> 'x list) list res" where
  "dynamic_outputs junk e stride gathered packets =
     rmap (\<lambda>(rank, active). dynamic_output junk e stride gathered rank active)
       (zip [0..<length packets] packets)"

section \<open>Agreement on the schema\<close>

definition same_schema :: "'x dynamic_all_gather \<Rightarrow> metadata_packet \<Rightarrow> bool" where
  "same_schema e p \<longleftrightarrow>
     mp_dtype p = dg_dtype e \<and> mp_wire p = dg_wire e \<and> mp_layout_generation p = dg_layout_generation e"

lemma dynamic_check_Inr [simp]: "dynamic_check e p = Inr u \<longleftrightarrow> same_schema e p"
  by (auto simp: dynamic_check_def same_schema_def)

lemma dynamic_packets_Inr_iff:
  "dynamic_packets e rows = Inr ps \<longleftrightarrow> rmap decode_packet rows = Inr ps \<and> (\<forall>p \<in> set ps. same_schema e p)"
proof -
  have "(\<exists>us. rmap (dynamic_check e) ps = Inr us) \<longleftrightarrow> (\<forall>p \<in> set ps. same_schema e p)"
    by (induction ps) auto
  then show ?thesis by (auto simp: dynamic_packets_def)
qed

text \<open>
  Every rank's own packet is among the rows, so a rank that accepts knows that all ranks
  have its schema: either every rank goes on to the second collective or none does.
\<close>

lemma dynamic_unanimous:
  assumes "length rows = W" and "\<And>r. r < W \<Longrightarrow> \<exists>p. decode_packet (rows ! r) = Inr p \<and> same_schema (e r) p"
    and "r < W" and "r' < W" and "dynamic_packets (e r) rows = Inr ps"
  shows "dynamic_packets (e r') rows = Inr ps"
proof -
  have dec: "list_all2 (\<lambda>ws p. decode_packet ws = Inr p) rows ps" and own: "\<forall>p \<in> set ps. same_schema (e r) p"
    using assms(5) by (auto simp: dynamic_packets_Inr_iff rmap_Inr_iff)
  obtain p where "decode_packet (rows ! r') = Inr p" "same_schema (e r') p"
    using assms(2,4) by blast
  moreover have "decode_packet (rows ! r') = Inr (ps ! r')" and "ps ! r' \<in> set ps"
    using dec assms(1,4) by (auto simp: list_all2_conv_all_nth)
  ultimately have "same_schema (e r') (ps ! r')" "same_schema (e r) (ps ! r')"
    using own by auto
  then have "same_schema (e r') q \<longleftrightarrow> same_schema (e r) q" for q
    by (auto simp: same_schema_def)
  then show ?thesis
    using assms(5) by (simp add: dynamic_packets_Inr_iff)
qed

section \<open>The stride\<close>

lemma aligned_payload_stride_Inr:
  assumes "aligned_payload_stride sizes = Inr stride"
  shows "16 dvd stride" and "x \<in> set sizes \<Longrightarrow> x \<le> stride"
    and "stride < Max (set sizes) + 16" and "0 \<le> stride"
proof -
  have s: "stride = align (Max (set sizes)) 16" and ne: "sizes \<noteq> []" "\<forall>s \<in> set sizes. 0 \<le> s"
    using assms by (auto simp: aligned_payload_stride_def aligned_def align_eq not_less)
  show "16 dvd stride" by (simp add: s align_dvd)
  have top: "Max (set sizes) \<le> stride"
    unfolding s using align_bounds[of 16 "Max (set sizes)"] by linarith
  show "x \<in> set sizes \<Longrightarrow> x \<le> stride"
    by (rule order_trans[OF Max_ge top]) simp_all
  show "stride < Max (set sizes) + 16"
    using align_bounds[of 16 "Max (set sizes)"] by (simp add: s)
  have "0 \<le> Max (set sizes)" using ne by simp
  then show "0 \<le> stride" by (simp add: s align_nonneg)
qed

section \<open>The whole exchange\<close>

text \<open>
  A contribution is what a point-to-point sender of the same schema would send, and an output
  is what the receiver would decode, so the transfer lemma carries over.
\<close>

definition as_end :: "'x dynamic_all_gather \<Rightarrow> 'x p2p_end" where
  "as_end e = \<lparr>pe_peer = 0, pe_tags = \<lparr>tag_metadata = 0, tag_payload = 1\<rparr>, pe_dtype = dg_dtype e,
     pe_wire = dg_wire e, pe_status = dg_status e\<rparr>"

lemma dynamic_pad_source: "dynamic_pad zero flat g = pad_source zero flat (int (length flat)) g"
  by (simp add: dynamic_pad_def pad_source_def aligned_def)

lemma contribute_isend:
  assumes "isend int64_tensor zero junk (as_end e) shape flat (PInt (dg_layout_generation e)) (PInt 0)
    = Inr [(t, Words md), (t', Bytes payload)]"
  shows "dynamic_contribute int64_tensor zero junk e shape flat = Inr (payload, md)"
  using assms by (auto simp: isend_def dynamic_contribute_def as_end_def dynamic_pad_source Let_def)

lemma output_decode:
  "dynamic_output junk e stride gathered rank active
     = receiver_decode junk (as_end e) active
         (narrow gathered (rank * nat stride) (nat (mp_payload_numel active)))"
  by (simp add: dynamic_output_def receiver_decode_def as_end_def aligned_def Let_def)

text \<open>Two ranks of one group: the schema is the same, and both have the kernels.\<close>

definition schema_ready ::
    "'x dynamic_all_gather \<Rightarrow> 'x dynamic_all_gather \<Rightarrow> 'x native \<Rightarrow> ('x list \<Rightarrow> byte list)
     \<Rightarrow> (byte list \<Rightarrow> 'x list) \<Rightarrow> bool" where
  "schema_ready e e' m q dq \<longleftrightarrow> schema_paired (as_end e) (as_end e') m q dq
     \<and> dg_layout_generation e' = dg_layout_generation e
     \<and> 0 \<le> dg_layout_generation e \<and> dg_layout_generation e < 2 ^ 63"

lemma contribution:
  fixes zero :: 'x
  assumes "schema_ready e e' m q dq" and "sendable shape flat"
    and dev: "int64_faithful int64_tensor"
  obtains md packet where
    "dynamic_contribute int64_tensor zero jb e shape flat
       = Inr (q (padded_for zero (dg_wire e) flat), md)"
    and "decode_packet md = Inr packet" and "same_schema e' packet"
    and "mp_payload_numel packet = int (length (q (padded_for zero (dg_wire e) flat)))"
    and "receiver_decode jx (as_end e') packet (q (padded_for zero (dg_wire e) flat))
       = Inr (shape, take (length flat) (dq (q (padded_for zero (dg_wire e) flat))))"
proof -
  let ?g = "dg_layout_generation e" and ?s = "as_end e" and ?r = "as_end e'"
  have p: "schema_paired ?s ?r m q dq" and gen: "0 \<le> ?g" "?g < 2 ^ 63" "dg_layout_generation e' = ?g"
    using assms(1) by (simp_all add: schema_ready_def)
  have w: "pe_wire ?s = dg_wire e" "pe_wire ?r = dg_wire e'" "pe_dtype ?r = dg_dtype e'"
    by (simp_all add: as_end_def)
  show thesis
  proof (rule transfer[OF p assms(2) gen(1,2) order_refl _ dev, where zero = zero and jb = jb and jx = jx])
    fix words packet
    assume send: "isend int64_tensor zero jb ?s shape flat (PInt ?g) (PInt 0)
        = Inr [(tag_metadata (pe_tags ?s), Words words),
            (tag_payload (pe_tags ?s), Bytes (q (padded_for zero (pe_wire ?s) flat)))]"
      and acc: "receiver_accept ?r words = Inr packet"
      and size: "mp_payload_numel packet = int (length (q (padded_for zero (pe_wire ?s) flat)))"
      and gen': "mp_layout_generation packet = ?g"
      and out: "receiver_decode jx ?r packet (q (padded_for zero (pe_wire ?s) flat))
        = Inr (shape, take (length flat) (dq (q (padded_for zero (pe_wire ?s) flat))))"
    have "decode_packet words = Inr packet"
      using acc by (simp add: receiver_accept_def)
    moreover have "same_schema e' packet"
      using receiver_accept_Inr(3,4)[OF acc] gen' gen(3) by (simp add: same_schema_def w)
    ultimately show thesis
      using that contribute_isend[OF send] size out by (simp add: w)
  qed simp
qed

text \<open>
  Every rank ends with every rank's tensor, in rank order, each with its own shape.  The rows
  of the first collective are the ranks' metadata words; the second gathers the send buffers.
\<close>

definition dynamic_result :: "'x \<Rightarrow> quantized_wire \<Rightarrow> ('x list \<Rightarrow> byte list) \<Rightarrow> (byte list \<Rightarrow> 'x list)
    \<Rightarrow> int list \<times> 'x list \<Rightarrow> int list \<times> 'x list" where
  "dynamic_result zero w q dq t =
     (fst t, take (length (snd t)) (dq (q (padded_for zero w (snd t)))))"

lemma dynamic_exchange:
  fixes zero :: 'x and e :: "nat \<Rightarrow> 'x dynamic_all_gather"
  assumes ready: "\<And>i. i < length tensors \<Longrightarrow> schema_ready (e i) (e r) m q dq"
    and ts: "tensors \<noteq> []" "\<And>t. t \<in> set tensors \<Longrightarrow> sendable (fst t) (snd t)"
    and dev: "int64_faithful int64_tensor"
    and c: "length cs = length tensors" "\<And>i. i < length tensors \<Longrightarrow>
      dynamic_contribute int64_tensor zero (jb i) (e i) (fst (tensors ! i)) (snd (tensors ! i)) = Inr (cs ! i)"
  shows "\<exists>packets stride. dynamic_packets (e r) (map snd cs) = Inr packets
     \<and> dynamic_stride packets = Inr stride
     \<and> dynamic_outputs jx (e r) stride (concat (map (dynamic_send stride \<circ> fst) cs)) packets
         = Inr (map (dynamic_result zero (dg_wire (e r)) q dq) tensors)"
proof -
  let ?n = "length tensors" and ?w = "dg_wire (e r)"
  let ?pay = "\<lambda>i. q (padded_for zero ?w (snd (tensors ! i)))"
  have wire: "dg_wire (e i) = ?w" if "i < ?n" for i
    using ready[OF that] by (auto simp: schema_ready_def schema_paired_def as_end_def)
  have "\<exists>packet. fst (cs ! i) = ?pay i \<and> decode_packet (snd (cs ! i)) = Inr packet
      \<and> same_schema (e r) packet \<and> mp_payload_numel packet = int (length (?pay i))
      \<and> receiver_decode jx (as_end (e r)) packet (?pay i) = Inr (dynamic_result zero ?w q dq (tensors ! i))"
    if i: "i < ?n" for i
    by (rule contribution[OF ready[OF i] ts(2)[OF nth_mem[OF i]] dev, where zero = zero and jb = "jb i" and jx = jx])
      (use c(2)[OF i] wire[OF i] in \<open>auto simp: dynamic_result_def\<close>)
  then obtain pk where dec: "\<And>i. i < ?n \<Longrightarrow> fst (cs ! i) = ?pay i \<and> decode_packet (snd (cs ! i)) = Inr (pk i)
      \<and> same_schema (e r) (pk i) \<and> mp_payload_numel (pk i) = int (length (?pay i))
      \<and> receiver_decode jx (as_end (e r)) (pk i) (?pay i) = Inr (dynamic_result zero ?w q dq (tensors ! i))"
    by metis
  let ?packets = "map pk [0..<?n]"
  have "rmap decode_packet (map snd cs) = Inr ?packets"
    unfolding rmap_Inr_iff using dec c(1) by (simp add: list_all2_conv_all_nth)
  then have pk: "dynamic_packets (e r) (map snd cs) = Inr ?packets"
    using dec by (auto simp: dynamic_packets_Inr_iff)
  have "\<exists>stride. dynamic_stride ?packets = Inr stride"
    using ts(1) dec by (auto simp: dynamic_stride_def aligned_payload_stride_def)
  then obtain stride where stride: "dynamic_stride ?packets = Inr stride" by blast
  have fits: "length (?pay i) \<le> nat stride" if i: "i < ?n" for i
    using aligned_payload_stride_Inr(2)[OF stride[unfolded dynamic_stride_def], of "mp_payload_numel (pk i)"]
      dec[OF i] i by force
  let ?rows = "map (dynamic_send stride \<circ> fst) cs"
  have row: "?rows ! i = dynamic_send stride (?pay i)" if "i < ?n" for i
    using that c(1) dec[OF that] by simp
  have len: "length x = nat stride" if x: "x \<in> set ?rows" for x
  proof -
    obtain i where "i < ?n" "x = ?rows ! i" using x c(1) by (metis in_set_conv_nth length_map)
    then show ?thesis using row fits by (simp add: dynamic_send_def)
  qed
  have out: "dynamic_output jx (e r) stride (concat ?rows) i (pk i)
      = Inr (dynamic_result zero ?w q dq (tensors ! i))" if i: "i < ?n" for i
  proof -
    have "narrow (concat ?rows) (i * nat stride) (length (?pay i)) = take (length (?pay i)) (?rows ! i)"
      by (rule narrow_prefix[OF len]) (use i fits c(1) in auto)
    also have "\<dots> = ?pay i"
      unfolding row[OF i] using fits[OF i] by (simp add: dynamic_send_def)
    finally show ?thesis
      using dec[OF i] by (simp add: output_decode)
  qed
  have "dynamic_outputs jx (e r) stride (concat ?rows) ?packets
      = Inr (map (dynamic_result zero ?w q dq) tensors)"
    unfolding dynamic_outputs_def rmap_Inr_iff using out by (simp add: list_all2_conv_all_nth)
  with pk stride show ?thesis by blast
qed

end
