(* ===== verification/Transfer_Properties.thy ===== *)
theory Transfer_Properties
  imports Cuda_Collectives Dynamic_All_Gather
begin

text \<open>
  The properties of the dynamic-shape transfers: one point-to-point tensor, streams of them,
  receives that overlap, and the dynamic all-gather.
\<close>

section \<open>Point to point\<close>

text \<open>What a tensor becomes on the way: shape kept, elements through the codec.\<close>

abbreviation delivered where "delivered \<equiv> dynamic_result"

lemma delivered_length:
  assumes "schema_paired s r m q dq"
  shows "length (snd (delivered zero (pe_wire s) q dq (shape, flat))) = length flat"
proof -
  let ?w = "pe_wire s" and ?n = "int (length flat)"
  obtain gb name where w: "valid_wire ?w" and qz: "quantizes m ?w gb name q" and dq: "dequantizes m ?w gb name dq"
    using assms unfolding schema_paired_def by blast
  let ?k = "nat (group_count ?n ?w)"
  have "align ?n (qw_group_size ?w) = int ?k * qw_group_size ?w" and le: "?n \<le> align ?n (qw_group_size ?w)"
    using align_bounds[of "qw_group_size ?w" ?n] group_count_nonneg[OF w, of ?n] valid_wire_group_pos[OF w]
    by (simp_all add: group_count_align[OF w])
  then have src: "length (padded_for zero ?w flat) = ?k * nat (qw_group_size ?w)"
    by (simp add: padded_for_def nat_mult_distrib)
  note payload = quantizes_length[OF qz src]
  have "length (dq (q (padded_for zero ?w flat))) = ?k * nat (qw_group_size ?w)"
    using dequantizesD(2)[OF dq payload, of "replicate (?k * nat (qw_group_size ?w)) zero"] by simp
  moreover have "length flat \<le> ?k * nat (qw_group_size ?w)"
    using src le by (simp add: padded_for_def pad_def)
  ultimately show ?thesis by (simp add: dynamic_result_def)
qed

lemma submit_sent:
  "submit [(tag_metadata (pe_tags s), Words ws), (tag_payload (pe_tags s), Bytes bs)] s ch
    = ch\<lparr>ch_metadata := ch_metadata ch @ [ws], ch_payload := ch_payload ch @ [bs]\<rparr>"
  by (simp add: submit_def)

text \<open>One tensor of a stream: what is sent, and what the receiver makes of it.\<close>

lemma sent_tensor:
  fixes zero :: 'x
  assumes "schema_paired s r m q dq" and "sendable (fst t) (snd t)"
    and "0 \<le> gen" "gen < 2 ^ 63" and "0 \<le> flags" "flags < 2 ^ 63" and "int64_faithful int64_tensor"
    and "isend int64_tensor zero jb s (fst t) (snd t) (PInt gen) (PInt flags) = Inr msgs"
  shows "\<exists>ws bs packet. msgs = [(tag_metadata (pe_tags s), Words ws), (tag_payload (pe_tags s), Bytes bs)]
     \<and> bs = q (padded_for zero (pe_wire s) (snd t))
     \<and> receiver_accept r ws = Inr packet \<and> mp_shape packet = fst t
     \<and> receiver_decode jx r packet bs = Inr (delivered zero (pe_wire s) q dq t)"
proof (rule transfer[OF assms(1-7), where zero = zero and jb = jb and jx = jx])
  fix words packet
  assume send: "isend int64_tensor zero jb s (fst t) (snd t) (PInt gen) (PInt flags)
      = Inr [(tag_metadata (pe_tags s), Words words),
          (tag_payload (pe_tags s), Bytes (q (padded_for zero (pe_wire s) (snd t))))]"
    and acc: "receiver_accept r words = Inr packet"
    and dec: "receiver_decode jx r packet (q (padded_for zero (pe_wire s) (snd t)))
      = Inr (fst t, take (length (snd t)) (dq (q (padded_for zero (pe_wire s) (snd t)))))"
  have "mp_shape packet = fst t"
    using dec by (auto simp: receiver_decode_def Let_def)
  then show ?thesis
    using send acc dec assms(8) by (auto simp: dynamic_result_def)
qed

lemma submit_all:
  assumes "list_all2 (\<lambda>msgs (ws, bs). msgs = [(tag_metadata (pe_tags s), Words ws),
      (tag_payload (pe_tags s), Bytes bs)]) msgss sent"
  shows "fold (\<lambda>msgs. submit msgs s) msgss ch
    = ch\<lparr>ch_metadata := ch_metadata ch @ map fst sent, ch_payload := ch_payload ch @ map snd sent\<rparr>"
  using assms
proof (induction msgss arbitrary: sent ch)
  case Nil
  then show ?case by simp
next
  case (Cons msgs msgss)
  then show ?case by (auto simp: list_all2_Cons1 submit_sent)
qed

text \<open>The messages of a list of sends are transfers of the tensors, when each send alone is one.\<close>

lemma sends_transfer:
  assumes "\<And>t msgs. t \<in> set tensors \<Longrightarrow> send t = Inr msgs \<Longrightarrow>
      \<exists>x. msgs = [(tag_metadata tags, Words (fst x)), (tag_payload tags, Bytes (snd x))]
        \<and> (\<exists>packet. receiver_accept r (fst x) = Inr packet \<and> receiver_decode jx r packet (snd x) = Inr (f t))"
    and "list_all2 (\<lambda>t msgs. send t = Inr msgs) tensors msgss"
  shows "\<exists>sent. list_all2 (\<lambda>msgs (ws, bs). msgs = [(tag_metadata tags, Words ws), (tag_payload tags, Bytes bs)]) msgss sent
      \<and> transfers r jx sent (map f tensors)"
  using assms
proof (induction tensors arbitrary: msgss)
  case Nil
  then show ?case by (intro exI[of _ "[]"]) (simp add: transfers_def)
next
  case (Cons t tensors)
  then obtain msgs rest where m: "msgss = msgs # rest" "send t = Inr msgs"
      "list_all2 (\<lambda>t msgs. send t = Inr msgs) tensors rest"
    by (auto simp: list_all2_Cons1)
  obtain x where x: "msgs = [(tag_metadata tags, Words (fst x)), (tag_payload tags, Bytes (snd x))]"
      "\<exists>packet. receiver_accept r (fst x) = Inr packet \<and> receiver_decode jx r packet (snd x) = Inr (f t)"
    using Cons.prems(1)[OF _ m(2)] by (meson list.set_intros(1))
  obtain sent where "list_all2 (\<lambda>msgs (ws, bs). msgs = [(tag_metadata tags, Words ws), (tag_payload tags, Bytes bs)]) rest sent"
      "transfers r jx sent (map f tensors)"
    using Cons.IH[OF _ m(3)] Cons.prems(1) by (meson list.set_intros(2))
  then show ?case
    using m(1) x by (intro exI[of _ "x # sent"], cases x) (auto simp: transfers_def)
qed

text \<open>C24: tensors sent one after the other over a quantised point-to-point link and received one
  after the other arrive in the order they were sent, each with its own shape and element
  count, although the receiver is told no shape in advance; each element is what the codec
  makes of it.\<close>

theorem p2p_stream_in_order:
  fixes zero :: 'x
  assumes "schema_paired s r m q dq" and "int64_faithful int64_tensor"
    and "0 \<le> gen" "gen < 2 ^ 63" and "0 \<le> flags" "flags < 2 ^ 63"
    and "\<And>t. t \<in> set tensors \<Longrightarrow> sendable (fst t) (snd t)"
    and "rmap (\<lambda>t. isend int64_tensor zero jb s (fst t) (snd t) (PInt gen) (PInt flags)) tensors = Inr msgss"
    and "ch_metadata ch = []" and "ch_payload ch = []"
  shows "recv_n (length tensors) jx r (fold (\<lambda>msgs. submit msgs s) msgss ch)
      = ch\<lparr>ch_tasks := ch_tasks ch
          @ map (\<lambda>t. Received (Inr (dynamic_result zero (pe_wire s) q dq t))) tensors\<rparr>
    \<and> (\<forall>t \<in> set tensors. length (snd (dynamic_result zero (pe_wire s) q dq t)) = length (snd t))"
proof -
  let ?send = "\<lambda>t. isend int64_tensor zero jb s (fst t) (snd t) (PInt gen) (PInt flags)"
  have "\<exists>x. msgs = [(tag_metadata (pe_tags s), Words (fst x)), (tag_payload (pe_tags s), Bytes (snd x))]
      \<and> (\<exists>packet. receiver_accept r (fst x) = Inr packet
          \<and> receiver_decode jx r packet (snd x) = Inr (delivered zero (pe_wire s) q dq t))"
    if "t \<in> set tensors" "?send t = Inr msgs" for t msgs
    using sent_tensor[OF assms(1) assms(7)[OF that(1)] assms(3-6,2)] that(2) by fastforce
  moreover have "list_all2 (\<lambda>t msgs. ?send t = Inr msgs) tensors msgss"
    using assms(8) by (simp add: rmap_Inr_iff)
  ultimately obtain sent where sent: "list_all2 (\<lambda>msgs (ws, bs). msgs = [(tag_metadata (pe_tags s), Words ws),
        (tag_payload (pe_tags s), Bytes bs)]) msgss sent"
      "transfers r jx sent (map (delivered zero (pe_wire s) q dq) tensors)"
    using sends_transfer[of tensors ?send "pe_tags s" r jx "delivered zero (pe_wire s) q dq" msgss] by blast
  have "length sent = length tensors"
    using sent(2) by (simp add: transfers_def list_all2_lengthD)
  then show ?thesis
    using recv_n_transfers[OF sent(2), of "fold (\<lambda>msgs. submit msgs s) msgss ch" "[]" "[]"] assms(9,10)
      delivered_length[OF assms(1)]
    by (auto simp: submit_all[OF sent(1)] o_def)
qed

section \<open>A sample link\<close>

definition sample_end :: "rat p2p_end" where
  "sample_end = \<lparr>pe_peer = 1, pe_tags = \<lparr>tag_metadata = 6, tag_payload = 7\<rparr>, pe_dtype = FP16,
     pe_wire = full_wire, pe_status = sample_status 64 2\<rparr>"

definition sample_channel :: "rat channel" where
  "sample_channel = \<lparr>ch_metadata = [], ch_payload = [], ch_tasks = []\<rparr>"

definition int64_tensor :: "int list \<Rightarrow> int list res" where
  "int64_tensor ws = (if \<forall>x \<in> set ws. - (2 ^ 63) \<le> x \<and> x < 2 ^ 63 then Inr ws
     else Inl (RuntimeError ''Overflow when unpacking long''))"

lemma int64_tensor_faithful: "int64_faithful int64_tensor"
proof -
  have "0 \<le> x \<and> x < 2 ^ 63 \<Longrightarrow> - (2 ^ 63) \<le> x \<and> x < (2 ^ 63 :: int)" for x by simp
  then show ?thesis unfolding int64_faithful_def int64_tensor_def by (metis (no_types, lifting))
qed

lemma sample_ends:
  "make_CudaQuantizedSender (PInt 1) (PInt 3) (PDataType FP16) (QuantizedWire full_wire) (sample_status 64 2)
     = Inr sample_end"
  "make_CudaQuantizedReceiver (PInt 1) (PInt 3) (PDataType FP16) (QuantizedWire full_wire) (sample_status 64 2)
     = Inr sample_end"
  by (simp_all add: make_CudaQuantizedSender_def make_CudaQuantizedReceiver_def make_p2p_end_def
      from_logical_def sample_end_def)

lemma full_wire_code: "map_of QUANT_TO_CODE (qw_quant_type full_wire) \<noteq> None"
  by (simp add: QUANT_TO_CODE_def)

lemma sample_codec_64:
  "quantizes (sample_native 64 2) full_wire (group_nbytes FP16 full_wire) ''Linear'' (sample_q 64 2)"
  "dequantizes (sample_native 64 2) full_wire (group_nbytes FP16 full_wire) ''Linear'' (sample_dq 64 2)"
  using sample_kernels[of full_wire 64 66 2] by (simp_all add: sample_group)

lemma sample_paired: "schema_paired sample_end sample_end (sample_native 64 2) (sample_q 64 2) (sample_dq 64 2)"
  using sample_codec_ready[of 64 2] sample_codec_64 full_wire_code
  by (auto simp: schema_paired_def sample_end_def)

lemma sample_sendable: "length xs = 3 \<Longrightarrow> sendable [3] (xs :: rat list)"
  by (simp add: sendable_def METADATA_PACKET_MAX_NDIM_def)

text \<open>The sender accepts the sample tensors.\<close>

lemma sample_isend:
  fixes xs :: "rat list"
  assumes "length xs = 3"
  shows "\<exists>msgs. isend int64_tensor 0 (\<lambda>_. 0) sample_end [3] xs (PInt 0) (PInt 0) = Inr msgs"
  by (rule transfer[OF sample_paired sample_sendable[OF assms] _ _ _ _ int64_tensor_faithful,
      where gen = 0 and flags = 0 and zero = 0 and jb = "\<lambda>_. 0" and jx = "\<lambda>_. 0"]) auto

text \<open>A sender and a receiver constructed with the same tag, element type and wire understand
  each other: a tensor of any shape a packet can describe is received with its shape and
  element count, every element within the codec's error.\<close>

theorem p2p_tensor_roundtrip:
  fixes flat :: "rat list"
  assumes "make_CudaQuantizedSender peer tag (PDataType d) (QuantizedWire w) status = Inr s"
    and "make_CudaQuantizedReceiver peer' tag (PDataType d) (QuantizedWire w) status' = Inr r"
    and "valid_wire w" and "codec_ready status m" and "codec_ready status' m"
    and "map_of QUANT_TO_CODE (qw_quant_type w) \<noteq> None" and "quant_type_names (qw_quant_type w) = Some name"
    and "quantizes m w (group_nbytes d w) name q" and "dequantizes m w (group_nbytes d w) name dq"
    and "int64_faithful int64_tensor" and "sendable shape flat"
    and "0 \<le> gen" "gen < 2 ^ 63" and "0 \<le> flags" "flags < 2 ^ 63"
    and "ch_metadata ch = []" and "ch_payload ch = []"
    and "near (length flat) \<delta> (dq (q (padded_for zero w flat))) flat"
  shows "\<exists>msgs out. isend int64_tensor zero jb s shape flat (PInt gen) (PInt flags) = Inr msgs
     \<and> ch_tasks (recv jx r (submit msgs s ch)) = ch_tasks ch @ [Received (Inr (shape, out))]
     \<and> length out = length flat \<and> near (length flat) \<delta> out flat"
proof -
  have f: "pe_wire s = w" "pe_wire r = w" "pe_dtype s = d" "pe_dtype r = d" "pe_tags s = pe_tags r"
    "pe_status s = status" "pe_status r = status'"
    using assms(1,2) by (auto simp: make_CudaQuantizedSender_def make_CudaQuantizedReceiver_def
        make_p2p_end_def split: if_splits)
  then have p: "schema_paired s r m q dq"
    using assms(3-9) by (auto simp: schema_paired_def)
  let ?out = "take (length flat) (dq (q (padded_for zero w flat)))"
  show ?thesis
  proof (rule transfer[OF p assms(11-15,10), where zero = zero and jb = jb and jx = jx])
    fix words packet
    assume t: "isend int64_tensor zero jb s shape flat (PInt gen) (PInt flags)
        = Inr [(tag_metadata (pe_tags s), Words words),
            (tag_payload (pe_tags s), Bytes (q (padded_for zero (pe_wire s) flat)))]"
      "receiver_accept r words = Inr packet"
      "receiver_decode jx r packet (q (padded_for zero (pe_wire s) flat))
        = Inr (shape, take (length flat) (dq (q (padded_for zero (pe_wire s) flat))))"
    let ?msgs = "[(tag_metadata (pe_tags s), Words words), (tag_payload (pe_tags s), Bytes (q (padded_for zero w flat)))]"
    have "ch_tasks (recv jx r (submit ?msgs s ch)) = ch_tasks ch @ [Received (Inr (shape, ?out))]"
      using recv_transfer[OF t(2,3), of "submit ?msgs s ch" "[]" "[]"] assms(16,17) f(1)
      by (simp add: submit_sent)
    moreover have "length ?out = length flat"
      using delivered_length[OF p, of zero shape flat] f(1) by (simp add: dynamic_result_def)
    moreover have "near (length flat) \<delta> ?out flat"
      using assms(18) by (simp add: near_def)
    ultimately show ?thesis using t(1) f(1) by blast
  qed
qed

text \<open>C25: receives that overlap on one link can hand out each other's tensors: when the second
  receive's thread posts its payload receive first, the first receive returns the shape of the
  first tensor with the elements of the second and the other way round, without an error.\<close>

theorem p2p_overlapping_receives_swap:
  fixes zero :: 'x
  assumes "schema_paired s r m q dq" and "int64_faithful int64_tensor"
    and "0 \<le> gen" "gen < 2 ^ 63" and "0 \<le> flags" "flags < 2 ^ 63"
    and "sendable shape x" and "sendable shape y"
    and "isend int64_tensor zero jb s shape x (PInt gen) (PInt flags) = Inr xs"
    and "isend int64_tensor zero jb s shape y (PInt gen) (PInt flags) = Inr ys"
    and "ch_metadata ch = []" and "ch_payload ch = []" and "ch_tasks ch = []"
  shows "ch_tasks (finish_receive jx r 0 (finish_receive jx r 1
        (post_receive (post_receive (submit ys s (submit xs s ch))))))
     = [Received (Inr (dynamic_result zero (pe_wire s) q dq (shape, y))),
        Received (Inr (dynamic_result zero (pe_wire s) q dq (shape, x)))]"
proof -
  note sent = sent_tensor[OF assms(1) _ assms(3-6,2), where jx = jx and jb = jb]
  obtain ws bs packet where x: "xs = [(tag_metadata (pe_tags s), Words ws), (tag_payload (pe_tags s), Bytes bs)]"
      "receiver_accept r ws = Inr packet" "mp_shape packet = shape"
      "receiver_decode jx r packet bs = Inr (delivered zero (pe_wire s) q dq (shape, x))"
    using sent[of "(shape, x)" zero xs] assms(7,9) by auto
  obtain ws' bs' packet' where y: "ys = [(tag_metadata (pe_tags s), Words ws'), (tag_payload (pe_tags s), Bytes bs')]"
      "receiver_accept r ws' = Inr packet'" "mp_shape packet' = shape"
      "receiver_decode jx r packet' bs' = Inr (delivered zero (pe_wire s) q dq (shape, y))"
    using sent[of "(shape, y)" zero ys] assms(8,10) by auto
  have "receiver_decode jx r packet b = receiver_decode jx r packet' b" for b
    using x(2,3) y(2,3) receiver_accept_Inr(3,4)[OF x(2)] receiver_accept_Inr(3,4)[OF y(2)]
    by (simp add: receiver_decode_def logical_numel_def Let_def)
  then show ?thesis
    using overlapping_receives_swap[OF x(2) y(2), of "submit ys s (submit xs s ch)" bs bs' jx]
      x(1,4) y(1,4) assms(11-13)
    by (simp add: submit_sent)
qed

theorem p2p_stream_in_order_witness:
  "\<exists>msgss. rmap (\<lambda>t. isend int64_tensor 0 (\<lambda>_. 0) sample_end (fst t) (snd t) (PInt 0) (PInt 0))
        [([3], [2, 4, 7]), ([3], [4, 6, 1 :: rat])] = Inr msgss
     \<and> recv_n 2 (\<lambda>_. 0) sample_end (fold (\<lambda>msgs. submit msgs sample_end) msgss sample_channel)
      = sample_channel\<lparr>ch_tasks := map (\<lambda>t. Received (Inr (dynamic_result 0 full_wire (sample_q 64 2) (sample_dq 64 2) t)))
          [([3], [2, 4, 7]), ([3], [4, 6, 1])]\<rparr>"
proof -
  let ?ts = "[([3], [2, 4, 7]), ([3], [4, 6, 1 :: rat])]"
  have ts: "t \<in> set ?ts \<Longrightarrow> sendable (fst t) (snd t)" for t
    using sample_sendable by auto
  obtain a b where "isend int64_tensor 0 (\<lambda>_. 0) sample_end [3] [2, 4, 7 :: rat] (PInt 0) (PInt 0) = Inr a"
      "isend int64_tensor 0 (\<lambda>_. 0) sample_end [3] [4, 6, 1 :: rat] (PInt 0) (PInt 0) = Inr b"
    using sample_isend[of "[2, 4, 7]"] sample_isend[of "[4, 6, 1]"] by auto
  then have sends: "rmap (\<lambda>t. isend int64_tensor 0 (\<lambda>_. 0) sample_end (fst t) (snd t) (PInt 0) (PInt 0)) ?ts
      = Inr [a, b]" by simp
  note main = p2p_stream_in_order[OF sample_paired int64_tensor_faithful _ _ _ _ ts sends,
      of sample_channel "\<lambda>_. 0"]
  then show ?thesis
    using sends by (intro exI[of _ "[a, b]"]) (simp add: sample_channel_def sample_end_def numeral_2_eq_2 del: recv_n.simps)
qed

theorem p2p_tensor_roundtrip_witness:
  "\<exists>msgs out. isend int64_tensor 0 (\<lambda>_. 0) sample_end [3] [2, 4, 7 :: rat] (PInt 0) (PInt 0) = Inr msgs
     \<and> ch_tasks (recv (\<lambda>_. 0) sample_end (submit msgs sample_end sample_channel)) = [Received (Inr ([3], out))]
     \<and> near 3 1 out [2, 4, 7]"
proof -
  have near: "near (length [2, 4, 7 :: rat]) 1 (sample_dq 64 2 (sample_q 64 2 (padded_for 0 full_wire [2, 4, 7]))) [2, 4, 7]"
    using sample_near_inputs[of "[2, 4, 7]"] by (simp add: sample_inputs_def padded_for_def align_def)
  note main = p2p_tensor_roundtrip[where jb = "\<lambda>_. 0" and jx = "\<lambda>_. 0" and gen = 0 and flags = 0 and ch = sample_channel,
      OF sample_ends full_wire_simps(1) sample_codec_ready sample_codec_ready full_wire_code _ sample_codec_64
        int64_tensor_faithful sample_sendable _ _ _ _ _ _ near]
  then show ?thesis by (auto simp: sample_channel_def numeral_3_eq_3)
qed

theorem p2p_overlapping_receives_swap_witness:
  "\<exists>xs ys. isend int64_tensor 0 (\<lambda>_. 0) sample_end [3] [2, 4, 7 :: rat] (PInt 0) (PInt 0) = Inr xs
     \<and> isend int64_tensor 0 (\<lambda>_. 0) sample_end [3] [4, 6, 1 :: rat] (PInt 0) (PInt 0) = Inr ys
     \<and> ch_tasks (finish_receive (\<lambda>_. 0) sample_end 0 (finish_receive (\<lambda>_. 0) sample_end 1
        (post_receive (post_receive (submit ys sample_end (submit xs sample_end sample_channel))))))
     = [Received (Inr (dynamic_result 0 full_wire (sample_q 64 2) (sample_dq 64 2) ([3], [4, 6, 1]))),
        Received (Inr (dynamic_result 0 full_wire (sample_q 64 2) (sample_dq 64 2) ([3], [2, 4, 7])))]"
proof -
  obtain a b where sends: "isend int64_tensor 0 (\<lambda>_. 0) sample_end [3] [2, 4, 7 :: rat] (PInt 0) (PInt 0) = Inr a"
      "isend int64_tensor 0 (\<lambda>_. 0) sample_end [3] [4, 6, 1 :: rat] (PInt 0) (PInt 0) = Inr b"
    using sample_isend[of "[2, 4, 7]"] sample_isend[of "[4, 6, 1]"] by auto
  note main = p2p_overlapping_receives_swap[where jx = "\<lambda>_. 0" and ch = sample_channel,
      OF sample_paired int64_tensor_faithful _ _ _ _ sample_sendable sample_sendable sends]
  then show ?thesis
    using sends by (intro exI[of _ a] exI[of _ b]) (simp add: sample_channel_def sample_end_def)
qed

section \<open>Dynamic all-gather\<close>

text \<open>C26: a dynamic all-gather hands every rank the tensors of all ranks, in rank order, each with
  its own shape and element count, although no rank knows another's shape in advance: all
  ranks decode the same packets and compute the same 16-byte aligned stride, and every payload
  is cut out of the gathered buffer where its rank put it.\<close>

theorem dynamic_gather_delivers:
  fixes zero :: 'x and e :: "nat \<Rightarrow> 'x dynamic_all_gather"
  assumes ready: "\<And>i r. i < length tensors \<Longrightarrow> r < length tensors \<Longrightarrow> schema_ready (e i) (e r) m q dq"
    and ts: "tensors \<noteq> []" "\<And>t. t \<in> set tensors \<Longrightarrow> sendable (fst t) (snd t)"
    and dev: "int64_faithful int64_tensor"
    and c: "length cs = length tensors" "\<And>i. i < length tensors \<Longrightarrow>
      dynamic_contribute int64_tensor zero (jb i) (e i) (fst (tensors ! i)) (snd (tensors ! i)) = Inr (cs ! i)"
  shows "\<exists>packets stride. 16 dvd stride
     \<and> (\<forall>r < length tensors. dynamic_packets (e r) (map snd cs) = Inr packets
          \<and> dynamic_stride packets = Inr stride
          \<and> dynamic_outputs (jx r) (e r) stride (concat (map (dynamic_send stride \<circ> fst) cs)) packets
              = Inr (map (dynamic_result zero (dg_wire (e 0)) q dq) tensors))
     \<and> (\<forall>t \<in> set tensors. length (snd (dynamic_result zero (dg_wire (e 0)) q dq t)) = length (snd t))"
proof -
  let ?W = "length tensors"
  have W: "0 < ?W" using ts(1) by simp
  have wire: "dg_wire (e r) = dg_wire (e 0)" if "r < ?W" for r
    using ready[OF W that] by (auto simp: schema_ready_def schema_paired_def as_end_def)
  have "schema_paired (as_end (e 0)) (as_end (e 0)) m q dq"
    using ready[OF W W] by (simp add: schema_ready_def)
  from delivered_length[OF this] have lens: "length (snd (dynamic_result zero (dg_wire (e 0)) q dq t)) = length (snd t)" for t
    by (cases t) (simp add: as_end_def)
  note each = dynamic_exchange[OF ready ts dev c]
  obtain packets stride where one: "dynamic_packets (e 0) (map snd cs) = Inr packets"
      "dynamic_stride packets = Inr stride"
    using each[OF _ W] by blast
  have "dynamic_packets (e r) (map snd cs) = Inr packets \<and> dynamic_stride packets = Inr stride
      \<and> dynamic_outputs (jx r) (e r) stride (concat (map (dynamic_send stride \<circ> fst) cs)) packets
          = Inr (map (dynamic_result zero (dg_wire (e 0)) q dq) tensors)" if r: "r < ?W" for r
  proof -
    obtain packets' stride' where p: "dynamic_packets (e r) (map snd cs) = Inr packets'"
        "dynamic_stride packets' = Inr stride'"
        "dynamic_outputs (jx r) (e r) stride' (concat (map (dynamic_send stride' \<circ> fst) cs)) packets'
          = Inr (map (dynamic_result zero (dg_wire (e r)) q dq) tensors)"
      using each[OF _ r] by blast
    then have "packets' = packets" using one(1) by (auto simp: dynamic_packets_Inr_iff)
    then show ?thesis using p one(2) wire[OF r] by simp
  qed
  moreover have "16 dvd stride"
    using aligned_payload_stride_Inr(1) one(2) by (simp add: dynamic_stride_def)
  ultimately show ?thesis using lens by blast
qed

text \<open>Whatever schemas the ranks were constructed with, they agree on whether to go on: as
  every rank's own packet is among the rows it checks, either all ranks accept the metadata
  and enter the payload collective, or all raise before it; no rank is left waiting in the
  second collective for one that failed.\<close>

theorem dynamic_metadata_unanimous:
  fixes e :: "nat \<Rightarrow> 'x dynamic_all_gather"
  assumes "length rows = W" and "\<And>r. r < W \<Longrightarrow> \<exists>p. decode_packet (rows ! r) = Inr p \<and> same_schema (e r) p"
    and "r < W" and "r' < W"
  shows "(\<exists>ps. dynamic_packets (e r) rows = Inr ps) \<longleftrightarrow> (\<exists>ps. dynamic_packets (e r') rows = Inr ps)"
  using dynamic_unanimous[OF assms(1,2)] assms(3,4) by blast

definition sample_gather :: "int \<Rightarrow> rat dynamic_all_gather" where
  "sample_gather gen = \<lparr>dg_dtype = FP16, dg_wire = full_wire, dg_layout_generation = gen,
     dg_status = sample_status 64 2\<rparr>"

lemma sample_schema_ready: "0 \<le> gen \<Longrightarrow> gen < 2 ^ 63 \<Longrightarrow>
   schema_ready (sample_gather gen) (sample_gather gen) (sample_native 64 2) (sample_q 64 2) (sample_dq 64 2)"
  using sample_codec_ready[of 64 2] sample_codec_64 full_wire_code
  by (auto simp: schema_ready_def schema_paired_def sample_gather_def as_end_def)

lemma sample_gather_wire: "dg_wire (sample_gather gen) = full_wire"
  by (simp add: sample_gather_def)

lemma sample_contribute:
  assumes "sendable shape xs" and "0 \<le> gen" and "gen < 2 ^ 63"
  shows "\<exists>payload md packet. dynamic_contribute int64_tensor 0 (\<lambda>_. 0) (sample_gather gen) shape xs = Inr (payload, md)
     \<and> decode_packet md = Inr packet \<and> same_schema (sample_gather gen) packet"
  by (rule contribution[OF sample_schema_ready[OF assms(2,3)] assms(1) int64_tensor_faithful, where zero = 0
      and jb = "\<lambda>_. 0" and jx = "\<lambda>_. 0"]) auto

theorem dynamic_gather_delivers_witness:
  "\<exists>c c' packets stride.
      dynamic_contribute int64_tensor 0 (\<lambda>_. 0) (sample_gather 5) [3] [2, 4, 7] = Inr c
    \<and> dynamic_contribute int64_tensor 0 (\<lambda>_. 0) (sample_gather 5) [1, 2] [4, 6] = Inr c'
    \<and> (dynamic_outputs (\<lambda>_. 0) (sample_gather 5) stride
          (dynamic_send stride (fst c) @ dynamic_send stride (fst c')) packets
        = Inr (map (dynamic_result 0 full_wire (sample_q 64 2) (sample_dq 64 2)) [([3], [2, 4, 7]), ([1, 2], [4, 6])]))"
proof -
  let ?ts = "[([3], [2, 4, 7]), ([1, 2], [4, 6])] :: (int list \<times> rat list) list"
  have s: "sendable [3] [2, 4, 7 :: rat]" "sendable [1, 2] [4, 6 :: rat]"
    by (simp_all add: sendable_def METADATA_PACKET_MAX_NDIM_def)
  then have ts: "t \<in> set ?ts \<Longrightarrow> sendable (fst t) (snd t)" for t by auto
  obtain c c' where c: "dynamic_contribute int64_tensor 0 (\<lambda>_. 0) (sample_gather 5) [3] [2, 4, 7] = Inr c"
      "dynamic_contribute int64_tensor 0 (\<lambda>_. 0) (sample_gather 5) [1, 2] [4, 6] = Inr c'"
    using sample_contribute[OF s(1), of 5] sample_contribute[OF s(2), of 5] by auto
  then have cs: "length [c, c'] = length ?ts" "i < length ?ts \<Longrightarrow>
      dynamic_contribute int64_tensor 0 (\<lambda>_. 0) (sample_gather 5) (fst (?ts ! i)) (snd (?ts ! i)) = Inr ([c, c'] ! i)" for i
    by (auto simp: less_Suc_eq)
  have ready: "schema_ready (sample_gather 5) (sample_gather 5) (sample_native 64 2) (sample_q 64 2) (sample_dq 64 2)"
    by (rule sample_schema_ready) simp_all
  have ne: "?ts \<noteq> []" by simp
  note main = dynamic_gather_delivers[where e = "\<lambda>_. sample_gather 5" and jb = "\<lambda>_ _. 0" and jx = "\<lambda>_ _. 0"
      and zero = 0, OF ready ne ts int64_tensor_faithful cs]
  have "0 < length ?ts" by simp
  with main obtain packets stride where "dynamic_outputs (\<lambda>_. 0) (sample_gather 5) stride
      (concat (map (dynamic_send stride \<circ> fst) [c, c'])) packets
    = Inr (map (dynamic_result 0 (dg_wire (sample_gather 5)) (sample_q 64 2) (sample_dq 64 2)) ?ts)"
    by blast
  then have "dynamic_outputs (\<lambda>_. 0) (sample_gather 5) stride
      (dynamic_send stride (fst c) @ dynamic_send stride (fst c')) packets
    = Inr (map (dynamic_result 0 full_wire (sample_q 64 2) (sample_dq 64 2)) ?ts)"
    by (simp only: list.map concat.simps o_apply append_Nil2 sample_gather_wire)
  with c show ?thesis by blast
qed

text \<open>Two ranks of different layout generations: both refuse.\<close>

theorem dynamic_metadata_unanimous_witness:
  "\<exists>md md'. (\<exists>p. decode_packet md = Inr p \<and> same_schema (sample_gather 5) p)
     \<and> (\<exists>p. decode_packet md' = Inr p \<and> same_schema (sample_gather 6) p)
     \<and> ((\<exists>ps. dynamic_packets (sample_gather 5) [md, md'] = Inr ps)
          \<longleftrightarrow> (\<exists>ps. dynamic_packets (sample_gather 6) [md, md'] = Inr ps))"
proof -
  have s: "sendable [3] [2, 4, 7 :: rat]"
    by (simp add: sendable_def METADATA_PACKET_MAX_NDIM_def)
  obtain md md' where md: "\<exists>p. decode_packet md = Inr p \<and> same_schema (sample_gather 5) p"
      "\<exists>p. decode_packet md' = Inr p \<and> same_schema (sample_gather 6) p"
    using sample_contribute[OF s, of 5] sample_contribute[OF s, of 6] by auto
  have "r < 2 \<Longrightarrow> \<exists>p. decode_packet ([md, md'] ! r) = Inr p \<and> same_schema (sample_gather (5 + int r)) p" for r
    using md by (auto simp: less_2_cases_iff)
  from dynamic_metadata_unanimous[of "[md, md']" 2 "\<lambda>r. sample_gather (5 + int r)" 0 1, OF _ this]
  show ?thesis using md by (intro exI[of _ md] exI[of _ md']) simp
qed

end
