(* ===== verification/DDP_State.thy ===== *)
theory DDP_State
  imports Work "HOL-Library.AList"
begin

text \<open>
  \<open>adapters/ddp/state.py\<close>: the error-feedback residuals of DDP buckets and the transactions
  that update them.  A gradient is whatever object the bucket holds; the operations the code
  calls on it are the record \<open>tensor_ops\<close>.  The residual dict is an association list in
  insertion order.  \<open>on_commit\<close> has effects on the heap \<open>'h\<close>.
\<close>

section \<open>Tensor-like objects\<close>

text \<open>What \<open>isfinite()\<close> returned: its \<open>all\<close> and \<open>item\<close>, where it has them, and its truth value.\<close>

datatype probe = Probe (pr_all: "probe option") (pr_item: "bool option") (pr_truth: bool)

record 'v tensor_ops =
  to_add :: "'v \<Rightarrow> 'v \<Rightarrow> 'v res"
  to_sub :: "'v \<Rightarrow> 'v \<Rightarrow> 'v res"
  to_shape :: "'v \<Rightarrow> int list option"
  to_dtype :: "'v \<Rightarrow> string option"
  to_finite :: "'v \<Rightarrow> bool option"
  to_isfinite :: "'v \<Rightarrow> probe option"
  to_detach :: "('v \<Rightarrow> 'v) option"
  to_clone :: "('v \<Rightarrow> 'v) option"

definition detached_clone :: "'v tensor_ops \<Rightarrow> 'v \<Rightarrow> 'v" where
  "detached_clone ops v =
     (let detached = (case to_detach ops of Some f \<Rightarrow> f v | None \<Rightarrow> v) in
      case to_clone ops of Some f \<Rightarrow> f detached | None \<Rightarrow> detached)"

definition is_finite :: "'v tensor_ops \<Rightarrow> 'v \<Rightarrow> bool" where
  "is_finite ops v =
     (case to_finite ops v of
        Some explicit \<Rightarrow> explicit
      | None \<Rightarrow>
          (case to_isfinite ops v of
             None \<Rightarrow> True
           | Some result \<Rightarrow>
               (let result = (case pr_all result of Some all_values \<Rightarrow> all_values | None \<Rightarrow> result) in
                case pr_item result of Some item \<Rightarrow> item | None \<Rightarrow> pr_truth result)))"

section \<open>State and transactions\<close>

record 'b feedback_key =
  fk_bucket :: 'b
  fk_layout_generation :: int
  fk_shape :: "int list"
  fk_dtype :: string

record ('b, 'v, 'h) feedback_state =
  gf_layout_generation :: int
  gf_residuals :: "('b feedback_key \<times> 'v) list"
  gf_on_commit :: "(unit, 'h) action option"

record ('b, 'v) transaction =
  tx_key :: "'b feedback_key"
  tx_prepared :: 'v
  tx_finite :: bool
  tx_closed :: bool

definition make_GradientFeedbackState ::
    "int \<Rightarrow> (unit, 'h) action option \<Rightarrow> ('b, 'v, 'h) feedback_state res" where
  "make_GradientFeedbackState layout_generation on_commit =
     (if layout_generation < 0 then Inl (ValueError ''layout_generation must be non-negative'')
      else Inr \<lparr>gf_layout_generation = layout_generation, gf_residuals = [], gf_on_commit = on_commit\<rparr>)"

definition make_FeedbackTransaction :: "'b feedback_key \<Rightarrow> 'v \<Rightarrow> bool \<Rightarrow> ('b, 'v) transaction" where
  "make_FeedbackTransaction key prepared fin =
     \<lparr>tx_key = key, tx_prepared = prepared, tx_finite = fin, tx_closed = False\<rparr>"

definition feedback_key_of :: "'v tensor_ops \<Rightarrow> ('b, 'v, 'h) feedback_state \<Rightarrow> 'b \<Rightarrow> 'v \<Rightarrow> 'b feedback_key" where
  "feedback_key_of ops st bucket v =
     \<lparr>fk_bucket = bucket, fk_layout_generation = gf_layout_generation st,
      fk_shape = (case to_shape ops v of Some s \<Rightarrow> s | None \<Rightarrow> []),
      fk_dtype = (case to_dtype ops v of Some d \<Rightarrow> d | None \<Rightarrow> ''unknown'')\<rparr>"

definition feedback_prepare ::
    "'v tensor_ops \<Rightarrow> ('b, 'v, 'h) feedback_state \<Rightarrow> 'b \<Rightarrow> 'v \<Rightarrow> ('b, 'v) transaction res" where
  "feedback_prepare ops st bucket v =
     (let key = feedback_key_of ops st bucket v in
      rbind (case map_of (gf_residuals st) key of None \<Rightarrow> Inr v | Some residual \<Rightarrow> to_add ops v residual)
        (\<lambda>prepared. Inr (make_FeedbackTransaction key prepared (is_finite ops v))))"

definition feedback_residual :: "('b, 'v, 'h) feedback_state \<Rightarrow> 'b \<Rightarrow> 'v option" where
  "feedback_residual st bucket =
     (let matches = [v. (key, v) \<leftarrow> gf_residuals st,
                        fk_bucket key = bucket \<and> fk_layout_generation key = gf_layout_generation st] in
      if length matches = 1 then Some (matches ! 0) else None)"

definition feedback_rebuild :: "int \<Rightarrow> ('b, 'v, 'h) feedback_state \<Rightarrow> ('b, 'v, 'h) feedback_state res" where
  "feedback_rebuild layout_generation st =
     (if layout_generation \<le> gf_layout_generation st
        then Inl (ValueError ''layout_generation must increase on rebuild'')
      else Inr (st\<lparr>gf_layout_generation := layout_generation, gf_residuals := []\<rparr>))"

text \<open>\<open>_commit\<close> stores the residual before it calls \<open>on_commit\<close>.\<close>

definition feedback_store ::
    "'b feedback_key \<Rightarrow> 'v \<Rightarrow> ('b, 'v, 'h) feedback_state \<Rightarrow> 'h
     \<Rightarrow> unit res \<times> ('b, 'v, 'h) feedback_state \<times> 'h" where
  "feedback_store key residual st h =
     (if fk_layout_generation key \<noteq> gf_layout_generation st
        then (Inl (RuntimeError ''cannot commit feedback from an obsolete bucket layout''), st, h)
      else
        let st = st\<lparr>gf_residuals := AList.update key residual (gf_residuals st)\<rparr> in
        case gf_on_commit st of
          None \<Rightarrow> (Inr (), st, h)
        | Some on_commit \<Rightarrow> (case on_commit h of (r, h) \<Rightarrow> (r, st, h)))"

definition transaction_abort :: "('b, 'v) transaction \<Rightarrow> ('b, 'v) transaction" where
  "transaction_abort tx = tx\<lparr>tx_closed := True\<rparr>"

definition transaction_commit ::
    "'v tensor_ops \<Rightarrow> 'v \<Rightarrow> ('b, 'v) transaction \<Rightarrow> ('b, 'v, 'h) feedback_state \<Rightarrow> 'h
     \<Rightarrow> unit res \<times> ('b, 'v) transaction \<times> ('b, 'v, 'h) feedback_state \<times> 'h" where
  "transaction_commit ops local_restored tx st h =
     (if tx_closed tx then (Inl (RuntimeError ''feedback transaction is already closed''), tx, st, h)
      else if \<not> tx_finite tx \<or> \<not> is_finite ops local_restored
        then (Inl (RuntimeError ''non-finite gradient cannot commit error feedback''),
              tx\<lparr>tx_closed := True\<rparr>, st, h)
      else
        case to_sub ops (tx_prepared tx) local_restored of
          Inl err \<Rightarrow> (Inl err, tx, st, h)
        | Inr difference \<Rightarrow>
            (case feedback_store (tx_key tx) (detached_clone ops difference) st h of
               (Inl err, st, h) \<Rightarrow> (Inl err, tx, st, h)
             | (Inr u, st, h) \<Rightarrow> (Inr u, tx\<lparr>tx_closed := True\<rparr>, st, h)))"

section \<open>What a commit does\<close>

lemma feedback_store_cases:
  assumes "feedback_store key residual st h = (r, st', h')"
  shows "(st' = st \<and> h' = h \<and> (\<exists>msg. r = Inl (RuntimeError msg)) \<and> fk_layout_generation key \<noteq> gf_layout_generation st)
     \<or> (st' = st\<lparr>gf_residuals := AList.update key residual (gf_residuals st)\<rparr>
          \<and> fk_layout_generation key = gf_layout_generation st
          \<and> (gf_on_commit st = None \<longrightarrow> r = Inr () \<and> h' = h))"
  using assms by (auto simp: feedback_store_def Let_def split: if_splits option.splits prod.splits)

text \<open>A commit either leaves the state alone or stores exactly the quantisation error.\<close>

lemma transaction_commit_cases:
  assumes "transaction_commit ops restored tx st h = (r, tx', st', h')"
  shows "(st' = st \<and> h' = h \<and> (\<exists>err. r = Inl err))
     \<or> (\<exists>difference. \<not> tx_closed tx \<and> tx_finite tx \<and> is_finite ops restored
          \<and> fk_layout_generation (tx_key tx) = gf_layout_generation st
          \<and> to_sub ops (tx_prepared tx) restored = Inr difference
          \<and> st' = st\<lparr>gf_residuals := AList.update (tx_key tx) (detached_clone ops difference) (gf_residuals st)\<rparr>
          \<and> (gf_on_commit st = None \<longrightarrow> r = Inr () \<and> h' = h))"
proof (cases "tx_closed tx \<or> \<not> tx_finite tx \<or> \<not> is_finite ops restored")
  case True
  then show ?thesis using assms by (auto simp: transaction_commit_def split: if_splits)
next
  case open_tx: False
  show ?thesis
  proof (cases "to_sub ops (tx_prepared tx) restored")
    case (Inl err)
    then show ?thesis using assms open_tx by (auto simp: transaction_commit_def)
  next
    case (Inr d)
    obtain r1 st1 h1 where store: "feedback_store (tx_key tx) (detached_clone ops d) st h = (r1, st1, h1)"
      by (metis prod_cases3)
    have "r = r1 \<and> st' = st1 \<and> h' = h1"
      using assms open_tx Inr store by (auto simp: transaction_commit_def split: sum.splits)
    then show ?thesis
      using feedback_store_cases[OF store] open_tx Inr by auto
  qed
qed

text \<open>What never reaches the store: a closed transaction, a value that is not finite, an old layout.\<close>

lemma transaction_commit_refused:
  assumes "tx_closed tx \<or> \<not> tx_finite tx \<or> \<not> is_finite ops restored
      \<or> fk_layout_generation (tx_key tx) \<noteq> gf_layout_generation st"
    and "transaction_commit ops restored tx st h = (r, tx', st', h')"
  shows "st' = st \<and> h' = h \<and> (\<exists>err. r = Inl err)"
  using transaction_commit_cases[OF assms(2)] assms(1) by blast

lemma commit_closes:
  "transaction_commit ops restored tx st h = (Inr u, tx', st', h') \<Longrightarrow> tx_closed tx'"
  by (auto simp: transaction_commit_def split: if_splits sum.splits prod.splits)

section \<open>The invariant of the state\<close>

text \<open>One residual per key, all of the current layout generation.\<close>

definition feedback_inv :: "('b, 'v, 'h) feedback_state \<Rightarrow> bool" where
  "feedback_inv st \<longleftrightarrow>
     distinct (map fst (gf_residuals st)) \<and> 0 \<le> gf_layout_generation st
     \<and> (\<forall>(key, v) \<in> set (gf_residuals st). fk_layout_generation key = gf_layout_generation st)"

lemma feedback_inv_make: "make_GradientFeedbackState g cb = Inr st \<Longrightarrow> feedback_inv st"
  by (auto simp: make_GradientFeedbackState_def feedback_inv_def split: if_splits)

lemma feedback_inv_rebuild: "feedback_inv st \<Longrightarrow> feedback_rebuild g st = Inr st' \<Longrightarrow> feedback_inv st'"
  by (auto simp: feedback_rebuild_def feedback_inv_def split: if_splits)

lemma feedback_inv_update:
  assumes "feedback_inv st" and "fk_layout_generation key = gf_layout_generation st"
  shows "feedback_inv (st\<lparr>gf_residuals := AList.update key v (gf_residuals st)\<rparr>)"
proof -
  have "(k, x) \<in> set (AList.update key v al) \<Longrightarrow> (k, x) = (key, v) \<or> (k, x) \<in> set al" for k x al
    by (induction al) (auto split: if_splits)
  then show ?thesis
    using assms unfolding feedback_inv_def by (fastforce simp: distinct_update)
qed

lemma feedback_inv_commit:
  assumes "feedback_inv st" and "transaction_commit ops restored tx st h = (r, tx', st', h')"
  shows "feedback_inv st'"
  using transaction_commit_cases[OF assms(2)] assms(1) feedback_inv_update[OF assms(1)] by auto

end
