(* ===== verification/DDP_Hook.thy ===== *)
theory DDP_Hook
  imports DDP_State Full_Tensor
begin

text \<open>
  \<open>adapters/ddp/hook.py\<close>: the DDP communication hook.  A call of the hook prepares a
  transaction and submits the communication; a pool thread finishes it later.  The two parts
  are \<open>hook_start\<close> and \<open>hook_finish\<close>, so that several buckets can be in flight and finish in
  any order; \<open>ddp_step\<close> is that interleaving.
\<close>

section \<open>Buckets and executables\<close>

text \<open>A bucket: its buffer, the identities of its parameters, its index, its own identity.\<close>

record 'v bucket =
  bk_buffer :: "'v option"
  bk_parameters :: "int list option"
  bk_index :: "int option"
  bk_id :: int

datatype bucket_name = Parameters "int list" | Number int

definition bucket_buffer :: "'v bucket \<Rightarrow> 'v res" where
  "bucket_buffer b =
     (case bk_buffer b of None \<Rightarrow> Inl (TypeError ''DDP bucket must provide buffer()'') | Some v \<Rightarrow> Inr v)"

definition bucket_identity :: "'v bucket \<Rightarrow> bucket_name" where
  "bucket_identity b =
     (case bk_parameters b of
        Some (identity # identities) \<Rightarrow> Parameters (identity # identities)
      | _ \<Rightarrow> Number (case bk_index b of Some index \<Rightarrow> index | None \<Rightarrow> bk_id b))"

text \<open>\<open>run\<close> submits and returns the work; the work's \<open>wait\<close> is an action.\<close>

record ('v, 'h) hook_executable =
  hx_reconstruct_local :: "('v \<Rightarrow> 'v res) option"
  hx_run :: "'v \<Rightarrow> (('v, 'h) action, 'h) action"

definition create_ddp_hook :: "('v, 'h) hook_executable \<Rightarrow> ('v \<Rightarrow> 'v res) res" where
  "create_ddp_hook executable =
     (case hx_reconstruct_local executable of
        None \<Rightarrow> Inl (TypeError ''DDP Gradient EF requires executable.reconstruct_local()'')
      | Some reconstruct \<Rightarrow> Inr reconstruct)"

section \<open>The hook\<close>

record ('v, 'h) flight =
  fl_transaction :: "(bucket_name, 'v) transaction"
  fl_local_restored :: 'v
  fl_wait :: "('v, 'h) action"

text \<open>The future the hook returns: failed at once, or to be completed by the pool.\<close>

datatype ('v, 'h) hook_outcome = Failed exn | InFlight "('v, 'h) flight"

definition hook_start ::
    "'v tensor_ops \<Rightarrow> ('v \<Rightarrow> 'v res) \<Rightarrow> ('v, 'h) hook_executable \<Rightarrow> (bucket_name, 'v, 'h) feedback_state
     \<Rightarrow> 'v bucket \<Rightarrow> (('v, 'h) hook_outcome, 'h) action" where
  "hook_start ops reconstruct executable st b h =
     (case rbind (bucket_buffer b) (feedback_prepare ops st (bucket_identity b)) of
        Inl err \<Rightarrow> (Inl err, h)
      | Inr tx \<Rightarrow>
          (case reconstruct (tx_prepared tx) of
             Inl err \<Rightarrow> (Inr (Failed err), h)
           | Inr local_restored \<Rightarrow>
               (case hx_run executable (tx_prepared tx) h of
                  (Inl err, h) \<Rightarrow> (Inr (Failed err), h)
                | (Inr wait, h) \<Rightarrow>
                    (Inr (InFlight \<lparr>fl_transaction = tx, fl_local_restored = local_restored, fl_wait = wait\<rparr>), h))))"

definition hook_finish ::
    "'v tensor_ops \<Rightarrow> ('v, 'h) flight \<Rightarrow> (bucket_name, 'v, 'h) feedback_state \<Rightarrow> 'h
     \<Rightarrow> 'v future \<times> (bucket_name, 'v) transaction \<times> (bucket_name, 'v, 'h) feedback_state \<times> 'h" where
  "hook_finish ops fl st h =
     (case fl_wait fl h of
        (Inl err, h) \<Rightarrow> (FutureDone (Inl err), transaction_abort (fl_transaction fl), st, h)
      | (Inr result, h) \<Rightarrow>
          (case transaction_commit ops (fl_local_restored fl) (fl_transaction fl) st h of
             (Inl err, tx, st, h) \<Rightarrow> (FutureDone (Inl err), transaction_abort tx, st, h)
           | (Inr u, tx, st, h) \<Rightarrow> (FutureDone (Inr result), tx, st, h)))"

text \<open>What the future says about the residual.\<close>

lemma hook_finish_cases:
  assumes "hook_finish ops fl st h = (future, tx, st', h')"
  shows "(\<exists>result difference. future = FutureDone (Inr result) \<and> (\<exists>h1. fl_wait fl h = (Inr result, h1))
          \<and> tx_finite (fl_transaction fl) \<and> is_finite ops (fl_local_restored fl)
          \<and> fk_layout_generation (tx_key (fl_transaction fl)) = gf_layout_generation st
          \<and> to_sub ops (tx_prepared (fl_transaction fl)) (fl_local_restored fl) = Inr difference
          \<and> st' = st\<lparr>gf_residuals := AList.update (tx_key (fl_transaction fl)) (detached_clone ops difference) (gf_residuals st)\<rparr>)
     \<or> (\<exists>err. future = FutureDone (Inl err) \<and> (st' = st \<or> gf_on_commit st \<noteq> None))"
    and "tx_closed tx"
proof -
  obtain r h1 where w: "fl_wait fl h = (r, h1)" by (cases "fl_wait fl h")
  obtain cr ctx cst ch where c: "transaction_commit ops (fl_local_restored fl) (fl_transaction fl) st h1 = (cr, ctx, cst, ch)"
    by (metis prod_cases4)
  note cases = transaction_commit_cases[OF c]
  show "(\<exists>result difference. future = FutureDone (Inr result) \<and> (\<exists>h1. fl_wait fl h = (Inr result, h1))
          \<and> tx_finite (fl_transaction fl) \<and> is_finite ops (fl_local_restored fl)
          \<and> fk_layout_generation (tx_key (fl_transaction fl)) = gf_layout_generation st
          \<and> to_sub ops (tx_prepared (fl_transaction fl)) (fl_local_restored fl) = Inr difference
          \<and> st' = st\<lparr>gf_residuals := AList.update (tx_key (fl_transaction fl)) (detached_clone ops difference) (gf_residuals st)\<rparr>)
     \<or> (\<exists>err. future = FutureDone (Inl err) \<and> (st' = st \<or> gf_on_commit st \<noteq> None))"
    using assms w c cases by (cases r; cases cr) (auto simp: hook_finish_def)
  show "tx_closed tx"
    using assms w c commit_closes[of ops _ _ st h1 _ ctx cst ch]
    by (cases r; cases cr) (auto simp: hook_finish_def transaction_abort_def)
qed

section \<open>Rounds on one bucket\<close>

text \<open>
  The calls DDP makes for one bucket: the hook is called with the bucket's next gradient when
  the previous future is done.  A round yields its future and, where it committed, the local
  reconstruction of what was sent.
\<close>

definition hook_round ::
    "'v tensor_ops \<Rightarrow> ('v \<Rightarrow> 'v res) \<Rightarrow> ('v, 'h) hook_executable \<Rightarrow> 'v bucket
     \<Rightarrow> (bucket_name, 'v, 'h) feedback_state \<Rightarrow> 'h
     \<Rightarrow> 'v option \<times> (bucket_name, 'v, 'h) feedback_state \<times> 'h" where
  "hook_round ops reconstruct executable b st h =
     (case hook_start ops reconstruct executable st b h of
        (Inr (InFlight fl), h) \<Rightarrow>
          (case hook_finish ops fl st h of
             (FutureDone (Inr result), tx, st, h) \<Rightarrow> (Some (fl_local_restored fl), st, h)
           | (future, tx, st, h) \<Rightarrow> (None, st, h))
      | (r, h) \<Rightarrow> (None, st, h))"

fun hook_rounds ::
    "'v tensor_ops \<Rightarrow> ('v \<Rightarrow> 'v res) \<Rightarrow> ('v, 'h) hook_executable \<Rightarrow> 'v bucket list
     \<Rightarrow> (bucket_name, 'v, 'h) feedback_state \<Rightarrow> 'h
     \<Rightarrow> 'v option list \<times> (bucket_name, 'v, 'h) feedback_state \<times> 'h" where
  "hook_rounds ops reconstruct executable [] st h = ([], st, h)"
| "hook_rounds ops reconstruct executable (b # bs) st h =
     (case hook_round ops reconstruct executable b st h of
        (out, st, h) \<Rightarrow>
          (case hook_rounds ops reconstruct executable bs st h of (outs, st, h) \<Rightarrow> (out # outs, st, h)))"

text \<open>Gradients in exact arithmetic.\<close>

definition exact_ops :: "'v::ab_group_add tensor_ops \<Rightarrow> bool" where
  "exact_ops ops \<longleftrightarrow>
     (\<forall>x y. to_add ops x y = Inr (x + y)) \<and> (\<forall>x y. to_sub ops x y = Inr (x - y))
     \<and> (\<forall>x. detached_clone ops x = x)"

definition kept :: "'b feedback_key \<Rightarrow> ('b, 'v::zero, 'h) feedback_state \<Rightarrow> 'v" where
  "kept key st = (case map_of (gf_residuals st) key of None \<Rightarrow> 0 | Some v \<Rightarrow> v)"

text \<open>One round: what was sent and what is kept are what was there and what came in.\<close>

lemma hook_round_balance:
  fixes st :: "(bucket_name, 'v::ab_group_add, 'h) feedback_state"
  assumes exact: "exact_ops ops" and cb: "gf_on_commit st = None"
    and key: "bk_buffer b = Some g" "feedback_key_of ops st (bucket_identity b) g = key"
    and run: "hook_round ops reconstruct executable b st h = (out, st', h')"
  shows "gf_on_commit st' = None \<and> gf_layout_generation st' = gf_layout_generation st
     \<and> (case out of None \<Rightarrow> st' = st | Some restored \<Rightarrow> restored + kept key st' = kept key st + g)"
proof -
  obtain o1 h1 where start: "hook_start ops reconstruct executable st b h = (o1, h1)"
    by (cases "hook_start ops reconstruct executable st b h")
  show ?thesis
  proof (cases "\<exists>fl. o1 = Inr (InFlight fl)")
    case False
    then have "out = None \<and> st' = st"
      using run start by (auto simp: hook_round_def split: sum.splits hook_outcome.splits)
    then show ?thesis using cb by simp
  next
    case True
    then obtain fl where fl: "o1 = Inr (InFlight fl)" by blast
    have tx: "tx_key (fl_transaction fl) = key" "tx_prepared (fl_transaction fl) = g + kept key st"
      using start key fl exact
      by (auto simp: hook_start_def bucket_buffer_def feedback_prepare_def make_FeedbackTransaction_def
          kept_def exact_ops_def Let_def split: sum.splits prod.splits option.splits)
    obtain future tx st1 h2 where finish: "hook_finish ops fl st h1 = (future, tx, st1, h2)"
      by (metis prod_cases4)
    have out: "st' = st1" "out = (case future of FutureDone (Inr result) \<Rightarrow> Some (fl_local_restored fl) | _ \<Rightarrow> None)"
      using run start fl finish by (auto simp: hook_round_def split: future.splits sum.splits)
    show ?thesis
      using hook_finish_cases(1)[OF finish] out tx cb exact
      by (auto simp: kept_def exact_ops_def update_conv' split: option.splits)
  qed
qed

text \<open>The sums over the rounds that committed.\<close>

definition sum_sent :: "'v::ab_group_add option list \<Rightarrow> 'v" where
  "sum_sent outs = sum_list (map (\<lambda>out. case out of Some restored \<Rightarrow> restored | None \<Rightarrow> 0) outs)"

definition sum_gradients :: "'v::ab_group_add list \<Rightarrow> 'v option list \<Rightarrow> 'v" where
  "sum_gradients gs outs = sum_list (map (\<lambda>(g, out). if out = None then 0 else g) (zip gs outs))"

lemma hook_rounds_balance:
  fixes st :: "(bucket_name, 'v::ab_group_add, 'h) feedback_state"
  assumes "exact_ops ops" and "gf_on_commit st = None"
    and "list_all2 (\<lambda>b g. bk_buffer b = Some g \<and> feedback_key_of ops st (bucket_identity b) g = key) bs gs"
    and "hook_rounds ops reconstruct executable bs st h = (outs, st', h')"
  shows "length outs = length bs \<and> sum_sent outs + kept key st' = kept key st + sum_gradients gs outs"
  using assms(2-4)
proof (induction bs arbitrary: gs st h outs st' h')
  case Nil
  then show ?case by (simp add: sum_sent_def sum_gradients_def)
next
  case (Cons b bs)
  obtain g gs' where gs: "gs = g # gs'" and b: "bk_buffer b = Some g"
      "feedback_key_of ops st (bucket_identity b) g = key"
      and bs: "list_all2 (\<lambda>b g. bk_buffer b = Some g \<and> feedback_key_of ops st (bucket_identity b) g = key) bs gs'"
    using Cons.prems(2) by (auto simp: list_all2_Cons1)
  obtain out st1 h1 where round: "hook_round ops reconstruct executable b st h = (out, st1, h1)"
    by (metis prod_cases3)
  obtain outs1 st2 h2 where rest: "hook_rounds ops reconstruct executable bs st1 h1 = (outs1, st2, h2)"
    by (metis prod_cases3)
  have e: "outs = out # outs1" "st' = st2"
    using Cons.prems(3) round rest by simp_all
  note one = hook_round_balance[OF assms(1) Cons.prems(1) b round]
  then have "list_all2 (\<lambda>b g. bk_buffer b = Some g \<and> feedback_key_of ops st1 (bucket_identity b) g = key) bs gs'"
    using bs by (simp add: feedback_key_of_def)
  from Cons.IH[OF _ this rest] one
  have ih: "length outs1 = length bs \<and> sum_sent outs1 + kept key st2 = kept key st1 + sum_gradients gs' outs1"
    by simp
  show ?case
  proof (cases out)
    case None
    then show ?thesis
      using one ih e gs by (simp add: sum_sent_def sum_gradients_def)
  next
    case (Some restored)
    then have "restored + kept key st1 = kept key st + g" using one by simp
    moreover have "sum_sent outs1 + kept key st2 = kept key st1 + sum_gradients gs' outs1" using ih by simp
    ultimately have "restored + sum_sent outs1 + kept key st2 = kept key st + (g + sum_gradients gs' outs1)"
      by (metis add.assoc)
    then show ?thesis
      using Some ih e gs by (simp add: sum_sent_def sum_gradients_def)
  qed
qed

section \<open>Buckets in flight\<close>

text \<open>Hook calls, completions in any order, and rebuilds of the bucket layout.\<close>

record ('v, 'h) ddp_world =
  dw_state :: "(bucket_name, 'v, 'h) feedback_state"
  dw_flights :: "('v, 'h) flight list"
  dw_futures :: "('v future \<times> ('v, 'h) flight) list"
  dw_heap :: 'h

inductive ddp_step ::
    "'v tensor_ops \<Rightarrow> ('v \<Rightarrow> 'v res) \<Rightarrow> ('v, 'h) hook_executable \<Rightarrow> ('v, 'h) ddp_world \<Rightarrow> ('v, 'h) ddp_world \<Rightarrow> bool"
  for ops reconstruct executable where
  start: "hook_start ops reconstruct executable (dw_state w) b (dw_heap w) = (Inr (InFlight fl), h') \<Longrightarrow>
    ddp_step ops reconstruct executable w (w\<lparr>dw_flights := dw_flights w @ [fl], dw_heap := h'\<rparr>)"
| refuse: "hook_start ops reconstruct executable (dw_state w) b (dw_heap w) = (r, h') \<Longrightarrow>
    (\<forall>fl. r \<noteq> Inr (InFlight fl)) \<Longrightarrow>
    ddp_step ops reconstruct executable w (w\<lparr>dw_heap := h'\<rparr>)"
| finish: "i < length (dw_flights w) \<Longrightarrow>
    hook_finish ops (dw_flights w ! i) (dw_state w) (dw_heap w) = (future, tx, st', h') \<Longrightarrow>
    ddp_step ops reconstruct executable w
      (w\<lparr>dw_state := st', dw_flights := take i (dw_flights w) @ drop (Suc i) (dw_flights w),
         dw_futures := dw_futures w @ [(future, dw_flights w ! i)], dw_heap := h'\<rparr>)"
| rebuild: "feedback_rebuild g (dw_state w) = Inr st' \<Longrightarrow>
    ddp_step ops reconstruct executable w (w\<lparr>dw_state := st'\<rparr>)"

inductive_cases ddp_stepE: "ddp_step ops reconstruct executable w w'"

definition ddp_initial :: "(bucket_name, 'v, 'h) feedback_state \<Rightarrow> 'h \<Rightarrow> ('v, 'h) ddp_world" where
  "ddp_initial st h = \<lparr>dw_state = st, dw_flights = [], dw_futures = [], dw_heap = h\<rparr>"

definition sane_residuals :: "'v tensor_ops \<Rightarrow> ('b, 'v, 'h) feedback_state \<Rightarrow> bool" where
  "sane_residuals ops st \<longleftrightarrow>
     (\<forall>(key, v) \<in> set (gf_residuals st). \<exists>prepared restored difference.
        to_sub ops prepared restored = Inr difference \<and> v = detached_clone ops difference
        \<and> is_finite ops restored)"

lemma sane_update:
  assumes "sane_residuals ops st" and "to_sub ops prepared restored = Inr difference" and "is_finite ops restored"
  shows "sane_residuals ops (st\<lparr>gf_residuals := AList.update key (detached_clone ops difference) (gf_residuals st)\<rparr>)"
proof -
  have "(k, x) \<in> set (AList.update key v al) \<Longrightarrow> (k, x) = (key, v) \<or> (k, x) \<in> set al" for k x v al
    by (induction al) (auto split: if_splits)
  then show ?thesis
    using assms unfolding sane_residuals_def by fastforce
qed

lemma hook_finish_commit:
  assumes "hook_finish ops fl st h = (future, tx, st', h')"
  shows "st' = st \<or> (\<exists>difference. to_sub ops (tx_prepared (fl_transaction fl)) (fl_local_restored fl) = Inr difference
      \<and> tx_finite (fl_transaction fl) \<and> is_finite ops (fl_local_restored fl)
      \<and> fk_layout_generation (tx_key (fl_transaction fl)) = gf_layout_generation st
      \<and> st' = st\<lparr>gf_residuals := AList.update (tx_key (fl_transaction fl)) (detached_clone ops difference) (gf_residuals st)\<rparr>)"
proof -
  obtain r h1 where w: "fl_wait fl h = (r, h1)" by (cases "fl_wait fl h")
  obtain cr ctx cst ch where c: "transaction_commit ops (fl_local_restored fl) (fl_transaction fl) st h1 = (cr, ctx, cst, ch)"
    by (metis prod_cases4)
  have "st' = st \<or> st' = cst"
    using assms w c by (cases r; cases cr) (auto simp: hook_finish_def)
  then show ?thesis using transaction_commit_cases[OF c] by blast
qed

lemma ddp_step_invariant:
  assumes "ddp_step ops reconstruct executable w w'" and "feedback_inv (dw_state w)" and "sane_residuals ops (dw_state w)"
  shows "feedback_inv (dw_state w') \<and> sane_residuals ops (dw_state w')"
  using assms
proof (induction rule: ddp_step.induct)
  case (finish i w future tx st' h')
  from hook_finish_commit[OF finish(2)] show ?case
    using finish(3,4) feedback_inv_update sane_update by fastforce
next
  case (rebuild g w st')
  then show ?case
    using feedback_inv_rebuild[OF rebuild(2,1)]
    by (auto simp: feedback_rebuild_def sane_residuals_def split: if_splits)
qed simp_all

section \<open>Properties\<close>


definition sample_ops :: "rat tensor_ops" where
  "sample_ops = \<lparr>to_add = (\<lambda>x y. Inr (x + y)), to_sub = (\<lambda>x y. Inr (x - y)), to_shape = (\<lambda>_. Some [1]),
     to_dtype = (\<lambda>_. Some ''torch.float32''), to_finite = (\<lambda>_. None), to_isfinite = (\<lambda>_. None),
     to_detach = Some id, to_clone = Some id\<rparr>"

definition sample_hook :: "(rat, nat) hook_executable" where
  "sample_hook = \<lparr>hx_reconstruct_local = Some (\<lambda>v. Inr (of_int \<lfloor>v\<rfloor>)),
     hx_run = (\<lambda>v n. (if n = 1 then Inl (RuntimeError ''run'') else Inr (\<lambda>h. (Inr v, h)), Suc n))\<rparr>"

definition sample_bucket :: "rat \<Rightarrow> rat bucket" where
  "sample_bucket v = \<lparr>bk_buffer = Some v, bk_parameters = Some [7, 9], bk_index = Some 0, bk_id = 100\<rparr>"

definition sample_state :: "(bucket_name, rat, nat) feedback_state" where
  "sample_state = \<lparr>gf_layout_generation = 0, gf_residuals = [], gf_on_commit = None\<rparr>"

definition sample_key :: "bucket_name feedback_key" where
  "sample_key = \<lparr>fk_bucket = Parameters [7, 9], fk_layout_generation = 0, fk_shape = [1], fk_dtype = ''torch.float32''\<rparr>"

lemmas sample_hook_defs = sample_ops_def sample_hook_def sample_bucket_def sample_state_def sample_key_def

lemma sample_exact: "exact_ops sample_ops"
  by (simp add: exact_ops_def sample_ops_def detached_clone_def)

lemma sample_state_made: "make_GradientFeedbackState 0 None = Inr sample_state"
  by (simp add: make_GradientFeedbackState_def sample_state_def)

lemma sample_bucket_key:
  "bk_buffer (sample_bucket v) = Some v
   \<and> feedback_key_of sample_ops sample_state (bucket_identity (sample_bucket v)) v = sample_key"
  by (simp add: sample_hook_defs feedback_key_of_def bucket_identity_def)

lemma sample_floors [simp]: "\<lfloor>3 / 2 :: rat\<rfloor> = 1" "\<lfloor>5 / 4 :: rat\<rfloor> = 1"
  by (simp_all add: floor_eq_iff)

text \<open>Three rounds, the second of which fails to submit.\<close>

lemma sample_rounds:
  "fst (hook_rounds sample_ops (\<lambda>v. Inr (of_int \<lfloor>v\<rfloor>)) sample_hook (map sample_bucket [3/2, 9, 3/4]) sample_state 0)
     = [Some 1, None, Some 1]"
  by (simp add: sample_hook_defs hook_round_def hook_start_def bucket_buffer_def bucket_identity_def
      feedback_prepare_def feedback_key_of_def make_FeedbackTransaction_def hook_finish_def
      transaction_commit_def feedback_store_def is_finite_def detached_clone_def Let_def)


text \<open>C28: under any interleaving of hook calls, completions and layout rebuilds, every residual in
  the state is of the current layout generation, there is one per key, and each is the
  difference between a prepared gradient and a finite reconstruction of it: a transaction
  begun before a rebuild never brings an obsolete residual back.\<close>

theorem ddp_residuals_current:
  assumes "make_GradientFeedbackState g cb = Inr st"
    and "(ddp_step ops reconstruct executable)\<^sup>*\<^sup>* (ddp_initial st h) w"
  shows "feedback_inv (dw_state w) \<and> sane_residuals ops (dw_state w)"
  using assms(2)
proof (induction rule: rtranclp_induct)
  case base
  then show ?case
    using feedback_inv_make[OF assms(1)] assms(1)
    by (auto simp: ddp_initial_def make_GradientFeedbackState_def sane_residuals_def split: if_splits)
next
  case (step w w')
  then show ?case using ddp_step_invariant by blast
qed

text \<open>A transaction is in flight when the layout is rebuilt; its completion is refused.\<close>

theorem ddp_residuals_current_witness:
  "\<exists>w. (ddp_step sample_ops (\<lambda>v. Inr (of_int \<lfloor>v\<rfloor>)) sample_hook)\<^sup>*\<^sup>* (ddp_initial sample_state 0) w
     \<and> map fst (dw_futures w) = [FutureDone (Inl (RuntimeError ''cannot commit feedback from an obsolete bucket layout''))]
     \<and> feedback_inv (dw_state w)"
proof -
  let ?step = "ddp_step sample_ops (\<lambda>v. Inr (of_int \<lfloor>v\<rfloor>)) sample_hook" and ?w = "ddp_initial sample_state 0"
  define fl :: "(rat, nat) flight" where "fl = \<lparr>fl_transaction = \<lparr>tx_key = sample_key, tx_prepared = 3/2, tx_finite = True, tx_closed = False\<rparr>,
      fl_local_restored = 1, fl_wait = (\<lambda>h. (Inr (3/2), h))\<rparr>"
  let ?w1 = "?w\<lparr>dw_flights := [fl], dw_heap := 1\<rparr>"
  let ?w2 = "?w1\<lparr>dw_state := sample_state\<lparr>gf_layout_generation := 1, gf_residuals := []\<rparr>\<rparr>"
  have "hook_start sample_ops (\<lambda>v. Inr (of_int \<lfloor>v\<rfloor>)) sample_hook (dw_state ?w) (sample_bucket (3/2)) (dw_heap ?w)
      = (Inr (InFlight fl), 1)"
    by (simp add: fl_def ddp_initial_def sample_hook_defs hook_start_def bucket_buffer_def bucket_identity_def
        feedback_prepare_def feedback_key_of_def make_FeedbackTransaction_def is_finite_def Let_def)
  from ddp_step.start[OF this] have s1: "?step ?w ?w1" by (simp add: ddp_initial_def)
  have "feedback_rebuild 1 (dw_state ?w1) = Inr (sample_state\<lparr>gf_layout_generation := 1, gf_residuals := []\<rparr>)"
    by (simp add: feedback_rebuild_def ddp_initial_def sample_state_def)
  from ddp_step.rebuild[OF this] have s2: "?step ?w1 ?w2" .
  obtain future tx st' h' where fin: "hook_finish sample_ops (dw_flights ?w2 ! 0) (dw_state ?w2) (dw_heap ?w2) = (future, tx, st', h')"
    by (metis prod_cases4)
  then have "future = FutureDone (Inl (RuntimeError ''cannot commit feedback from an obsolete bucket layout''))"
    by (simp add: fl_def sample_state_def sample_key_def hook_finish_def transaction_commit_def feedback_store_def
        is_finite_def sample_ops_def transaction_abort_def)
  moreover from ddp_step.finish[OF _ fin] have s3: "?step ?w2 (?w2\<lparr>dw_state := st', dw_flights := [],
      dw_futures := [(future, fl)], dw_heap := h'\<rparr>)"
    by (simp add: ddp_initial_def)
  moreover have "?step\<^sup>*\<^sup>* ?w (?w2\<lparr>dw_state := st', dw_flights := [], dw_futures := [(future, fl)], dw_heap := h'\<rparr>)"
    using s1 s2 s3 by (meson converse_rtranclp_into_rtranclp rtranclp.rtrancl_refl)
  ultimately show ?thesis
    using ddp_residuals_current[OF sample_state_made] by fastforce
qed

text \<open>Without a commit callback the future of a bucket tells exactly what happened to its
  feedback: it holds a result if and only if the residual of the bucket was replaced, and an
  exception if and only if the state is untouched; either way the transaction is closed.\<close>

theorem ddp_future_tells_commit:
  assumes "hook_finish ops fl st h = (future, tx, st', h')" and "gf_on_commit st = None"
  shows "tx_closed tx
     \<and> ((\<exists>result. future = FutureDone (Inr result)) \<and> is_finite ops (fl_local_restored fl)
          \<and> (\<exists>residual. map_of (gf_residuals st') (tx_key (fl_transaction fl)) = Some residual
               \<and> gf_residuals st' = AList.update (tx_key (fl_transaction fl)) residual (gf_residuals st))
        \<or> (\<exists>err. future = FutureDone (Inl err)) \<and> st' = st)"
  using hook_finish_cases[OF assms(1)] assms(2) by (auto simp: update_conv')

text \<open>C29: a commit callback that raises makes the future fail with its exception although the
  residual has already been stored: the caller sees a failed bucket whose feedback was
  nevertheless consumed.\<close>

theorem ddp_callback_failure_keeps_residual:
  assumes "fl_wait fl h = (Inr result, h1)" and "\<not> tx_closed (fl_transaction fl)"
    and "tx_finite (fl_transaction fl)" and "is_finite ops (fl_local_restored fl)"
    and "fk_layout_generation (tx_key (fl_transaction fl)) = gf_layout_generation st"
    and "to_sub ops (tx_prepared (fl_transaction fl)) (fl_local_restored fl) = Inr difference"
    and "gf_on_commit st = Some callback" and "callback h1 = (Inl err, h2)"
  shows "\<exists>tx st'. hook_finish ops fl st h = (FutureDone (Inl err), tx, st', h2)
     \<and> map_of (gf_residuals st') (tx_key (fl_transaction fl)) = Some (detached_clone ops difference)"
  using assms
  by (simp add: hook_finish_def transaction_commit_def feedback_store_def Let_def update_conv')

definition sample_flight :: "(rat, nat) flight" where
  "sample_flight = \<lparr>fl_transaction = make_FeedbackTransaction sample_key (3/2) True,
     fl_local_restored = 1, fl_wait = (\<lambda>h. (Inr (3/2), h))\<rparr>"

lemmas sample_flight_defs = sample_flight_def make_FeedbackTransaction_def sample_key_def sample_state_def
  is_finite_def sample_ops_def detached_clone_def

theorem ddp_future_tells_commit_witness:
  "\<exists>future tx st' h'. hook_finish sample_ops sample_flight sample_state 0 = (future, tx, st', h')
     \<and> tx_closed tx \<and> map_of (gf_residuals st') sample_key = Some (1/2)"
proof -
  obtain future tx st' h' where fin: "hook_finish sample_ops sample_flight sample_state 0 = (future, tx, st', h')"
    by (metis prod_cases4)
  moreover from fin have "map_of (gf_residuals st') sample_key = Some (1/2)"
    by (auto simp: hook_finish_def sample_flight_defs transaction_commit_def feedback_store_def Let_def)
  moreover have "tx_closed tx"
    using ddp_future_tells_commit[OF fin] by (simp add: sample_state_def)
  ultimately show ?thesis by blast
qed

theorem ddp_callback_failure_keeps_residual_witness:
  "\<exists>tx st'. hook_finish sample_ops sample_flight
        (sample_state\<lparr>gf_on_commit := Some (\<lambda>h. (Inl (RuntimeError ''callback''), h))\<rparr>) 0
      = (FutureDone (Inl (RuntimeError ''callback'')), tx, st', 0)
     \<and> map_of (gf_residuals st') sample_key = Some (1/2)"
  using ddp_callback_failure_keeps_residual[of sample_flight 0 "3/2" 0 sample_ops
      "sample_state\<lparr>gf_on_commit := Some (\<lambda>h. (Inl (RuntimeError ''callback''), h))\<rparr>" "1/2"]
  by (simp add: sample_flight_defs)

end
