(* ===== verification/Sharded.thy ===== *)
theory Sharded
  imports Shard_Plan
begin

text \<open>
  \<open>adapters/sharded/consumer.py\<close>: the rank-local master shard and its optimiser steps.  A
  one-dimensional tensor is the list of its elements, real numbers: arithmetic is exact and
  no hyperparameter is a NaN or infinite.  A method that raises may already have changed the
  object, so a step returns its outcome together with the state it leaves.
\<close>

section \<open>In-place operations on a leading slice\<close>

text \<open>How torch expands an operand of an in-place operation on \<open>n\<close> elements.\<close>

definition expand :: "nat \<Rightarrow> 'x list \<Rightarrow> 'x list res" where
  "expand n src =
     (if length src = n then Inr src
      else if length src = 1 then Inr (replicate n (hd src))
      else Inl (RuntimeError ''The size of tensor a must match the size of tensor b''))"

lemma expand_same [simp]: "length src = n \<Longrightarrow> expand n src = Inr src"
  by (simp add: expand_def)

lemma expand_length: "expand n src = Inr ys \<Longrightarrow> length ys = n"
  by (auto simp: expand_def split: if_splits)

definition with_prefix :: "nat \<Rightarrow> 'x list \<Rightarrow> 'x list \<Rightarrow> 'x list" where
  "with_prefix n new xs = new @ drop n xs"

lemma length_with_prefix [simp]: "length new = min n (length xs) \<Longrightarrow> length (with_prefix n new xs) = length xs"
  by (simp add: with_prefix_def)

lemma nth_with_prefix:
  "length new = n \<Longrightarrow> n \<le> length xs \<Longrightarrow> i < length xs \<Longrightarrow>
     with_prefix n new xs ! i = (if i < n then new ! i else xs ! i)"
  by (simp add: with_prefix_def nth_append)

section \<open>The master shard\<close>

record master_state =
  ms_master :: "real list"
  ms_layout_version :: int
  ms_world_size :: int
  ms_rank :: int
  ms_step :: int
  ms_exp_avg :: "real list"
  ms_exp_avg_sq :: "real list"
  ms_requires_fp_refresh :: bool

definition make_ShardedMasterState :: "string \<Rightarrow> real list \<Rightarrow> int \<Rightarrow> int \<Rightarrow> int \<Rightarrow> master_state res" where
  "make_ShardedMasterState dtype master layout_version world_size rank =
     (if \<not> py_contains dtype ''float32'' then Inl (TypeError ''master shard must use float32'')
      else if layout_version < 0 then Inl (ValueError ''layout_version must be non-negative'')
      else if world_size \<le> 0 then Inl (ValueError ''world_size must be positive'')
      else if rank < 0 \<or> world_size \<le> rank then Inl (ValueError ''rank must be within world_size'')
      else Inr \<lparr>ms_master = master, ms_layout_version = layout_version, ms_world_size = world_size,
                ms_rank = rank, ms_step = 0, ms_exp_avg = replicate (length master) 0,
                ms_exp_avg_sq = replicate (length master) 0, ms_requires_fp_refresh = False\<rparr>)"

text \<open>\<open>None\<close> is an argument that is not a \<open>ReducedShardValue\<close>.\<close>

definition validate_gradient ::
    "master_state \<Rightarrow> real list reduced_shard_value option \<Rightarrow> real list reduced_shard_value res" where
  "validate_gradient s gradient =
     (case gradient of
        None \<Rightarrow> Inl (TypeError ''gradient must be a ReducedShardValue'')
      | Some g \<Rightarrow>
          if rsv_layout_version g \<noteq> ms_layout_version s
            then Inl (ValueError ''gradient layout_version does not match master shard'')
          else if rsv_world_size g \<noteq> ms_world_size s
            then Inl (ValueError ''gradient world_size does not match master shard'')
          else if rsv_shard_index g \<noteq> ms_rank s
            then Inl (ValueError ''gradient shard_index does not match rank'')
          else if int (length (ms_master s)) \<noteq> rsv_shard_numel g
            then Inl (ValueError ''gradient shard_numel does not match master shard'')
          else Inr g)"

definition sgd_step ::
    "master_state \<Rightarrow> real list reduced_shard_value option \<Rightarrow> real \<Rightarrow> unit res \<times> master_state" where
  "sgd_step s gradient learning_rate =
     (case validate_gradient s gradient of
        Inl err \<Rightarrow> (Inl err, s)
      | Inr g \<Rightarrow>
          if learning_rate \<le> 0 then (Inl (ValueError ''learning_rate must be positive''), s)
          else
            let valid = nat (valid_numel g); target = take valid (ms_master s) in
            case expand (length target) (take valid (rsv_tensor g)) of
              Inl err \<Rightarrow> (Inl err, s)
            | Inr grad \<Rightarrow>
                (Inr (), s\<lparr>ms_master := with_prefix valid (map2 (\<lambda>p x. p + (- learning_rate) * x) target grad)
                                          (ms_master s),
                           ms_step := ms_step s + 1\<rparr>))"

text \<open>
  \<open>adamw_step\<close>: the step is counted, the parameter decayed and the first moment scaled before
  the gradient is first combined with anything, so a gradient tensor of the wrong length
  raises in the middle.  A step that is not positive after the count (a checkpoint may hold any
  integer) raises once the moments are updated: a power of zero or a division by the correction
  0 at step 0, else the square root of a negative correction, a complex number.
\<close>

definition adamw_step ::
    "master_state \<Rightarrow> real list reduced_shard_value option \<Rightarrow> real \<Rightarrow> real \<times> real \<Rightarrow> real \<Rightarrow> real
     \<Rightarrow> unit res \<times> master_state" where
  "adamw_step s gradient learning_rate betas epsilon weight_decay =
     (case validate_gradient s gradient of
        Inl err \<Rightarrow> (Inl err, s)
      | Inr g \<Rightarrow>
          if learning_rate < 0 \<or> epsilon \<le> 0 \<or> weight_decay < 0
            then (Inl (ValueError ''AdamW hyperparameters are invalid''), s)
          else case betas of (beta1, beta2) \<Rightarrow>
            if \<not> (0 \<le> beta1 \<and> beta1 < 1) \<or> \<not> (0 \<le> beta2 \<and> beta2 < 1)
              then (Inl (ValueError ''AdamW betas must be within [0, 1)''), s)
            else
              let valid = nat (valid_numel g); n = length (take valid (ms_master s));
                  s = s\<lparr>ms_step := ms_step s + 1\<rparr>;
                  parameter = map (\<lambda>p. p * (1 - learning_rate * weight_decay)) (take valid (ms_master s));
                  first = map (\<lambda>m. m * beta1) (take valid (ms_exp_avg s));
                  s = s\<lparr>ms_master := with_prefix valid parameter (ms_master s),
                        ms_exp_avg := with_prefix valid first (ms_exp_avg s)\<rparr> in
              case expand n (take valid (rsv_tensor g)) of
                Inl err \<Rightarrow> (Inl err, s)
              | Inr grad \<Rightarrow>
                  let first = map2 (\<lambda>m x. m + (1 - beta1) * x) first grad;
                      second = map2 (\<lambda>v x. v * beta2 + (1 - beta2) * x * x) (take valid (ms_exp_avg_sq s)) grad;
                      s = s\<lparr>ms_exp_avg := with_prefix valid first (ms_exp_avg s),
                            ms_exp_avg_sq := with_prefix valid second (ms_exp_avg_sq s)\<rparr> in
                  if ms_step s \<le> 0
                    then (Inl (if ms_step s = 0 \<or> beta1 = 0 \<or> beta2 = 0
                                 then ZeroDivisionError ''float division by zero''
                               else RuntimeError ''result type ComplexFloat can't be cast to Float''), s)
                  else
                    let correction1 = 1 - beta1 ^ nat (ms_step s);
                        correction2 = 1 - beta2 ^ nat (ms_step s);
                        denominator = map (\<lambda>v. sqrt v / sqrt correction2 + epsilon) second;
                        parameter = map2 (\<lambda>p (m, d). p + (- learning_rate / correction1) * (m / d))
                                      parameter (zip first denominator) in
                    (Inr (), s\<lparr>ms_master := with_prefix valid parameter (ms_master s)\<rparr>))"

section \<open>Checkpoints\<close>

datatype checkpoint_value = CNone | CInt int | CTensor "real list"

type_synonym checkpoint = "string \<rightharpoonup> checkpoint_value"

definition state_dict :: "master_state \<Rightarrow> checkpoint" where
  "state_dict s =
     [''master'' \<mapsto> CTensor (ms_master s), ''layout_version'' \<mapsto> CInt (ms_layout_version s),
      ''world_size'' \<mapsto> CInt (ms_world_size s), ''rank'' \<mapsto> CInt (ms_rank s),
      ''step'' \<mapsto> CInt (ms_step s), ''exp_avg'' \<mapsto> CTensor (ms_exp_avg s),
      ''exp_avg_sq'' \<mapsto> CTensor (ms_exp_avg_sq s)]"

definition checkpoint_get :: "checkpoint \<Rightarrow> string \<Rightarrow> checkpoint_value" where
  "checkpoint_get c name = (case c name of Some v \<Rightarrow> v | None \<Rightarrow> CNone)"

text \<open>\<open>target.copy_(value)\<close>, and \<open>int(value)\<close>.\<close>

fun copy_from :: "real list \<Rightarrow> checkpoint_value \<Rightarrow> real list res" where
  "copy_from target (CTensor xs) = expand (length target) xs"
| "copy_from target _ = Inl (TypeError ''copy_ expects a Tensor'')"

fun int_from :: "checkpoint_value \<Rightarrow> int res" where
  "int_from (CInt i) = Inr i"
| "int_from (CTensor [x]) = Inr (if 0 \<le> x then \<lfloor>x\<rfloor> else \<lceil>x\<rceil>)"
| "int_from (CTensor _) = Inl (RuntimeError ''a Tensor with more than one element cannot be converted to Scalar'')"
| "int_from CNone = Inl (TypeError ''int() argument must be a number'')"

definition load_state_dict :: "master_state \<Rightarrow> checkpoint \<Rightarrow> unit res \<times> master_state" where
  "load_state_dict s c =
     (if checkpoint_get c ''layout_version'' \<noteq> CInt (ms_layout_version s)
        then (Inl (ValueError ''checkpoint layout_version does not match runtime''), s)
      else if checkpoint_get c ''world_size'' \<noteq> CInt (ms_world_size s)
        then (Inl (ValueError ''checkpoint world_size does not match runtime''), s)
      else if checkpoint_get c ''rank'' \<noteq> CInt (ms_rank s)
        then (Inl (ValueError ''checkpoint rank does not match runtime''), s)
      else case checkpoint_get c ''master'' of
        CNone \<Rightarrow> (Inl (AttributeError ''numel''), s)
      | CInt i \<Rightarrow> (Inl (AttributeError ''numel''), s)
      | CTensor master \<Rightarrow>
          if length master \<noteq> length (ms_master s)
            then (Inl (ValueError ''checkpoint master shard shape does not match runtime''), s)
          else
            let s = s\<lparr>ms_master := master\<rparr> in
            case int_from (case c ''step'' of None \<Rightarrow> CInt 0 | Some v \<Rightarrow> v) of
              Inl err \<Rightarrow> (Inl err, s)
            | Inr step \<Rightarrow>
                let s = s\<lparr>ms_step := step\<rparr> in
                case (case checkpoint_get c ''exp_avg'' of CNone \<Rightarrow> Inr (ms_exp_avg s)
                      | v \<Rightarrow> copy_from (ms_exp_avg s) v) of
                  Inl err \<Rightarrow> (Inl err, s)
                | Inr avg \<Rightarrow>
                    let s = s\<lparr>ms_exp_avg := avg\<rparr> in
                    case (case checkpoint_get c ''exp_avg_sq'' of CNone \<Rightarrow> Inr (ms_exp_avg_sq s)
                          | v \<Rightarrow> copy_from (ms_exp_avg_sq s) v) of
                      Inl err \<Rightarrow> (Inl err, s)
                    | Inr sq \<Rightarrow> (Inr (), s\<lparr>ms_exp_avg_sq := sq, ms_requires_fp_refresh := True\<rparr>))"

definition mark_fp_refreshed :: "master_state \<Rightarrow> master_state" where
  "mark_fp_refreshed s = s\<lparr>ms_requires_fp_refresh := False\<rparr>"

section \<open>The invariant\<close>

definition master_inv :: "master_state \<Rightarrow> bool" where
  "master_inv s \<longleftrightarrow>
     0 \<le> ms_layout_version s \<and> 0 \<le> ms_rank s \<and> ms_rank s < ms_world_size s
     \<and> length (ms_exp_avg s) = length (ms_master s) \<and> length (ms_exp_avg_sq s) = length (ms_master s)
     \<and> (\<forall>v \<in> set (ms_exp_avg_sq s). 0 \<le> v)"

lemma master_inv_make: "make_ShardedMasterState d m l w r = Inr s \<Longrightarrow> master_inv s"
  by (auto simp: make_ShardedMasterState_def master_inv_def split: if_splits)

lemma validate_gradient_Inr [simp]:
  "validate_gradient s gradient = Inr g \<longleftrightarrow>
     gradient = Some g \<and> rsv_layout_version g = ms_layout_version s \<and> rsv_world_size g = ms_world_size s
     \<and> rsv_shard_index g = ms_rank s \<and> rsv_shard_numel g = int (length (ms_master s))"
  by (auto simp: validate_gradient_def split: option.splits if_splits)

section \<open>The unsharded optimiser\<close>

text \<open>AdamW on whole tensors, as the textbook writes it.\<close>

definition whole_first :: "real \<Rightarrow> real list \<Rightarrow> real list \<Rightarrow> real list" where
  "whole_first beta1 M G = map2 (\<lambda>m x. beta1 * m + (1 - beta1) * x) M G"

definition whole_second :: "real \<Rightarrow> real list \<Rightarrow> real list \<Rightarrow> real list" where
  "whole_second beta2 V G = map2 (\<lambda>v x. beta2 * v + (1 - beta2) * x\<^sup>2) V G"

definition whole_params ::
    "real \<Rightarrow> real \<times> real \<Rightarrow> real \<Rightarrow> real \<Rightarrow> nat \<Rightarrow> real list \<Rightarrow> real list \<Rightarrow> real list \<Rightarrow> real list" where
  "whole_params learning_rate betas epsilon weight_decay t P M V =
     map2 (\<lambda>p (m, v). (1 - learning_rate * weight_decay) * p
         - learning_rate * (m / (1 - fst betas ^ t)) / (sqrt (v / (1 - snd betas ^ t)) + epsilon))
       P (zip M V)"

text \<open>What a rank holds of a whole tensor: its valid part.\<close>

definition holds_part :: "'t reduced_shard_value \<Rightarrow> 'x list \<Rightarrow> 'x list \<Rightarrow> bool" where
  "holds_part g part whole \<longleftrightarrow>
     take (nat (valid_numel g)) part = narrow whole (nat (shard_offset g)) (nat (valid_numel g))"

lemma narrow_map2: "narrow (map2 f xs ys) a k = map2 f (narrow xs a k) (narrow ys a k)"
  by (simp add: narrow_def take_map drop_map take_zip drop_zip)

lemma narrow_zip: "narrow (zip xs ys) a k = zip (narrow xs a k) (narrow ys a k)"
  by (simp add: narrow_def take_zip drop_zip)

lemma narrow_map: "narrow (map f xs) a k = map f (narrow xs a k)"
  by (simp add: narrow_def take_map drop_map)

text \<open>The valid part of a shard lies in the tensor and in the shard.\<close>

lemma valid_part_bounds:
  assumes "valid_shard_value g"
  shows "nat (shard_offset g) + nat (valid_numel g) \<le> nat (rsv_original_numel g) \<or> nat (valid_numel g) = 0"
    and "nat (valid_numel g) \<le> nat (rsv_shard_numel g)"
proof -
  have off: "0 \<le> shard_offset g" and S: "0 \<le> rsv_shard_numel g"
    using assms by (simp_all add: valid_shard_value_def shard_offset_def)
  then show "nat (shard_offset g) + nat (valid_numel g) \<le> nat (rsv_original_numel g) \<or> nat (valid_numel g) = 0"
    and "nat (valid_numel g) \<le> nat (rsv_shard_numel g)"
    unfolding valid_numel_def shard_end_def by linarith+
qed

lemma length_valid_narrow:
  assumes "valid_shard_value g" and "int (length whole) = rsv_original_numel g"
  shows "length (narrow whole (nat (shard_offset g)) (nat (valid_numel g))) = nat (valid_numel g)"
  using valid_part_bounds(1)[OF assms(1)] assms(2) by (auto simp: narrow_def)

lemma take_with_prefix: "length new = n \<Longrightarrow> take n (with_prefix n new xs) = new"
  by (simp add: with_prefix_def)

lemma with_prefix_twice: "length new = n \<Longrightarrow> length new' = n \<Longrightarrow> with_prefix n new' (with_prefix n new xs) = with_prefix n new' xs"
  by (simp add: with_prefix_def)

lemma drop_with_prefix: "length new = n \<Longrightarrow> drop n (with_prefix n new xs) = drop n xs"
  by (simp add: with_prefix_def)

text \<open>A successful step, in the terms of the whole tensors.\<close>

lemma adamw_step_part:
  assumes g: "valid_shard_value g" and inv: "master_inv s"
    and match: "rsv_layout_version g = ms_layout_version s" "rsv_world_size g = ms_world_size s"
      "rsv_shard_index g = ms_rank s" "rsv_shard_numel g = int (length (ms_master s))"
    and hyper: "0 \<le> lr" "0 < eps" "0 \<le> wd" "0 \<le> b1" "b1 < 1" "0 \<le> b2" "b2 < 1"
    and len: "int (length P) = rsv_original_numel g" "length M = length P" "length V = length P" "length G = length P"
    and step: "0 \<le> ms_step s"
    and part: "holds_part g (ms_master s) P" "holds_part g (ms_exp_avg s) M" "holds_part g (ms_exp_avg_sq s) V"
      "holds_part g (rsv_tensor g) G"
  defines "M' \<equiv> whole_first b1 M G" and "V' \<equiv> whole_second b2 V G"
  shows "\<exists>s'. adamw_step s (Some g) lr (b1, b2) eps wd = (Inr (), s')
     \<and> holds_part g (ms_master s') (whole_params lr (b1, b2) eps wd (nat (ms_step s + 1)) P M' V')
     \<and> holds_part g (ms_exp_avg s') M' \<and> holds_part g (ms_exp_avg_sq s') V'
     \<and> ms_step s' = ms_step s + 1
     \<and> drop (nat (valid_numel g)) (ms_master s') = drop (nat (valid_numel g)) (ms_master s)"
proof -
  let ?k = "nat (valid_numel g)" and ?a = "nat (shard_offset g)" and ?t = "nat (ms_step s + 1)"
  let ?P = "narrow P ?a ?k" and ?M = "narrow M ?a ?k" and ?V = "narrow V ?a ?k" and ?G = "narrow G ?a ?k"
  have lens: "length ?P = ?k" "length ?M = ?k" "length ?V = ?k" "length ?G = ?k"
    using length_valid_narrow[OF g, of P] length_valid_narrow[OF g, of M] length_valid_narrow[OF g, of V]
      length_valid_narrow[OF g, of G] len by simp_all
  have takes: "take ?k (ms_master s) = ?P" "take ?k (ms_exp_avg s) = ?M" "take ?k (ms_exp_avg_sq s) = ?V"
      "take ?k (rsv_tensor g) = ?G"
    using part by (simp_all add: holds_part_def)
  have v: "validate_gradient s (Some g) = Inr g" using match by simp
  let ?first = "map2 (\<lambda>m x. m + (1 - b1) * x) (map (\<lambda>m. m * b1) ?M) ?G"
  let ?second = "map2 (\<lambda>v x. v * b2 + (1 - b2) * x * x) ?V ?G"
  let ?den = "map (\<lambda>v. sqrt v / sqrt (1 - b2 ^ ?t) + eps) ?second"
  let ?param = "map2 (\<lambda>p (m, d). p + (- lr / (1 - b1 ^ ?t)) * (m / d))
      (map (\<lambda>p. p * (1 - lr * wd)) ?P) (zip ?first ?den)"
  have first: "?first = narrow M' ?a ?k" and second: "?second = narrow V' ?a ?k"
    unfolding M'_def V'_def whole_first_def whole_second_def narrow_map2
    using lens by (auto intro!: nth_equalityI simp: mult.commute power2_eq_square mult.assoc)
  have param: "?param = narrow (whole_params lr (b1, b2) eps wd ?t P M' V') ?a ?k"
    unfolding whole_params_def narrow_map2 narrow_zip first[symmetric] second[symmetric]
    using lens by (auto intro!: nth_equalityI simp: real_sqrt_divide mult.commute)
  have out: "length (narrow M' ?a ?k) = ?k" "length (narrow V' ?a ?k) = ?k"
      "length (narrow (whole_params lr (b1, b2) eps wd ?t P M' V') ?a ?k) = ?k"
    unfolding first[symmetric] second[symmetric] param[symmetric]
    by (simp_all only: length_map length_zip lens min.idem)
  have "adamw_step s (Some g) lr (b1, b2) eps wd = (Inr (), s\<lparr>ms_step := ms_step s + 1,
      ms_master := with_prefix ?k ?param (ms_master s), ms_exp_avg := with_prefix ?k ?first (ms_exp_avg s),
      ms_exp_avg_sq := with_prefix ?k ?second (ms_exp_avg_sq s)\<rparr>)"
    using hyper step by (simp add: adamw_step_def v takes lens Let_def with_prefix_twice del: length_take)
  from this[unfolded param, unfolded first second] show ?thesis
    by (intro exI conjI, assumption)
      (simp_all add: holds_part_def take_with_prefix[OF out(1)] take_with_prefix[OF out(2)]
        take_with_prefix[OF out(3)] drop_with_prefix[OF out(3)])
qed

text \<open>The valid parts of all ranks, one after the other, are the whole tensor.\<close>

lemma gathered_parts:
  fixes g :: "nat \<Rightarrow> 't reduced_shard_value"
  assumes g: "\<And>r. r < W \<Longrightarrow> valid_shard_value (g r) \<and> rsv_shard_index (g r) = int r
      \<and> rsv_world_size (g r) = int W \<and> rsv_shard_numel (g r) = S \<and> rsv_original_numel (g r) = int (length whole)"
    and part: "\<And>r. r < W \<Longrightarrow> holds_part (g r) (part r) whole" and W: "0 < W"
  shows "concat (map (\<lambda>r. take (nat (valid_numel (g r))) (part r)) [0..<W]) = whole"
proof -
  have S: "0 \<le> S" and cover: "int (length whole) \<le> S * int W"
    using g[OF W] by (auto simp: valid_shard_value_def)
  have "take (nat (valid_numel (g r))) (part r) = narrow whole (r * nat S) (nat S)" if r: "r < W" for r
  proof -
    have o: "shard_offset (g r) = int (r * nat S)"
      using g[OF r] S by (simp add: shard_offset_def)
    then have off: "nat (shard_offset (g r)) = r * nat S" by (simp only: nat_int)
    have "valid_numel (g r) = max 0 (min (int (r * nat S) + int (nat S)) (int (length whole)) - int (r * nat S))"
      using g[OF r] S by (simp add: valid_numel_def shard_end_def o)
    then have "nat (valid_numel (g r)) = min (nat S) (length whole - r * nat S)"
      by linarith
    then show ?thesis
      using part[OF r] off by (simp add: holds_part_def narrow_def min_def)
  qed
  then have same: "map (\<lambda>r. take (nat (valid_numel (g r))) (part r)) [0..<W] = map (\<lambda>r. narrow whole (r * nat S) (nat S)) [0..<W]"
    by simp
  moreover have "length whole \<le> W * nat S"
    using cover S by (metis mult.commute nat_int nat_mono nat_mult_distrib)
  ultimately show ?thesis unfolding same concat_chunks by simp
qed

section \<open>The invariant is preserved\<close>

lemma set_with_prefix: "x \<in> set (with_prefix n new xs) \<Longrightarrow> x \<in> set new \<or> x \<in> set xs"
  by (auto simp: with_prefix_def dest: in_set_dropD)

lemma master_inv_sgd: "master_inv s \<Longrightarrow> sgd_step s gradient lr = (r, s') \<Longrightarrow> master_inv s'"
  by (auto simp: sgd_step_def master_inv_def Let_def split: sum.splits if_splits dest: expand_length)

lemma master_inv_adamw:
  assumes "master_inv s" and "adamw_step s gradient lr betas eps wd = (r, s')"
  shows "master_inv s'"
proof -
  have nonneg: "0 \<le> v" if "v \<in> set (with_prefix n (map2 (\<lambda>v x. v * b2 + (1 - b2) * x * x) (take n xs) ys) xs)"
    "\<forall>v \<in> set xs. 0 \<le> v" "0 \<le> b2" "b2 < 1" for v n b2 and xs ys :: "real list"
  proof -
    have "0 \<le> (1 - b2) * x * x" for x using that(4) by (simp add: mult.assoc)
    then show ?thesis
      using set_with_prefix[OF that(1)] that(2,3) by (auto dest!: set_zip_leftD in_set_takeD)
  qed
  have nonneg0: "0 \<le> v" if "v \<in> set (with_prefix n (map2 (\<lambda>v x. x * x) (take n xs) ys) xs)" "\<forall>v \<in> set xs. 0 \<le> v"
    for v n and xs ys :: "real list"
    using nonneg[of v n 0 xs ys] that by simp
  show ?thesis
    using assms
    by (auto simp: adamw_step_def master_inv_def Let_def split: sum.splits if_splits prod.splits
        dest!: expand_length elim!: nonneg nonneg0)
qed

lemma master_inv_mark: "master_inv s \<Longrightarrow> master_inv (mark_fp_refreshed s)"
  by (simp add: master_inv_def mark_fp_refreshed_def)

section \<open>Checkpoint round trip\<close>

lemma load_state_dict_saved:
  assumes "master_inv s" and "master_inv t" and "length (ms_master t) = length (ms_master s)"
    and "ms_layout_version t = ms_layout_version s" "ms_world_size t = ms_world_size s" "ms_rank t = ms_rank s"
  shows "load_state_dict t (state_dict s) = (Inr (), s\<lparr>ms_requires_fp_refresh := True\<rparr>)"
  using assms by (simp add: load_state_dict_def state_dict_def checkpoint_get_def master_inv_def)

section \<open>Properties\<close>

text \<open>The methods of a master state, with any arguments.\<close>

datatype master_call =
    Sgd "real list reduced_shard_value option" real
  | AdamW "real list reduced_shard_value option" real "real \<times> real" real real
  | Load checkpoint
  | MarkRefreshed

fun master_call_step :: "master_call \<Rightarrow> master_state \<Rightarrow> unit res \<times> master_state" where
  "master_call_step (Sgd gradient lr) s = sgd_step s gradient lr"
| "master_call_step (AdamW gradient lr betas eps wd) s = adamw_step s gradient lr betas eps wd"
| "master_call_step (Load c) s = load_state_dict s c"
| "master_call_step MarkRefreshed s = (Inr (), mark_fp_refreshed s)"

definition master_shape :: "master_state \<Rightarrow> master_state \<Rightarrow> bool" where
  "master_shape s0 s \<longleftrightarrow>
     length (ms_master s) = length (ms_master s0) \<and> length (ms_exp_avg s) = length (ms_master s0)
     \<and> length (ms_exp_avg_sq s) = length (ms_master s0) \<and> ms_layout_version s = ms_layout_version s0
     \<and> ms_world_size s = ms_world_size s0 \<and> ms_rank s = ms_rank s0"

lemma master_shape_call:
  assumes "master_shape s0 s" shows "master_shape s0 (snd (master_call_step call s))"
proof (cases call)
  case (Sgd gradient lr)
  then show ?thesis using assms
    by (auto simp: sgd_step_def master_shape_def Let_def split: sum.splits dest!: expand_length)
next
  case (AdamW gradient lr betas eps wd)
  then show ?thesis using assms
    by (auto simp: adamw_step_def master_shape_def Let_def split: sum.splits prod.splits dest!: expand_length)
next
  case (Load c)
  have copy: "copy_from target v = Inr ys \<Longrightarrow> length ys = length target" for target v ys
    by (cases v) (auto dest: expand_length)
  show ?thesis using assms Load
    by (auto simp: load_state_dict_def master_shape_def Let_def
        split: sum.splits checkpoint_value.splits dest!: expand_length)
next
  case MarkRefreshed
  then show ?thesis using assms by (simp add: master_shape_def mark_fp_refreshed_def)
qed


text \<open>C30: when every rank steps its own shard with AdamW, the valid parts of the ranks' master
  shards, put together in rank order, are the parameters an unsharded AdamW step on the whole
  tensors computes from the whole gradient, and the same holds of both moments; the padding
  of every master shard is left alone.\<close>

theorem sharded_adamw_equals_unsharded:
  fixes g :: "nat \<Rightarrow> real list reduced_shard_value"
  assumes "0 < W"
    and g: "\<And>r. r < W \<Longrightarrow> valid_shard_value (g r) \<and> rsv_shard_index (g r) = int r
      \<and> rsv_world_size (g r) = int W \<and> rsv_shard_numel (g r) = S \<and> rsv_original_numel (g r) = int (length P)"
    and s: "\<And>r. r < W \<Longrightarrow> master_inv (s r) \<and> ms_layout_version (s r) = rsv_layout_version (g r)
      \<and> ms_world_size (s r) = int W \<and> ms_rank (s r) = int r \<and> int (length (ms_master (s r))) = S \<and> ms_step (s r) = int t"
    and hyper: "0 \<le> lr" "0 < eps" "0 \<le> wd" "0 \<le> b1" "b1 < 1" "0 \<le> b2" "b2 < 1"
    and len: "length M = length P" "length V = length P" "length G = length P"
    and part: "\<And>r. r < W \<Longrightarrow> holds_part (g r) (ms_master (s r)) P \<and> holds_part (g r) (ms_exp_avg (s r)) M
      \<and> holds_part (g r) (ms_exp_avg_sq (s r)) V \<and> holds_part (g r) (rsv_tensor (g r)) G"
  shows "(\<forall>r < W. fst (adamw_step (s r) (Some (g r)) lr (b1, b2) eps wd) = Inr ()
        \<and> drop (nat (valid_numel (g r))) (ms_master (snd (adamw_step (s r) (Some (g r)) lr (b1, b2) eps wd)))
            = drop (nat (valid_numel (g r))) (ms_master (s r)))
     \<and> concat (map (\<lambda>r. take (nat (valid_numel (g r)))
          (ms_master (snd (adamw_step (s r) (Some (g r)) lr (b1, b2) eps wd)))) [0..<W])
        = whole_params lr (b1, b2) eps wd (Suc t) P (whole_first b1 M G) (whole_second b2 V G)
     \<and> concat (map (\<lambda>r. take (nat (valid_numel (g r)))
          (ms_exp_avg (snd (adamw_step (s r) (Some (g r)) lr (b1, b2) eps wd)))) [0..<W]) = whole_first b1 M G
     \<and> concat (map (\<lambda>r. take (nat (valid_numel (g r)))
          (ms_exp_avg_sq (snd (adamw_step (s r) (Some (g r)) lr (b1, b2) eps wd)))) [0..<W]) = whole_second b2 V G"
proof -
  let ?step = "\<lambda>r. adamw_step (s r) (Some (g r)) lr (b1, b2) eps wd"
  let ?M = "whole_first b1 M G" and ?V = "whole_second b2 V G"
  let ?P = "whole_params lr (b1, b2) eps wd (Suc t) P ?M ?V"
  have lens: "length ?M = length P" "length ?V = length P" "length ?P = length P"
    using len by (simp_all add: whole_first_def whole_second_def whole_params_def)
  have each: "fst (?step r) = Inr () \<and> holds_part (g r) (ms_master (snd (?step r))) ?P
      \<and> holds_part (g r) (ms_exp_avg (snd (?step r))) ?M \<and> holds_part (g r) (ms_exp_avg_sq (snd (?step r))) ?V
      \<and> drop (nat (valid_numel (g r))) (ms_master (snd (?step r))) = drop (nat (valid_numel (g r))) (ms_master (s r))"
    if r: "r < W" for r
  proof -
    have "nat (ms_step (s r) + 1) = Suc t" using s[OF r] by simp
    then show ?thesis
      using adamw_step_part[of "g r" "s r" lr eps wd b1 b2 P M V G] g[OF r] s[OF r] part[OF r] hyper len
      by auto
  qed
  have gather: "concat (map (\<lambda>r. take (nat (valid_numel (g r))) (x r)) [0..<W]) = whole"
    if "\<And>r. r < W \<Longrightarrow> holds_part (g r) (x r) whole" "length whole = length P" for x and whole :: "real list"
    using gathered_parts[of W g S whole x] g that assms(1) by simp
  show ?thesis
    using each gather[of "\<lambda>r. ms_master (snd (?step r))" ?P] gather[of "\<lambda>r. ms_exp_avg (snd (?step r))" ?M]
      gather[of "\<lambda>r. ms_exp_avg_sq (snd (?step r))" ?V] lens by simp
qed

text \<open>C32: a checkpoint taken from one rank's state and loaded into the state of the same rank of an
  equal layout restores master shard, step and both moments exactly, and asks for one
  full-precision refresh of the model; marking the refresh gives the saved state back.\<close>

theorem checkpoint_roundtrip:
  assumes "master_inv s" and "master_inv t" and "length (ms_master t) = length (ms_master s)"
    and "ms_layout_version t = ms_layout_version s" "ms_world_size t = ms_world_size s" "ms_rank t = ms_rank s"
  shows "load_state_dict t (state_dict s) = (Inr (), s\<lparr>ms_requires_fp_refresh := True\<rparr>)
     \<and> (\<not> ms_requires_fp_refresh s \<longrightarrow> mark_fp_refreshed (snd (load_state_dict t (state_dict s))) = s)"
  using load_state_dict_saved[OF assms] by (simp add: mark_fp_refreshed_def)

text \<open>Loading is not atomic: a checkpoint whose first moment has another length raises, but
  the master shard and the step are already those of the checkpoint, and no refresh of the
  model is asked for.\<close>

theorem checkpoint_partial_load:
  assumes "master_inv s" and "master_inv t" and "length (ms_master t) = length (ms_master s)"
    and "ms_layout_version t = ms_layout_version s" "ms_world_size t = ms_world_size s" "ms_rank t = ms_rank s"
    and "length avg \<noteq> length (ms_master s)" and "length avg \<noteq> 1"
  shows "\<exists>msg. load_state_dict t ((state_dict s)(''exp_avg'' \<mapsto> CTensor avg))
     = (Inl (RuntimeError msg), t\<lparr>ms_master := ms_master s, ms_step := ms_step s\<rparr>)"
  using assms by (simp add: load_state_dict_def state_dict_def checkpoint_get_def master_inv_def expand_def)

section \<open>Samples\<close>

definition sample_shard :: "nat \<Rightarrow> real list \<Rightarrow> real list reduced_shard_value" where
  "sample_shard r xs = \<lparr>rsv_tensor = xs, rsv_shard_index = int r, rsv_shard_numel = 2,
     rsv_original_shape = [3], rsv_original_numel = 3, rsv_world_size = 2, rsv_reduction = ''mean'',
     rsv_dtype = FP32, rsv_layout_version = 0\<rparr>"

definition sample_master :: "nat \<Rightarrow> real list \<Rightarrow> master_state" where
  "sample_master r xs = \<lparr>ms_master = xs, ms_layout_version = 0, ms_world_size = 2, ms_rank = int r,
     ms_step = 4, ms_exp_avg = [0, 0], ms_exp_avg_sq = [0, 0], ms_requires_fp_refresh = False\<rparr>"


theorem sharded_adamw_equals_unsharded_witness:
  "let g = (\<lambda>r. sample_shard r (if r = 0 then [1/2, 1] else [2, 0]));
       s = (\<lambda>r. sample_master r (if r = 0 then [1, 2] else [3, 9]))
   in concat (map (\<lambda>r. take (nat (valid_numel (g r)))
        (ms_master (snd (adamw_step (s r) (Some (g r)) (1/10) (9/10, 99/100) (1/1000) 0)))) [0..<2])
      = whole_params (1/10) (9/10, 99/100) (1/1000) 0 5 [1, 2, 3]
          (whole_first (9/10) [0, 0, 0] [1/2, 1, 2]) (whole_second (99/100) [0, 0, 0] [1/2, 1, 2])"
proof -
  let ?g = "\<lambda>r :: nat. sample_shard r (if r = 0 then [1/2, 1] else [2, 0])"
  let ?s = "\<lambda>r :: nat. sample_master r (if r = 0 then [1, 2] else [3, 9])"
  let ?P = "[1, 2, 3 :: real]" and ?Z = "[0, 0, 0 :: real]" and ?G = "[1/2, 1, 2 :: real]"
  have g: "r < 2 \<Longrightarrow> valid_shard_value (?g r) \<and> rsv_shard_index (?g r) = int r \<and> rsv_world_size (?g r) = int 2
      \<and> rsv_shard_numel (?g r) = 2 \<and> rsv_original_numel (?g r) = int (length ?P)" for r
    by (auto simp: sample_shard_def valid_shard_value_def)
  have s: "r < 2 \<Longrightarrow> master_inv (?s r) \<and> ms_layout_version (?s r) = rsv_layout_version (?g r)
      \<and> ms_world_size (?s r) = int 2 \<and> ms_rank (?s r) = int r \<and> int (length (ms_master (?s r))) = 2
      \<and> ms_step (?s r) = int 4" for r
    by (auto simp: sample_master_def sample_shard_def master_inv_def)
  have part: "r < 2 \<Longrightarrow> holds_part (?g r) (ms_master (?s r)) ?P \<and> holds_part (?g r) (ms_exp_avg (?s r)) ?Z
      \<and> holds_part (?g r) (ms_exp_avg_sq (?s r)) ?Z \<and> holds_part (?g r) (rsv_tensor (?g r)) ?G" for r
    by (drule less_2_cases) (auto simp: sample_master_def sample_shard_def holds_part_def shard_geometry narrow_def)
  show ?thesis
    using sharded_adamw_equals_unsharded[of 2 ?g 2 ?P ?s 4 "1/10" "1/1000" 0 "9/10" "99/100" ?Z ?Z ?G,
        OF _ g s _ _ _ _ _ _ _ _ _ _ part]
    unfolding Let_def by simp
qed

theorem checkpoint_roundtrip_witness:
  "load_state_dict (sample_master 1 [5, 6]) (state_dict (sample_master 1 [1, 2]))
     = (Inr (), (sample_master 1 [1, 2])\<lparr>ms_requires_fp_refresh := True\<rparr>)"
proof -
  have "master_inv (sample_master 1 [1, 2])" "master_inv (sample_master 1 [5, 6])"
    by (simp_all add: sample_master_def master_inv_def)
  from checkpoint_roundtrip[OF this] show ?thesis by (simp add: sample_master_def)
qed

theorem checkpoint_partial_load_witness:
  "\<exists>msg. load_state_dict (sample_master 1 [5, 6]) ((state_dict (sample_master 1 [1, 2]))(''exp_avg'' \<mapsto> CTensor [7, 7, 7]))
     = (Inl (RuntimeError msg), (sample_master 1 [5, 6])\<lparr>ms_master := [1, 2], ms_step := 4\<rparr>)"
proof -
  have "master_inv (sample_master 1 [1, 2])" "master_inv (sample_master 1 [5, 6])"
    by (simp_all add: sample_master_def master_inv_def)
  from checkpoint_partial_load[OF this, of "[7, 7, 7]"] show ?thesis by (simp add: sample_master_def)
qed

end
