(* ===== verification/QWD.thy ===== *)
theory QWD
  imports Sharded Core_Types
begin

text \<open>
  \<open>adapters/sharded/qwd.py\<close>: when to send a quantised weight difference instead of the full
  parameters, and how a model shard is brought up to its master.  Tensors are lists of real
  numbers as in \<open>Sharded\<close>.
\<close>

section \<open>The policy\<close>

record communication_decision =
  pd_mode :: string
  pd_bit :: int
  pd_reason :: string

record qwd_policy =
  qp_warmup_steps :: int
  qp_refresh_interval :: int
  qp_relative_error_threshold :: pyfloat

definition make_SafeInt8QWDPolicy :: "int \<Rightarrow> int \<Rightarrow> pyfloat \<Rightarrow> qwd_policy res" where
  "make_SafeInt8QWDPolicy warmup_steps refresh_interval relative_error_threshold =
     (if warmup_steps < 0 then Inl (ValueError ''warmup_steps must be non-negative'')
      else if refresh_interval \<le> 0 then Inl (ValueError ''refresh_interval must be positive'')
      else if \<not> fl_isfinite relative_error_threshold \<or> fl_le relative_error_threshold (Fin 0)
        then Inl (ValueError ''relative_error_threshold must be finite and positive'')
      else Inr \<lparr>qp_warmup_steps = warmup_steps, qp_refresh_interval = refresh_interval,
                qp_relative_error_threshold = relative_error_threshold\<rparr>)"

definition decision :: "string \<Rightarrow> string \<Rightarrow> communication_decision" where
  "decision mode reason = \<lparr>pd_mode = mode, pd_bit = 8, pd_reason = reason\<rparr>"

definition policy_decide ::
    "qwd_policy \<Rightarrow> int \<Rightarrow> pyfloat option \<Rightarrow> bool \<Rightarrow> bool \<Rightarrow> communication_decision res" where
  "policy_decide p step relative_error capability sensitive =
     (if step \<le> 0 then Inl (ValueError ''step must be positive'')
      else if step \<le> qp_warmup_steps p then Inr (decision ''fp_refresh'' ''warmup'')
      else if sensitive then Inr (decision ''fp_refresh'' ''sensitive_tensor'')
      else if \<not> capability then Inr (decision ''fp_refresh'' ''capability'')
      else if (case relative_error of None \<Rightarrow> False | Some e \<Rightarrow> fl_less (qp_relative_error_threshold p) e)
        then Inr (decision ''fp_refresh'' ''error_threshold'')
      else if step mod qp_refresh_interval p = 0 then Inr (decision ''fp_refresh'' ''periodic_refresh'')
      else Inr (decision ''qwd'' ''int8_qwd''))"

section \<open>Deltas and write-back\<close>

definition prepare_parameter_delta :: "string \<Rightarrow> real list \<Rightarrow> real list \<Rightarrow> int \<Rightarrow> real list res" where
  "prepare_parameter_delta master_dtype master model_shard n =
     (if length master \<noteq> length model_shard then Inl (ValueError ''master and model shard sizes must match'')
      else if n < 0 \<or> int (length master) < n then Inl (ValueError ''valid_numel must be within the shard'')
      else if \<not> py_contains master_dtype ''float32'' then Inl (TypeError ''master shard must use float32'')
      else
        let delta = map2 (\<lambda>x y. x - y) master model_shard in
        Inr (if n < int (length delta)
             then take (nat n) delta @ replicate (length delta - nat n) 0 else delta))"

definition validate_writeback :: "real list \<Rightarrow> real list \<Rightarrow> int \<Rightarrow> unit res" where
  "validate_writeback model src n =
     (if length model \<noteq> length src then Inl (ValueError ''writeback shard sizes must match'')
      else if n < 0 \<or> int (length model) < n then Inl (ValueError ''valid_numel must be within the shard'')
      else Inr ())"

definition apply_quantized_weight_difference :: "real list \<Rightarrow> real list \<Rightarrow> int \<Rightarrow> real list res" where
  "apply_quantized_weight_difference model_shard restored_delta n =
     rbind (validate_writeback model_shard restored_delta n) (\<lambda>_.
       Inr (with_prefix (nat n) (map2 (+) (take (nat n) model_shard) (take (nat n) restored_delta)) model_shard))"

definition full_precision_refresh :: "real list \<Rightarrow> real list \<Rightarrow> int \<Rightarrow> real list res" where
  "full_precision_refresh model_shard master_shard n =
     rbind (validate_writeback model_shard master_shard n) (\<lambda>_.
       Inr (with_prefix (nat n) (take (nat n) master_shard) model_shard))"

section \<open>Properties\<close>

lemma make_policy_Inr:
  "make_SafeInt8QWDPolicy w i t = Inr p \<Longrightarrow>
     0 \<le> qp_warmup_steps p \<and> 0 < qp_refresh_interval p
     \<and> (\<exists>x. 0 < x \<and> qp_relative_error_threshold p = Fin x)"
  by (cases t) (auto simp: make_SafeInt8QWDPolicy_def split: if_splits)

text \<open>C33: a weight difference is chosen exactly after the warm-up, for an insensitive tensor on a
  capable device, at a step that is no multiple of the refresh interval, when no relative
  error above the threshold is reported, which a NaN is not; and whatever is reported, every
  run of \<open>refresh_interval\<close> consecutive steps contains a full-precision refresh.\<close>

theorem qwd_policy_exact:
  assumes "make_SafeInt8QWDPolicy warmup interval (Fin x) = Inr p" and "0 < step"
  shows "(\<exists>d. policy_decide p step e capability sensitive = Inr d \<and> pd_bit d = 8
        \<and> (pd_mode d = ''qwd'' \<longleftrightarrow> warmup < step \<and> \<not> sensitive \<and> capability \<and> \<not> interval dvd step
            \<and> (\<forall>y. e = Some (Fin y) \<longrightarrow> y \<le> x) \<and> e \<noteq> Some PosInf))
     \<and> (\<exists>k \<in> {step..<step + interval}. \<forall>e capability sensitive.
          \<exists>d. policy_decide p k e capability sensitive = Inr d \<and> pd_mode d = ''fp_refresh'')"
proof -
  have p: "p = \<lparr>qp_warmup_steps = warmup, qp_refresh_interval = interval, qp_relative_error_threshold = Fin x\<rparr>"
      "0 < interval"
    using assms(1) by (auto simp: make_SafeInt8QWDPolicy_def split: if_splits)
  have above: "(case e of None \<Rightarrow> False | Some v \<Rightarrow> fl_less (Fin x) v)
      \<longleftrightarrow> \<not> ((\<forall>y. e = Some (Fin y) \<longrightarrow> y \<le> x) \<and> e \<noteq> Some PosInf)"
  proof (cases e)
    case (Some v)
    then show ?thesis by (cases v) auto
  qed simp
  have "\<exists>d. policy_decide p step e capability sensitive = Inr d \<and> pd_bit d = 8
      \<and> (pd_mode d = ''qwd'' \<longleftrightarrow> warmup < step \<and> \<not> sensitive \<and> capability \<and> \<not> interval dvd step
          \<and> (\<forall>y. e = Some (Fin y) \<longrightarrow> y \<le> x) \<and> e \<noteq> Some PosInf)"
    unfolding p(1) policy_decide_def qwd_policy.select_convs above
    using assms(2) by (simp add: decision_def mod_eq_0_iff_dvd)
  moreover let ?k = "(step + interval - 1) div interval * interval"
  have "step \<le> ?k" "?k < step + interval"
    using ceil_div_bounds[OF p(2)] by auto
  moreover have "\<exists>d. policy_decide p ?k e capability sensitive = Inr d \<and> pd_mode d = ''fp_refresh''"
    for e capability sensitive
    using calculation(2) assms(2) by (auto simp: policy_decide_def p(1) decision_def)
  ultimately show ?thesis by (intro conjI bexI[of _ ?k]) auto
qed


theorem qwd_policy_exact_witness:
  "\<exists>d. policy_decide \<lparr>qp_warmup_steps = 100, qp_refresh_interval = 512, qp_relative_error_threshold = Fin (1/100)\<rparr>
       101 (Some NaN) True False = Inr d \<and> pd_mode d = ''qwd''"
proof -
  have "make_SafeInt8QWDPolicy 100 512 (Fin (1/100))
      = Inr \<lparr>qp_warmup_steps = 100, qp_refresh_interval = 512, qp_relative_error_threshold = Fin (1/100)\<rparr>"
    by (simp add: make_SafeInt8QWDPolicy_def)
  from qwd_policy_exact[OF this, of 101 "Some NaN" True False] show ?thesis by auto
qed


end
