(* ===== verification/Gen_Dispatch.thy ===== *)
theory Gen_Dispatch
  imports Prelude
begin

text \<open>
  What \<open>csrc/quantization/gen_code_quant.py\<close> and \<open>gen_code_dequant.py\<close> share: the two scripts
  write C++ files in which a function dispatches on dtype, bit width, group size, top-k and
  quantisation type to one instantiation of a kernel template.  The scripts hold three
  mutable globals: the file text \<open>txt\<close>, the text \<open>inplace_func\<close> of the dispatcher and the
  current \<open>indent\<close>; they are the record \<open>gen_state\<close>.  The dispatcher's text is read as a nested
  conditional, a \<open>block\<close>, whose rendering is that text and whose execution says which function
  a call of the dispatcher reaches.
\<close>

section \<open>Formatting\<close>

text \<open>
  \<open>str.format\<close> with keyword arguments: doubled braces stand for braces, a field is replaced by
  its argument.  The scanner's state says what was read: plain text, one opening or one
  closing brace, or the beginning of a field's name.  The templates use bare names only, no
  conversion, format specification or attribute.
\<close>

datatype scan = Plain | Opened | Closing | Field string

fun py_format_from :: "(string \<rightharpoonup> string) \<Rightarrow> scan \<Rightarrow> string \<Rightarrow> string res" where
  "py_format_from args Plain [] = Inr []"
| "py_format_from args Plain (c # r) =
     (if c = CHR ''{'' then py_format_from args Opened r
      else if c = CHR ''}'' then py_format_from args Closing r
      else rbind (py_format_from args Plain r) (\<lambda>s. Inr (c # s)))"
| "py_format_from args Opened [] = Inl (ValueError ''Single '{' encountered in format string'')"
| "py_format_from args Opened (c # r) =
     (if c = CHR ''{'' then rbind (py_format_from args Plain r) (\<lambda>s. Inr (c # s))
      else if c = CHR ''}'' then Inl (IndexError ''Replacement index 0 out of range'')
      else py_format_from args (Field [c]) r)"
| "py_format_from args Closing [] = Inl (ValueError ''Single '}' encountered in format string'')"
| "py_format_from args Closing (c # r) =
     (if c = CHR ''}'' then rbind (py_format_from args Plain r) (\<lambda>s. Inr (c # s))
      else Inl (ValueError ''Single '}' encountered in format string''))"
| "py_format_from args (Field f) [] = Inl (ValueError ''expected '}' before end of string'')"
| "py_format_from args (Field f) (c # r) =
     (if c = CHR ''}''
        then (case args f of
                None \<Rightarrow> Inl (KeyError f)
              | Some v \<Rightarrow> rbind (py_format_from args Plain r) (\<lambda>s. Inr (v @ s)))
      else py_format_from args (Field (f @ [c])) r)"

definition py_format :: "string \<Rightarrow> (string \<times> string) list \<Rightarrow> string res" where
  "py_format template args = py_format_from (map_of args) Plain template"

text \<open>A line is closed when its braces are and its fields are among the given names.\<close>

fun closed_from :: "string set \<Rightarrow> scan \<Rightarrow> string \<Rightarrow> bool" where
  "closed_from F Plain [] \<longleftrightarrow> True"
| "closed_from F Plain (c # r) \<longleftrightarrow>
     (if c = CHR ''{'' then closed_from F Opened r
      else if c = CHR ''}'' then closed_from F Closing r else closed_from F Plain r)"
| "closed_from F Opened [] \<longleftrightarrow> False"
| "closed_from F Opened (c # r) \<longleftrightarrow>
     (if c = CHR ''{'' then closed_from F Plain r
      else if c = CHR ''}'' then False else closed_from F (Field [c]) r)"
| "closed_from F Closing [] \<longleftrightarrow> False"
| "closed_from F Closing (c # r) \<longleftrightarrow> c = CHR ''}'' \<and> closed_from F Plain r"
| "closed_from F (Field f) [] \<longleftrightarrow> False"
| "closed_from F (Field f) (c # r) \<longleftrightarrow>
     (if c = CHR ''}'' then f \<in> F \<and> closed_from F Plain r else closed_from F (Field (f @ [c])) r)"

lemma closed_format:
  "closed_from F m t \<Longrightarrow> F \<subseteq> dom args \<Longrightarrow> \<exists>s. py_format_from args m t = Inr s"
proof (induction F m t rule: closed_from.induct)
  case (8 F f c r)
  then show ?case by (cases "args f") (auto split: if_splits)
qed (auto split: if_splits)

lemma closed_append:
  "closed_from F m s \<Longrightarrow> closed_from F Plain t \<Longrightarrow> closed_from F m (s @ t)"
  by (induction F m s rule: closed_from.induct) (auto split: if_splits)

lemma format_append:
  "closed_from F m s \<Longrightarrow> F \<subseteq> dom args \<Longrightarrow>
     py_format_from args m (s @ t)
       = rbind (py_format_from args m s) (\<lambda>x. rbind (py_format_from args Plain t) (\<lambda>y. Inr (x @ y)))"
proof (induction F m s rule: closed_from.induct)
  case (8 F f c r)
  then show ?case by (cases "args f") (auto split: if_splits simp: rbind_assoc)
qed (auto split: if_splits simp: rbind_assoc)

text \<open>A text written line by line, as the triple-quoted strings of the scripts are.\<close>

definition text_of :: "string list \<Rightarrow> string" where
  "text_of ls = concat (map (\<lambda>l. l @ [CHR 0x0A]) ls)"

lemma closed_text:
  assumes "list_all (closed_from F Plain) ls" shows "closed_from F Plain (text_of ls)"
  using assms by (induction ls) (auto simp: text_of_def intro: closed_append)

text \<open>A formatted text contains each of its lines formatted.\<close>

lemma format_line:
  assumes "list_all (closed_from F Plain) ls" and "F \<subseteq> dom (map_of args)"
    and "py_format (text_of ls) args = Inr s" and "l \<in> set ls" and "py_format l args = Inr u"
  shows "\<exists>before after. s = before @ u @ [CHR 0x0A] @ after"
proof -
  obtain ls1 ls2 where ls: "ls = ls1 @ l # ls2"
    using assms(4) by (auto dest: split_list)
  have closed: "closed_from F Plain (text_of ls1)" "closed_from F Plain l" "closed_from F Plain [CHR 0x0A]"
    using assms(1) by (simp_all add: ls closed_text)
  have "text_of ls = text_of ls1 @ (l @ ([CHR 0x0A] @ text_of ls2))"
    by (simp add: ls text_of_def)
  then show ?thesis
    using assms(3,5) unfolding py_format_def
    by (auto simp: format_append[OF closed(1) assms(2)] format_append[OF closed(2) assms(2)])
qed

section \<open>The nested conditional\<close>

definition torch_dtype_list :: "string list" where
  "torch_dtype_list = [''torch::kHalf'', ''torch::kBFloat16'', ''torch::kFloat32'']"

definition dtype_list :: "string list" where
  "dtype_list = [''__half'', ''__nv_bfloat16'', ''float'']"

definition group_size_list :: "string list" where
  "group_size_list = [''16'', ''32'', ''64'']"

definition topk_list :: "string list" where
  "topk_list = [''0'', ''1'', ''2'']"

definition bit_list :: "string list" where
  "bit_list = [''4'', ''8'']"

definition quant_type_list :: "string list" where
  "quant_type_list = [''Linear'', ''Normal'', ''Uniform'', ''E2M1'', ''E3M0'']"

lemmas list_defs = torch_dtype_list_def dtype_list_def group_size_list_def topk_list_def bit_list_def
  quant_type_list_def

definition spaces :: "nat \<Rightarrow> string" where
  "spaces indent = replicate indent CHR '' ''"

lemma spaces_add: "spaces (n + 4) = spaces n @ ''    ''"
  unfolding spaces_def replicate_add by (simp add: numeral_eq_Suc)

definition get_if :: "string \<Rightarrow> nat \<Rightarrow> nat \<Rightarrow> string" where
  "get_if cond i indent =
     (if i = 0 then spaces indent @ ''if ('' @ cond @ '') {'' @ [CHR 0x0A]
      else spaces indent @ ''} else if ('' @ cond @ '') {'' @ [CHR 0x0A])"

text \<open>A conditional compares a C++ expression with a constant; a leaf calls and returns.\<close>

datatype block =
    Return_call string
  | If_else string block block
  | Chain "((string \<times> string) \<times> block) list"

fun cond_text :: "string \<times> string \<Rightarrow> string" where
  "cond_text (e, v) = e @ '' == '' @ v"

fun render :: "nat \<Rightarrow> block \<Rightarrow> string"
  and render_chain :: "nat \<Rightarrow> nat \<Rightarrow> ((string \<times> string) \<times> block) list \<Rightarrow> string" where
  "render n (Return_call c) =
     spaces n @ c @ '';'' @ [CHR 0x0A] @ spaces n @ ''return;'' @ [CHR 0x0A]"
| "render n (If_else c a b) =
     spaces n @ ''if ('' @ c @ '') {'' @ [CHR 0x0A] @ render (n + 4) a
     @ spaces n @ ''} else {'' @ [CHR 0x0A] @ render (n + 4) b @ spaces n @ ''}'' @ [CHR 0x0A]"
| "render n (Chain cs) = render_chain n 0 cs @ spaces n @ ''}'' @ [CHR 0x0A]"
| "render_chain n i [] = []"
| "render_chain n i ((c, b) # cs) = get_if (cond_text c) i n @ render (n + 4) b @ render_chain n (Suc i) cs"

text \<open>The environment gives every C++ expression the constant it equals.  A block that calls
  nothing falls through to the code behind it.\<close>

fun exec :: "(string \<Rightarrow> string) \<Rightarrow> block \<Rightarrow> string option"
  and exec_chain :: "(string \<Rightarrow> string) \<Rightarrow> ((string \<times> string) \<times> block) list \<Rightarrow> string option" where
  "exec env (Return_call c) = Some c"
| "exec env (If_else c a b) = (if env c = ''true'' then exec env a else exec env b)"
| "exec env (Chain cs) = exec_chain env cs"
| "exec_chain env [] = None"
| "exec_chain env (((e, v), b) # cs) = (if env e = v then exec env b else exec_chain env cs)"


section \<open>The loops\<close>

text \<open>The indent is decreased only where it was increased before: it is never negative.\<close>

record gen_state =
  gs_txt :: string
  gs_inplace :: string
  gs_indent :: nat

text \<open>The function the innermost loop calls: dtype, group size, bit, top-k, indent, quantisation
  type and the file text so far, to the code of the branch and the new file text.\<close>

type_synonym gen_inner =
  "string \<Rightarrow> string \<Rightarrow> string \<Rightarrow> string \<Rightarrow> nat \<Rightarrow> string \<Rightarrow> string \<Rightarrow> (string \<times> string) res"

definition emit :: "string \<Rightarrow> gen_state \<Rightarrow> gen_state" where
  "emit code s = s\<lparr>gs_inplace := gs_inplace s @ code\<rparr>"

fun for_each :: "nat \<Rightarrow> 'a list \<Rightarrow> (nat \<Rightarrow> 'a \<Rightarrow> 's \<Rightarrow> 's res) \<Rightarrow> 's \<Rightarrow> 's res" where
  "for_each i [] f s = Inr s"
| "for_each i (x # xs) f s = rbind (f i x s) (for_each (Suc i) xs f)"

text \<open>One iteration of a loop that is not innermost: open the branch, run the loop inside it one
  level deeper, close that loop's last branch.\<close>

definition branch :: "string \<Rightarrow> nat \<Rightarrow> (gen_state \<Rightarrow> gen_state res) \<Rightarrow> gen_state \<Rightarrow> gen_state res" where
  "branch cond i loop s =
     (let s = emit (get_if cond i (gs_indent s)) s; s = s\<lparr>gs_indent := gs_indent s + 4\<rparr> in
      rbind (loop s) (\<lambda>s.
        let s = emit (spaces (gs_indent s) @ ''}'' @ [CHR 0x0A]) s in
        Inr (s\<lparr>gs_indent := gs_indent s - 4\<rparr>)))"

definition quant_type_loop ::
    "gen_inner \<Rightarrow> string \<Rightarrow> string \<Rightarrow> string \<Rightarrow> string \<Rightarrow> gen_state \<Rightarrow> gen_state res" where
  "quant_type_loop gen_inner dtype bits group_size topk =
     for_each 0 quant_type_list (\<lambda>m quant_type s.
       if quant_type \<noteq> ''Linear'' \<and> bits \<noteq> ''4'' then Inr s
       else
         let s = emit (get_if (''quant_type == QuantType::'' @ quant_type) m (gs_indent s)) s in
         rbind (gen_inner dtype group_size bits topk (gs_indent s + 4) quant_type (gs_txt s))
           (\<lambda>(code, txt). Inr (emit code (s\<lparr>gs_txt := txt\<rparr>))))"

definition topk_loop :: "gen_inner \<Rightarrow> string \<Rightarrow> string \<Rightarrow> string \<Rightarrow> gen_state \<Rightarrow> gen_state res" where
  "topk_loop gen_inner dtype bits group_size =
     for_each 0 topk_list (\<lambda>l topk.
       branch (''topk == '' @ topk) l (quant_type_loop gen_inner dtype bits group_size topk))"

definition group_size_loop :: "gen_inner \<Rightarrow> string \<Rightarrow> string \<Rightarrow> gen_state \<Rightarrow> gen_state res" where
  "group_size_loop gen_inner dtype bits =
     for_each 0 group_size_list (\<lambda>k group_size.
       branch (''group_size == '' @ group_size) k (topk_loop gen_inner dtype bits group_size))"

definition bit_loop :: "gen_inner \<Rightarrow> string \<Rightarrow> gen_state \<Rightarrow> gen_state res" where
  "bit_loop gen_inner dtype =
     for_each 0 bit_list (\<lambda>j bits. branch (''bit == '' @ bits) j (group_size_loop gen_inner dtype bits))"

text \<open>\<open>tensor\<close> is the C++ variable whose dtype selects: \<open>input\<close> or \<open>output\<close>.\<close>

definition dtype_loop :: "gen_inner \<Rightarrow> string \<Rightarrow> gen_state \<Rightarrow> gen_state res" where
  "dtype_loop gen_inner tensor =
     for_each 0 (zip torch_dtype_list dtype_list) (\<lambda>i (torch_dtype, dtype).
       branch (tensor @ ''.dtype() == '' @ torch_dtype) i (bit_loop gen_inner dtype))"

text \<open>The closing brace of the outermost conditional, and the assertion behind it.\<close>

definition finish_dispatch :: "gen_state \<Rightarrow> gen_state" where
  "finish_dispatch s =
     (let s = emit (spaces (gs_indent s) @ ''}'' @ [CHR 0x0A]) s in
      emit (spaces (gs_indent s) @ ''assert(false);'' @ [CHR 0x0A] @ ''}'' @ [CHR 0x0A]) s)"

section \<open>What the loops write\<close>

definition quant_types_of :: "string \<Rightarrow> string list" where
  "quant_types_of bits = filter (\<lambda>q. q = ''Linear'' \<or> bits = ''4'') quant_type_list"

definition quant_type_tree :: "(string \<Rightarrow> block) \<Rightarrow> string \<Rightarrow> ((string \<times> string) \<times> block) list" where
  "quant_type_tree leaf bits = map (\<lambda>q. ((''quant_type'', ''QuantType::'' @ q), leaf q)) (quant_types_of bits)"

definition level :: "string \<Rightarrow> string list \<Rightarrow> (string \<Rightarrow> ((string \<times> string) \<times> block) list)
    \<Rightarrow> ((string \<times> string) \<times> block) list" where
  "level e xs inside = map (\<lambda>x. ((e, x), Chain (inside x))) xs"

text \<open>The leaf of dtype, bit, group size, top-k and quantisation type.\<close>

type_synonym 'r per_kernel = "string \<Rightarrow> string \<Rightarrow> string \<Rightarrow> string \<Rightarrow> string \<Rightarrow> 'r"

definition dtype_tree :: "block per_kernel \<Rightarrow> string \<Rightarrow> ((string \<times> string) \<times> block) list" where
  "dtype_tree leaf d =
     level ''bit'' bit_list (\<lambda>b. level ''group_size'' group_size_list (\<lambda>g.
       level ''topk'' topk_list (\<lambda>t. quant_type_tree (leaf d b g t) b)))"

definition dispatch_tree :: "string \<Rightarrow> block per_kernel \<Rightarrow> block" where
  "dispatch_tree tensor leaf =
     Chain (map (\<lambda>(td, d). ((tensor @ ''.dtype()'', td), Chain (dtype_tree leaf d))) (zip torch_dtype_list dtype_list))"

text \<open>All kernels, in the order in which they are instantiated.\<close>

definition kernels :: "(string \<times> string \<times> string \<times> string \<times> string) list" where
  "kernels = [(d, b, g, t, q). (td, d) \<leftarrow> zip torch_dtype_list dtype_list, b \<leftarrow> bit_list,
     g \<leftarrow> group_size_list, t \<leftarrow> topk_list, q \<leftarrow> quant_types_of b]"

text \<open>Code and definitions added to the state, at an unchanged indent.\<close>

definition adds :: "string \<Rightarrow> string \<Rightarrow> gen_state \<Rightarrow> gen_state" where
  "adds code defs s = s\<lparr>gs_inplace := gs_inplace s @ code, gs_txt := gs_txt s @ defs\<rparr>"

lemma adds_simps [simp]:
  "adds [] [] s = s" "adds c2 d2 (adds c1 d1 s) = adds (c1 @ c2) (d1 @ d2) s"
  "gs_indent (adds c d s) = gs_indent s" "gs_txt (adds c d s) = gs_txt s @ d"
  "gs_inplace (adds c d s) = gs_inplace s @ c"
  by (simp_all add: adds_def)

lemma for_each_adds:
  assumes "\<And>i x s. x \<in> set xs \<Longrightarrow>
      f i x s = Inr (adds (get_if (cond_text (c x)) i (gs_indent s) @ render (gs_indent s + 4) (b x)) (t x) s)"
  shows "for_each i xs f s
     = Inr (adds (render_chain (gs_indent s) i (map (\<lambda>x. (c x, b x)) xs)) (concat (map t xs)) s)"
  using assms by (induction xs arbitrary: i s) simp_all

text \<open>A branch around a loop that adds a chain adds that chain closed.\<close>

lemma branch_adds:
  assumes "\<And>s. loop s = Inr (adds (render_chain (gs_indent s) 0 cs) t s)"
  shows "branch cond i loop s
     = Inr (adds (get_if cond i (gs_indent s) @ render (gs_indent s + 4) (Chain cs)) t s)"
  by (simp add: branch_def Let_def assms emit_def adds_def)

lemma level_adds:
  assumes "\<And>x s. x \<in> set xs \<Longrightarrow> loop x s = Inr (adds (render_chain (gs_indent s) 0 (inside x)) (t x) s)"
  shows "for_each 0 xs (\<lambda>i x. branch (e @ '' == '' @ x) i (loop x)) s
     = Inr (adds (render_chain (gs_indent s) 0 (level e xs inside)) (concat (map t xs)) s)"
  unfolding level_def
proof (rule for_each_adds)
  fix i x and s :: gen_state
  assume "x \<in> set xs"
  then have "branch (e @ '' == '' @ x) i (loop x) s
      = Inr (adds (get_if (e @ '' == '' @ x) i (gs_indent s) @ render (gs_indent s + 4) (Chain (inside x))) (t x) s)"
    by (intro branch_adds assms)
  then show "branch (e @ '' == '' @ x) i (loop x) s
      = Inr (adds (get_if (cond_text (e, x)) i (gs_indent s) @ render (gs_indent s + 4) (Chain (inside x))) (t x) s)"
    by simp
qed

text \<open>A generator's contract: its inner function renders one leaf and appends one text to the
  file, for every kernel of the lists.\<close>

locale kernel_generator =
  fixes gen_inner :: gen_inner
    and leaf :: "block per_kernel"
    and instance_text :: "string per_kernel"
  assumes inner: "d \<in> set dtype_list \<Longrightarrow> b \<in> set bit_list \<Longrightarrow> g \<in> set group_size_list \<Longrightarrow> t \<in> set topk_list
      \<Longrightarrow> q \<in> set quant_type_list \<Longrightarrow>
      gen_inner d g b t n q txt = Inr (render n (leaf d b g t q), txt @ instance_text d b g t q)"
begin

lemma quant_type_loop_adds:
  assumes "d \<in> set dtype_list" "b \<in> set bit_list" "g \<in> set group_size_list" "t \<in> set topk_list"
  shows "quant_type_loop gen_inner d b g t s
     = Inr (adds (render_chain (gs_indent s) 0 (quant_type_tree (leaf d b g t) b))
         (concat (map (instance_text d b g t) (quant_types_of b))) s)"
proof -
  have step: "gen_inner d g b t n ''Linear'' u = Inr (render n (leaf d b g t ''Linear''), u @ instance_text d b g t ''Linear'')"
      "gen_inner d g b t n ''Normal'' u = Inr (render n (leaf d b g t ''Normal''), u @ instance_text d b g t ''Normal'')"
      "gen_inner d g b t n ''Uniform'' u = Inr (render n (leaf d b g t ''Uniform''), u @ instance_text d b g t ''Uniform'')"
      "gen_inner d g b t n ''E2M1'' u = Inr (render n (leaf d b g t ''E2M1''), u @ instance_text d b g t ''E2M1'')"
      "gen_inner d g b t n ''E3M0'' u = Inr (render n (leaf d b g t ''E3M0''), u @ instance_text d b g t ''E3M0'')"
    for n u by (simp_all add: inner[OF assms] quant_type_list_def)
  note loop_simps = quant_type_loop_def quant_type_tree_def quant_types_of_def quant_type_list_def emit_def
    adds_def Let_def
  show ?thesis
  proof (cases "b = ''4''")
    case True
    show ?thesis unfolding True by (simp add: loop_simps step[unfolded True])
  next
    case False
    then show ?thesis by (simp add: loop_simps step)
  qed
qed

lemma topk_loop_adds:
  assumes "d \<in> set dtype_list" "b \<in> set bit_list" "g \<in> set group_size_list"
  shows "topk_loop gen_inner d b g s
     = Inr (adds (render_chain (gs_indent s) 0 (level ''topk'' topk_list (\<lambda>t. quant_type_tree (leaf d b g t) b)))
         (concat (map (\<lambda>t. concat (map (instance_text d b g t) (quant_types_of b))) topk_list)) s)"
  using level_adds[OF quant_type_loop_adds[OF assms], where e = "''topk''"] by (simp add: topk_loop_def)

lemma group_size_loop_adds:
  assumes "d \<in> set dtype_list" "b \<in> set bit_list"
  shows "group_size_loop gen_inner d b s
     = Inr (adds (render_chain (gs_indent s) 0 (level ''group_size'' group_size_list (\<lambda>g.
           level ''topk'' topk_list (\<lambda>t. quant_type_tree (leaf d b g t) b))))
         (concat (map (\<lambda>g. concat (map (\<lambda>t. concat (map (instance_text d b g t) (quant_types_of b))) topk_list))
            group_size_list)) s)"
  using level_adds[OF topk_loop_adds[OF assms], where e = "''group_size''"] by (simp add: group_size_loop_def)

lemma bit_loop_adds:
  assumes "d \<in> set dtype_list"
  shows "bit_loop gen_inner d s
     = Inr (adds (render_chain (gs_indent s) 0 (dtype_tree leaf d))
         (concat (map (\<lambda>b. concat (map (\<lambda>g. concat (map (\<lambda>t. concat (map (instance_text d b g t) (quant_types_of b)))
            topk_list)) group_size_list)) bit_list)) s)"
  using level_adds[OF group_size_loop_adds[OF assms], where e = "''bit''"] by (simp add: bit_loop_def dtype_tree_def)

text \<open>The whole run of the loops: the dispatcher's text is the rendered conditional, the file text
  the instances of all kernels in order.\<close>

lemma dtype_loop_adds:
  "dtype_loop gen_inner tensor s
     = Inr (adds (render_chain (gs_indent s) 0
           (map (\<lambda>(td, d). ((tensor @ ''.dtype()'', td), Chain (dtype_tree leaf d))) (zip torch_dtype_list dtype_list)))
         (concat (map (\<lambda>(d, b, g, t, q). instance_text d b g t q) kernels)) s)"
proof -
  let ?c = "\<lambda>(td, d :: string). (tensor @ ''.dtype()'', td)"
  let ?t = "\<lambda>(td :: string, d). concat (map (\<lambda>b. concat (map (\<lambda>g. concat (map (\<lambda>t. concat (map (instance_text d b g t)
      (quant_types_of b))) topk_list)) group_size_list)) bit_list)"
  have "dtype_loop gen_inner tensor s
      = Inr (adds (render_chain (gs_indent s) 0 (map (\<lambda>x. (?c x, (\<lambda>(td, d). Chain (dtype_tree leaf d)) x))
          (zip torch_dtype_list dtype_list))) (concat (map ?t (zip torch_dtype_list dtype_list))) s)"
    unfolding dtype_loop_def
  proof (rule for_each_adds)
    fix i x and s :: gen_state
    assume "x \<in> set (zip torch_dtype_list dtype_list)"
    moreover obtain td d where x: "x = (td, d)" by fastforce
    ultimately have d: "d \<in> set dtype_list" by (auto dest: set_zip_rightD)
    show "(case x of (torch_dtype, dtype) \<Rightarrow> branch (tensor @ ''.dtype() == '' @ torch_dtype) i (bit_loop gen_inner dtype)) s
        = Inr (adds (get_if (cond_text (?c x)) i (gs_indent s)
            @ render (gs_indent s + 4) ((\<lambda>(td, d). Chain (dtype_tree leaf d)) x)) (?t x) s)"
      using branch_adds[OF bit_loop_adds[OF d], of "tensor @ ''.dtype() == '' @ td" i s] by (simp add: x)
  qed
  moreover have "concat (map ?t xs) = concat (map (\<lambda>(d, b, g, t, q). instance_text d b g t q)
      [(d, b, g, t, q). (td, d) \<leftarrow> xs, b \<leftarrow> bit_list, g \<leftarrow> group_size_list, t \<leftarrow> topk_list, q \<leftarrow> quant_types_of b])"
    for xs
    by (induction xs) (auto simp: bit_list_def group_size_list_def topk_list_def comp_def)
  ultimately show ?thesis by (simp add: kernels_def case_prod_unfold)
qed

end

section \<open>What a call of the dispatcher reaches\<close>

lemma exec_chain_hit:
  "distinct (map v xs) \<Longrightarrow> x \<in> set xs \<Longrightarrow> env e = v x \<Longrightarrow>
     exec_chain env (map (\<lambda>x. ((e, v x), b x)) xs) = exec env (b x)"
  by (induction xs) (auto simp: image_iff)

lemma exec_chain_miss:
  "env e \<notin> v ` set xs \<Longrightarrow> exec_chain env (map (\<lambda>x. ((e, v x), b x)) xs) = None"
  by (induction xs) auto

lemma exec_level:
  assumes "distinct xs"
  shows "exec_chain env (level e xs inside) = (if env e \<in> set xs then exec_chain env (inside (env e)) else None)"
  using exec_chain_hit[where v = "\<lambda>x. x" and xs = xs and x = "env e" and env = env and e = e
      and b = "\<lambda>x. Chain (inside x)"]
    exec_chain_miss[where v = "\<lambda>x. x" and xs = xs and env = env and e = e and b = "\<lambda>x. Chain (inside x)"] assms
  by (auto simp: level_def)

lemma exec_quant_types:
  assumes "env ''quant_type'' = ''QuantType::'' @ q"
  shows "exec_chain env (quant_type_tree leaf b) = (if q \<in> set (quant_types_of b) then exec env (leaf q) else None)"
proof -
  have "distinct (map (\<lambda>q. ''QuantType::'' @ q) (quant_types_of b))"
    by (simp add: quant_types_of_def quant_type_list_def)
  then show ?thesis
    using exec_chain_hit[where v = "\<lambda>q. ''QuantType::'' @ q" and xs = "quant_types_of b" and x = q and env = env
        and e = "''quant_type''" and b = leaf]
      exec_chain_miss[where v = "\<lambda>q. ''QuantType::'' @ q" and xs = "quant_types_of b" and env = env
        and e = "''quant_type''" and b = leaf] assms
    by (auto simp: quant_type_tree_def)
qed

text \<open>A branch for every supported combination and for no other.\<close>

theorem exec_dispatch_tree:
  assumes "env ''quant_type'' = ''QuantType::'' @ q"
  shows "exec env (dispatch_tree tensor leaf) =
     (case map_of (zip torch_dtype_list dtype_list) (env (tensor @ ''.dtype()'')) of
        None \<Rightarrow> None
      | Some d \<Rightarrow>
          if env ''bit'' \<in> set bit_list \<and> env ''group_size'' \<in> set group_size_list \<and> env ''topk'' \<in> set topk_list
             \<and> q \<in> set quant_type_list \<and> (q = ''Linear'' \<or> env ''bit'' = ''4'')
          then exec env (leaf d (env ''bit'') (env ''group_size'') (env ''topk'') q) else None)"
proof -
  have inside: "exec_chain env (dtype_tree leaf d) =
      (if env ''bit'' \<in> set bit_list \<and> env ''group_size'' \<in> set group_size_list \<and> env ''topk'' \<in> set topk_list
          \<and> q \<in> set quant_type_list \<and> (q = ''Linear'' \<or> env ''bit'' = ''4'')
       then exec env (leaf d (env ''bit'') (env ''group_size'') (env ''topk'') q) else None)" for d
  proof -
    have "distinct bit_list" "distinct group_size_list" "distinct topk_list" by (simp_all add: list_defs)
    then show ?thesis
      by (simp add: dtype_tree_def exec_level exec_quant_types[where env = env and q = q, OF assms] quant_types_of_def) blast
  qed
  let ?xs = "zip torch_dtype_list dtype_list"
  have tree: "dispatch_tree tensor leaf
      = Chain (map (\<lambda>x. ((tensor @ ''.dtype()'', fst x), Chain (dtype_tree leaf (snd x)))) ?xs)"
    by (simp add: dispatch_tree_def case_prod_unfold)
  have dist: "distinct (map fst ?xs)" by (simp add: list_defs)
  show ?thesis
  proof (cases "map_of ?xs (env (tensor @ ''.dtype()''))")
    case None
    then have "env (tensor @ ''.dtype()'') \<notin> fst ` set ?xs" by (simp add: map_of_eq_None_iff)
    then show ?thesis by (simp add: tree None exec_chain_miss)
  next
    case (Some d)
    then have "(env (tensor @ ''.dtype()''), d) \<in> set ?xs" by (rule map_of_SomeD)
    from exec_chain_hit[OF dist this] show ?thesis by (simp add: tree Some inside)
  qed
qed

lemma set_kernels:
  "(d, b, g, t, q) \<in> set kernels \<longleftrightarrow> d \<in> set dtype_list \<and> b \<in> set bit_list \<and> g \<in> set group_size_list
     \<and> t \<in> set topk_list \<and> q \<in> set quant_type_list \<and> (q = ''Linear'' \<or> b = ''4'')"
  by (simp add: kernels_def quant_types_of_def torch_dtype_list_def dtype_list_def image_iff) blast

lemma length_kernels: "length kernels = 162"
  by (simp add: kernels_def list_defs quant_types_of_def)

definition dtype_to_str :: "string \<Rightarrow> string" where
  "dtype_to_str dtype =
     (if dtype = ''__half'' then ''fp16''
      else if dtype = ''__nv_bfloat16'' then ''bf16''
      else if dtype = ''float'' then ''fp32''
      else ''None'')"

lemma kernel_part_lengths:
  "d \<in> set dtype_list \<Longrightarrow> length (dtype_to_str d) = 4" "b \<in> set bit_list \<Longrightarrow> length b = 1"
  "g \<in> set group_size_list \<Longrightarrow> length g = 2" "t \<in> set topk_list \<Longrightarrow> length t = 1"
  by (auto simp: list_defs dtype_to_str_def)

lemma dtype_to_str_inj: "inj_on dtype_to_str (set dtype_list)"
  by (auto simp: inj_on_def dtype_list_def dtype_to_str_def)

lemma kernels_product:
  "kernels = filter (\<lambda>(d, b, g, t, q). q = ''Linear'' \<or> b = ''4'')
     (List.product dtype_list (List.product bit_list (List.product group_size_list (List.product topk_list quant_type_list))))"
  by code_simp

lemma distinct_kernels: "distinct kernels"
  unfolding kernels_product
  by (intro distinct_filter distinct_product) (simp_all add: list_defs)

end
