(* ===== verification/Gen_Quant.thy ===== *)
theory Gen_Quant
  imports Gen_Dispatch
begin

text \<open>
  \<open>csrc/quantization/gen_code_quant.py\<close>: the script that writes \<open>gen_quant_api.cu\<close>.  The texts
  are the script's, line by line; the loops are those of \<open>Gen_Dispatch\<close>.  The result of
  \<open>gen_quant\<close> is the text written to the file.
\<close>

section \<open>The texts\<close>

definition quant_headers :: string where
  \<open>quant_headers = text_of [
   ''#include <cuda.h>'',
   ''#include <cuda_runtime.h>'',
   ''#include <cuda_bf16.h>'',
   ''#include <cuda_fp16.h>'',
   ''#include <curand_kernel.h>'',
   ''#include <torch/torch.h>'',
   ''#include <torch/extension.h>'',
   ''#include <THC/THCAtomics.cuh>'',
   ''#include <ATen/cuda/CUDAGeneratorImpl.h>'',
   ''#include <c10/cuda/CUDAGuard.h>'',
   ''#include <c10/cuda/CUDAException.h>'',
   '''',
   ''#include "quant_api.cuh"'',
   ''#include "quant_kernel.cuh"'',
   ''#include "quant_kernel_fp32.cuh"'',
   '''',
   ''#define QUANT_SHAREDMEM_SIZE(group_size, threads_per_group, topk) (2*((128 / threads_per_group) * group_size))'',
   ''const std::pair<uint64_t, uint64_t> default_rng_engine_inputs = std::make_pair(0, 0);'',
   '''',
   ''std::pair<uint64_t, uint64_t> get_rng_seeds(int64_t increment) {'',
   ''    auto gen = at::check_generator<at::CUDAGeneratorImpl>(at::cuda::detail::getDefaultCUDAGenerator());'',
   ''    std::pair<uint64_t, uint64_t> rng_engine_inputs;'',
   ''    {'',
   ''        std::lock_guard<std::mutex> lock(gen->mutex_);'',
   ''        rng_engine_inputs = gen->philox_engine_inputs(increment);'',
   ''    }'',
   ''    return rng_engine_inputs;'',
   ''}'',
   '''',
   '''']\<close>

definition quant_template_lines :: "string list" where
  \<open>quant_template_lines = [
   '''',
   ''template __global__ void quant_kernel<{dtype}, {group_size}, {topk}, {stochastic}, {threads_per_group}, {bit}, QuantType::{quant_type}, true>(uint16_t* input, uint16_t* output, std::pair<uint64_t, uint64_t> seed, int64_t input_len);'',
   ''template __global__ void quant_kernel<{dtype}, {group_size}, {topk}, {stochastic}, {threads_per_group}, {bit}, QuantType::{quant_type}, false>(uint16_t* input, uint16_t* output, std::pair<uint64_t, uint64_t> seed, int64_t input_len);'',
   ''template __global__ void quant_kernel_compact<{dtype}, {group_size}, {topk}, {stochastic}, {threads_per_group}, {bit}, QuantType::{quant_type}, true>(uint16_t* input, uint16_t* output, std::pair<uint64_t, uint64_t> seed, int64_t input_len);'',
   ''template __global__ void quant_kernel_compact<{dtype}, {group_size}, {topk}, {stochastic}, {threads_per_group}, {bit}, QuantType::{quant_type}, false>(uint16_t* input, uint16_t* output, std::pair<uint64_t, uint64_t> seed, int64_t input_len);'',
   ''void {func_name}(torch::Tensor input, torch::Tensor output, bool compact = false) {{'',
   ''    TORCH_CHECK(input.numel() % {group_size} == 0, "input numel should be multiple of group_size");'',
   ''    c10::cuda::CUDAGuard device_guard(input.device());'',
   ''    int64_t num_blocks = (input.numel() + {group_size} * 128 - 1) / ({group_size} * 128);'',
   ''    cudaStream_t stream = get_current_cuda_stream();'',
   ''    {get_rng_engine_inputs}'',
   ''    if (input.numel() % (128 * {group_size}) == 0) {{'',
   ''        if (!compact)'',
   ''            quant_kernel<{dtype}, {group_size}, {topk}, {stochastic}, {threads_per_group}, {bit}, QuantType::{quant_type}, true> <<<num_blocks, 128, QUANT_SHAREDMEM_SIZE({group_size}, {threads_per_group}, {topk}), stream>>> ('',
   ''                (uint16_t*)input.data_ptr(),'',
   ''                (uint16_t*)output.data_ptr(),'',
   ''                rng_engine_inputs,'',
   ''                0'',
   ''            );'',
   ''        else'',
   ''            quant_kernel_compact<{dtype}, {group_size}, {topk}, {stochastic}, {threads_per_group}, {bit}, QuantType::{quant_type}, true> <<<num_blocks, 128, QUANT_SHAREDMEM_SIZE({group_size}, {threads_per_group}, {topk}), stream>>> ('',
   ''                (uint16_t*)input.data_ptr(),'',
   ''                (uint16_t*)output.data_ptr(),'',
   ''                rng_engine_inputs,'',
   ''                0'',
   ''            );'',
   ''    }} else {{'',
   ''        if (!compact)'',
   ''            quant_kernel<{dtype}, {group_size}, {topk}, {stochastic}, {threads_per_group}, {bit}, QuantType::{quant_type}, false> <<<num_blocks, 128, QUANT_SHAREDMEM_SIZE({group_size}, {threads_per_group}, {topk}), stream>>> ('',
   ''                (uint16_t*)input.data_ptr(),'',
   ''                (uint16_t*)output.data_ptr(),'',
   ''                rng_engine_inputs,'',
   ''                input.numel()'',
   ''            );'',
   ''        else'',
   ''            quant_kernel_compact<{dtype}, {group_size}, {topk}, {stochastic}, {threads_per_group}, {bit}, QuantType::{quant_type}, false> <<<num_blocks, 128, QUANT_SHAREDMEM_SIZE({group_size}, {threads_per_group}, {topk}), stream>>> ('',
   ''                (uint16_t*)input.data_ptr(),'',
   ''                (uint16_t*)output.data_ptr(),'',
   ''                rng_engine_inputs,'',
   ''                input.numel()'',
   ''            );'',
   ''    }}'',
   ''    C10_CUDA_KERNEL_LAUNCH_CHECK();'',
   ''}}'',
   '''',
   '''']\<close>

definition quant_template_fp32_lines :: "string list" where
  \<open>quant_template_fp32_lines = [
   '''',
   ''template __global__ void quant_kernel_fp32<{group_size}, {topk}, {stochastic}, {threads_per_group}, {bit}, QuantType::{quant_type}, true>(uint32_t* input, uint32_t* output, std::pair<uint64_t, uint64_t> seed, int64_t input_len);'',
   ''template __global__ void quant_kernel_fp32<{group_size}, {topk}, {stochastic}, {threads_per_group}, {bit}, QuantType::{quant_type}, false>(uint32_t* input, uint32_t* output, std::pair<uint64_t, uint64_t> seed, int64_t input_len);'',
   ''template __global__ void quant_kernel_fp32_compact<{group_size}, {topk}, {stochastic}, {threads_per_group}, {bit}, QuantType::{quant_type}, true>(uint32_t* input, uint32_t* output, std::pair<uint64_t, uint64_t> seed, int64_t input_len);'',
   ''template __global__ void quant_kernel_fp32_compact<{group_size}, {topk}, {stochastic}, {threads_per_group}, {bit}, QuantType::{quant_type}, false>(uint32_t* input, uint32_t* output, std::pair<uint64_t, uint64_t> seed, int64_t input_len);'',
   ''void {func_name}(torch::Tensor input, torch::Tensor output, bool compact = false) {{'',
   ''    TORCH_CHECK(input.numel() % {group_size} == 0, "input numel should be multiple of group_size");'',
   ''    c10::cuda::CUDAGuard device_guard(input.device());'',
   ''    int64_t num_blocks = (input.numel() + {group_size} * 128 - 1) / ({group_size} * 128);'',
   ''    cudaStream_t stream = get_current_cuda_stream();'',
   ''    {get_rng_engine_inputs}'',
   ''    if (input.numel() % (128 * {group_size}) == 0) {{'',
   ''        if (!compact)'',
   ''            quant_kernel_fp32<{group_size}, {topk}, {stochastic}, {threads_per_group}, {bit}, QuantType::{quant_type}, true> <<<num_blocks, 128, 2 * QUANT_SHAREDMEM_SIZE({group_size}, {threads_per_group}, {topk}), stream>>> ('',
   ''                (uint32_t*)input.data_ptr(),'',
   ''                (uint32_t*)output.data_ptr(),'',
   ''                rng_engine_inputs,'',
   ''                0'',
   ''            );'',
   ''        else'',
   ''            quant_kernel_fp32_compact<{group_size}, {topk}, {stochastic}, {threads_per_group}, {bit}, QuantType::{quant_type}, true> <<<num_blocks, 128, 2 * QUANT_SHAREDMEM_SIZE({group_size}, {threads_per_group}, {topk}), stream>>> ('',
   ''                (uint32_t*)input.data_ptr(),'',
   ''                (uint32_t*)output.data_ptr(),'',
   ''                rng_engine_inputs,'',
   ''                0'',
   ''            );'',
   '''',
   ''    }} else {{'',
   ''        if (!compact)'',
   ''            quant_kernel_fp32<{group_size}, {topk}, {stochastic}, {threads_per_group}, {bit}, QuantType::{quant_type}, false> <<<num_blocks, 128, 2 * QUANT_SHAREDMEM_SIZE({group_size}, {threads_per_group}, {topk}), stream>>> ('',
   ''                (uint32_t*)input.data_ptr(),'',
   ''                (uint32_t*)output.data_ptr(),'',
   ''                rng_engine_inputs,'',
   ''                input.numel()'',
   ''            );'',
   ''        else '',
   ''            quant_kernel_fp32_compact<{group_size}, {topk}, {stochastic}, {threads_per_group}, {bit}, QuantType::{quant_type}, false> <<<num_blocks, 128, 2 * QUANT_SHAREDMEM_SIZE({group_size}, {threads_per_group}, {topk}), stream>>> ('',
   ''                (uint32_t*)input.data_ptr(),'',
   ''                (uint32_t*)output.data_ptr(),'',
   ''                rng_engine_inputs,'',
   ''                input.numel()'',
   ''            );'',
   ''    }}'',
   ''    C10_CUDA_KERNEL_LAUNCH_CHECK();'',
   ''}}'',
   '''',
   '''']\<close>

definition quant_inplace_func :: string where
  \<open>quant_inplace_func = text_of [
   '''',
   ''void inplace_quantize(torch::Tensor input, torch::Tensor output, int64_t group_size, int64_t topk, bool stochastic, int64_t bit, QuantType quant_type, bool compact) {'',
   ''    TORCH_CHECK(input.numel() % group_size == 0, "input numel should be multiple of group_size");'',
   ''    int64_t num_groups = input.numel() / group_size;'',
   ''    int64_t bytes_per_group;'',
   ''    if (input.dtype() == torch::kFloat32) {'',
   ''        bytes_per_group = (group_size * bit) / 8 + 4;'',
   ''        if (topk == 1) bytes_per_group += 8;'',
   ''        else if (topk == 2) bytes_per_group += 12;'',
   ''    } else {'',
   ''        bytes_per_group = (group_size * bit) / 8 + 2;'',
   ''        if (topk == 1) bytes_per_group += 4;'',
   ''        else if (topk == 2) bytes_per_group += 6;'',
   ''    }'',
   ''    TORCH_CHECK(output.numel() == num_groups * bytes_per_group, "Output tensor must have the same number of elements as the quantized tensor");'',
   ''    TORCH_CHECK(output.dtype() == torch::kU8, "Output tensor must be of u8 precision");'',
   '''']\<close>

definition quant_func :: string where
  \<open>quant_func = text_of [
   '''',
   ''torch::Tensor quantize(torch::Tensor input, int64_t group_size, int64_t topk, bool stochastic, int64_t bit, QuantType quant_type, bool compact) {'',
   ''    auto options = torch::TensorOptions().dtype(torch::kU8).device(input.device());'',
   ''    int64_t num_groups = (input.numel() + group_size - 1) / group_size;'',
   ''    int64_t bytes_per_group;'',
   ''    if (input.dtype() == torch::kFloat32) {'',
   ''        bytes_per_group = (group_size * bit) / 8 + 4;'',
   ''        if (topk == 1) bytes_per_group += 8;'',
   ''        else if (topk == 2) bytes_per_group += 12;'',
   ''    } else {'',
   ''        bytes_per_group = (group_size * bit) / 8 + 2;'',
   ''        if (topk == 1) bytes_per_group += 4;'',
   ''        else if (topk == 2) bytes_per_group += 6;'',
   ''    }'',
   ''    torch::Tensor output = torch::empty({num_groups * bytes_per_group}, options);'',
   ''    inplace_quantize(input, output, group_size, topk, stochastic, bit, quant_type, compact);'',
   ''    return output;'',
   ''}'']\<close>

definition quant_inner_template :: "string list" where
  "quant_inner_template =
     [''if (stochastic) {{'',
      ''    {func_name_stochastic}(input, output, compact);'',
      ''    return;'',
      ''}} else {{'',
      ''    {func_name}(input, output, compact);'',
      ''    return;'',
      ''}}'']"


section \<open>The generator\<close>

definition quant_func_name ::
    "string \<Rightarrow> string \<Rightarrow> string \<Rightarrow> string \<Rightarrow> string \<Rightarrow> string \<Rightarrow> string \<Rightarrow> string" where
  "quant_func_name dtype group_size topk stochastic threads_per_group bits quant_type =
     ''quant_'' @ dtype_to_str dtype @ ''_g'' @ group_size @ ''_top'' @ topk @ ''_'' @ bits @ ''bit_'' @ quant_type
     @ (if stochastic = ''true'' then ''_stochastic'' else '''')"

definition get_rng_engine_inputs :: "string \<Rightarrow> string" where
  "get_rng_engine_inputs stochastic =
     (if stochastic = ''true'' then ''auto rng_engine_inputs = get_rng_seeds(input.numel());''
      else ''const std::pair<uint64_t, uint64_t> rng_engine_inputs = default_rng_engine_inputs;'')"

text \<open>The keyword arguments of one call of \<open>template.format\<close>.\<close>

definition quant_fields ::
    "string \<Rightarrow> string \<Rightarrow> string \<Rightarrow> string \<Rightarrow> string \<Rightarrow> string \<Rightarrow> string \<Rightarrow> (string \<times> string) list" where
  "quant_fields dtype group_size topk stochastic bits func_name quant_type =
     [(''dtype'', dtype), (''group_size'', group_size), (''topk'', topk), (''stochastic'', stochastic),
      (''threads_per_group'', ''1''), (''bit'', bits), (''func_name'', func_name),
      (''get_rng_engine_inputs'', get_rng_engine_inputs stochastic), (''quant_type'', quant_type)]"

definition quant_gen_inner :: gen_inner where
  "quant_gen_inner dtype group_size bits topk indent quant_type txt =
     (let func_name = quant_func_name dtype group_size topk ''false'' ''1'' bits quant_type;
          func_name_stochastic = quant_func_name dtype group_size topk ''true'' ''1'' bits quant_type in
      rbind (rmap (\<lambda>line. py_format line [(''func_name'', func_name), (''func_name_stochastic'', func_name_stochastic)])
               quant_inner_template) (\<lambda>s_list.
      let s = concat (map (\<lambda>line. spaces indent @ line @ [CHR 0x0A]) s_list);
          template = text_of (if dtype = ''float'' then quant_template_fp32_lines else quant_template_lines) in
      rbind (py_format template (quant_fields dtype group_size topk ''false'' bits func_name quant_type)) (\<lambda>plain.
      rbind (py_format template (quant_fields dtype group_size topk ''true'' bits func_name_stochastic quant_type))
        (\<lambda>stochastic. Inr (s, txt @ plain @ stochastic)))))"

definition gen_quant :: "string res" where
  "gen_quant =
     rbind (dtype_loop quant_gen_inner ''input''
              \<lparr>gs_txt = quant_headers, gs_inplace = quant_inplace_func, gs_indent = 4\<rparr>)
       (\<lambda>s. Inr (gs_txt s @ gs_inplace (finish_dispatch s) @ quant_func))"

section \<open>Its contract\<close>

definition quant_field_names :: "string set" where
  "quant_field_names = {''dtype'', ''group_size'', ''topk'', ''stochastic'', ''threads_per_group'', ''bit'',
     ''func_name'', ''get_rng_engine_inputs'', ''quant_type''}"

lemma quant_template_closed: "list_all (closed_from quant_field_names Plain) quant_template_lines"
  unfolding quant_template_lines_def quant_field_names_def by code_simp

lemma quant_template_fp32_closed: "list_all (closed_from quant_field_names Plain) quant_template_fp32_lines"
  unfolding quant_template_fp32_lines_def quant_field_names_def by code_simp

text \<open>The text of one kernel function: the template of its dtype, filled in.\<close>

definition quant_instance :: "string \<Rightarrow> string per_kernel" where
  "quant_instance stochastic d b g t q =
     (case py_format (text_of (if d = ''float'' then quant_template_fp32_lines else quant_template_lines))
             (quant_fields d g t stochastic b (quant_func_name d g t stochastic ''1'' b q) q) of
        Inl e \<Rightarrow> []
      | Inr s \<Rightarrow> s)"

lemma quant_template_format:
  "py_format (text_of (if d = ''float'' then quant_template_fp32_lines else quant_template_lines))
      (quant_fields d g t stochastic b (quant_func_name d g t stochastic ''1'' b q) q)
     = Inr (quant_instance stochastic d b g t q)"
proof -
  let ?t = "text_of (if d = ''float'' then quant_template_fp32_lines else quant_template_lines)"
  let ?args = "quant_fields d g t stochastic b (quant_func_name d g t stochastic ''1'' b q) q"
  have "closed_from quant_field_names Plain ?t"
    using quant_template_closed quant_template_fp32_closed by (simp add: closed_text)
  moreover have "quant_field_names \<subseteq> dom (map_of ?args)"
    by (simp add: quant_field_names_def quant_fields_def)
  ultimately obtain s where "py_format ?t ?args = Inr s"
    unfolding py_format_def by (metis closed_format)
  then show ?thesis unfolding quant_instance_def by (simp only: sum.case)
qed

definition quant_leaf :: "block per_kernel" where
  "quant_leaf d b g t q =
     If_else ''stochastic''
       (Return_call (quant_func_name d g t ''true'' ''1'' b q @ ''(input, output, compact)''))
       (Return_call (quant_func_name d g t ''false'' ''1'' b q @ ''(input, output, compact)''))"

lemma quant_inner_lines:
  "rmap (\<lambda>line. py_format line [(''func_name'', f), (''func_name_stochastic'', g)]) quant_inner_template
     = Inr [''if (stochastic) {'', ''    '' @ g @ ''(input, output, compact);'', ''    return;'', ''} else {'',
         ''    '' @ f @ ''(input, output, compact);'', ''    return;'', ''}'']"
  by (simp add: quant_inner_template_def py_format_def)

interpretation quant: kernel_generator quant_gen_inner quant_leaf
  "\<lambda>d b g t q. quant_instance ''false'' d b g t q @ quant_instance ''true'' d b g t q"
proof unfold_locales
  fix d b g t q u :: string and n :: nat
  show "quant_gen_inner d g b t n q u = Inr (render n (quant_leaf d b g t q),
      u @ quant_instance ''false'' d b g t q @ quant_instance ''true'' d b g t q)"
    unfolding quant_gen_inner_def Let_def quant_inner_lines rbind.simps quant_template_format
    by (simp add: quant_leaf_def spaces_add)
qed

section \<open>Function names\<close>

text \<open>The functions of the file in the order in which they are written.\<close>

definition quant_functions :: "((string \<times> string \<times> string \<times> string \<times> string) \<times> string) list" where
  "quant_functions = List.product kernels [''false'', ''true'']"

definition quant_name_of :: "(string \<times> string \<times> string \<times> string \<times> string) \<times> string \<Rightarrow> string" where
  "quant_name_of = (\<lambda>((d, b, g, t, q), s). quant_func_name d g t s ''1'' b q)"

definition quant_text_of :: "(string \<times> string \<times> string \<times> string \<times> string) \<times> string \<Rightarrow> string" where
  "quant_text_of = (\<lambda>((d, b, g, t, q), s). quant_instance s d b g t q)"

lemma quant_texts:
  "concat (map quant_text_of quant_functions)
     = concat (map (\<lambda>(d, b, g, t, q). quant_instance ''false'' d b g t q @ quant_instance ''true'' d b g t q) kernels)"
proof -
  have "concat (map quant_text_of (List.product xs [''false'', ''true'']))
      = concat (map (\<lambda>(d, b, g, t, q). quant_instance ''false'' d b g t q @ quant_instance ''true'' d b g t q) xs)" for xs
    by (induction xs) (auto simp: quant_text_of_def)
  then show ?thesis by (simp add: quant_functions_def)
qed

lemma quant_type_suffix:
  "q \<in> set quant_type_list \<Longrightarrow> q' \<in> set quant_type_list \<Longrightarrow> q @ ''_stochastic'' \<noteq> q'"
  by (simp add: quant_type_list_def) (elim disjE; simp)

lemma quant_end_inj:
  assumes "q \<in> set quant_type_list" and "q' \<in> set quant_type_list"
    and "q @ (if a then ''_stochastic'' else '''') = q' @ (if a' then ''_stochastic'' else '''')"
  shows "q = q' \<and> a = a'"
  using assms(3) quant_type_suffix[OF assms(1,2)] quant_type_suffix[OF assms(2,1)]
  by (cases a; cases a') simp_all

text \<open>The parts of a name are read off it: all but the last have fixed lengths.\<close>

lemma quant_name_inj: "inj_on quant_name_of (set kernels \<times> {''false'', ''true''})"
proof (rule inj_onI)
  fix x y
  assume x: "x \<in> set kernels \<times> {''false'', ''true''}" and y: "y \<in> set kernels \<times> {''false'', ''true''}"
    and eq: "quant_name_of x = quant_name_of y"
  obtain d b g t q s d' b' g' t' q' s' where xy: "x = ((d, b, g, t, q), s)" "y = ((d', b', g', t', q'), s')"
    by (metis prod.collapse)
  let ?suffix = "\<lambda>q s. q @ (if s = ''true'' then ''_stochastic'' else '''' :: string)"
  have parts: "d \<in> set dtype_list" "d' \<in> set dtype_list" "b \<in> set bit_list" "b' \<in> set bit_list"
      "g \<in> set group_size_list" "g' \<in> set group_size_list" "t \<in> set topk_list" "t' \<in> set topk_list"
      "q \<in> set quant_type_list" "q' \<in> set quant_type_list" "s = ''false'' \<or> s = ''true''" "s' = ''false'' \<or> s' = ''true''"
    using x y by (auto simp: xy set_kernels)
  note lengths = kernel_part_lengths(1)[OF parts(1)] kernel_part_lengths(1)[OF parts(2)]
    kernel_part_lengths(2)[OF parts(3)] kernel_part_lengths(2)[OF parts(4)]
    kernel_part_lengths(3)[OF parts(5)] kernel_part_lengths(3)[OF parts(6)]
    kernel_part_lengths(4)[OF parts(7)] kernel_part_lengths(4)[OF parts(8)]
  have "dtype_to_str d = dtype_to_str d' \<and> g = g' \<and> t = t' \<and> b = b' \<and> ?suffix q s = ?suffix q' s'"
    using eq by (simp add: quant_name_of_def xy quant_func_name_def lengths)
  moreover have "s = s'" if "(s = ''true'') = (s' = ''true'')"
    using parts(11,12) that by (elim disjE) simp_all
  ultimately show "x = y"
    using inj_onD[OF dtype_to_str_inj, of d d'] quant_end_inj[OF parts(9,10), of "s = ''true''" "s' = ''true''"] parts(1,2)
    by (simp add: xy)
qed

lemma quant_names_distinct: "distinct (map quant_name_of quant_functions)"
  using quant_name_inj by (simp add: distinct_map quant_functions_def distinct_product distinct_kernels)

lemma quant_definition_line:
  "\<exists>before after. quant_text_of ((d, b, g, t, q), s) = before
     @ ''void '' @ quant_name_of ((d, b, g, t, q), s)
     @ ''(torch::Tensor input, torch::Tensor output, bool compact = false) {'' @ [CHR 0x0A] @ after"
proof -
  let ?ls = "if d = ''float'' then quant_template_fp32_lines else quant_template_lines"
  let ?l = "''void {func_name}(torch::Tensor input, torch::Tensor output, bool compact = false) {{''"
  let ?args = "quant_fields d g t s b (quant_func_name d g t s ''1'' b q) q"
  have "list_all (closed_from quant_field_names Plain) ?ls"
    using quant_template_closed quant_template_fp32_closed by simp
  moreover have "quant_field_names \<subseteq> dom (map_of ?args)"
    by (simp add: quant_field_names_def quant_fields_def)
  moreover have "?l \<in> set ?ls"
    by (simp add: quant_template_lines_def quant_template_fp32_lines_def)
  moreover have "py_format ?l ?args = Inr (''void '' @ quant_func_name d g t s ''1'' b q
      @ ''(torch::Tensor input, torch::Tensor output, bool compact = false) {'')"
    by (simp add: py_format_def quant_fields_def)
  ultimately have "\<exists>before after. quant_instance s d b g t q = before @ (''void '' @ quant_func_name d g t s ''1'' b q
      @ ''(torch::Tensor input, torch::Tensor output, bool compact = false) {'') @ [CHR 0x0A] @ after"
    by (rule format_line[OF _ _ quant_template_format])
  then show ?thesis by (simp add: quant_text_of_def quant_name_of_def)
qed

section \<open>Properties\<close>

lemma gen_quant_text:
  "gen_quant = Inr (quant_headers @ concat (map quant_text_of quant_functions) @ quant_inplace_func
     @ render 4 (dispatch_tree ''input'' quant_leaf)
     @ ''    assert(false);'' @ [CHR 0x0A] @ ''}'' @ [CHR 0x0A] @ quant_func)"
  by (simp add: gen_quant_def quant.dtype_loop_adds finish_dispatch_def emit_def Let_def dispatch_tree_def
      quant_texts spaces_def numeral_eq_Suc)

text \<open>C36: the quantiser generator succeeds, and the file it writes is the headers, the 324 kernel
  functions, the dispatcher, whose body is one well-nested conditional followed by an assertion,
  and the allocating wrapper.  A call of that dispatcher reaches a kernel exactly for the three
  dtypes, 4 or 8 bits, group sizes 16, 32 and 64, top-k up to 2 and, at 8 bits, the linear type
  only; the function it reaches is the one of its arguments.  Otherwise it falls through to the
  assertion.\<close>

theorem quantize_dispatch_exact:
  assumes "env ''quant_type'' = ''QuantType::'' @ q"
  shows "gen_quant = Inr (quant_headers @ concat (map quant_text_of quant_functions) @ quant_inplace_func
       @ render 4 (dispatch_tree ''input'' quant_leaf)
       @ ''    assert(false);'' @ [CHR 0x0A] @ ''}'' @ [CHR 0x0A] @ quant_func)
     \<and> length quant_functions = 324
     \<and> exec env (dispatch_tree ''input'' quant_leaf) =
       (case map_of (zip torch_dtype_list dtype_list) (env ''input.dtype()'') of
          None \<Rightarrow> None
        | Some d \<Rightarrow>
            if env ''bit'' \<in> set bit_list \<and> env ''group_size'' \<in> set group_size_list \<and> env ''topk'' \<in> set topk_list
               \<and> q \<in> set quant_type_list \<and> (q = ''Linear'' \<or> env ''bit'' = ''4'')
            then Some (quant_func_name d (env ''group_size'') (env ''topk'') (env ''stochastic'') ''1'' (env ''bit'') q
                   @ ''(input, output, compact)'')
            else None)"
proof (intro conjI)
  show "length quant_functions = 324"
    by (simp add: quant_functions_def length_product length_kernels)
  have "exec env (quant_leaf d b g t q)
      = Some (quant_func_name d g t (env ''stochastic'') ''1'' b q @ ''(input, output, compact)'')" for d b g t
    by (simp add: quant_leaf_def quant_func_name_def)
  then show "exec env (dispatch_tree ''input'' quant_leaf) =
       (case map_of (zip torch_dtype_list dtype_list) (env ''input.dtype()'') of
          None \<Rightarrow> None
        | Some d \<Rightarrow>
            if env ''bit'' \<in> set bit_list \<and> env ''group_size'' \<in> set group_size_list \<and> env ''topk'' \<in> set topk_list
               \<and> q \<in> set quant_type_list \<and> (q = ''Linear'' \<or> env ''bit'' = ''4'')
            then Some (quant_func_name d (env ''group_size'') (env ''topk'') (env ''stochastic'') ''1'' (env ''bit'') q
                   @ ''(input, output, compact)'')
            else None)"
    using exec_dispatch_tree[where env = env and q = q and tensor = "''input''" and leaf = quant_leaf, OF assms]
    by (simp split: option.splits)
qed (rule gen_quant_text)


section \<open>Samples\<close>

definition sample_call :: "string \<Rightarrow> string" where
  "sample_call e =
     (case map_of [(''input.dtype()'', ''torch::kBFloat16''), (''bit'', ''4''), (''group_size'', ''32''), (''topk'', ''1''),
                   (''quant_type'', ''QuantType::E2M1''), (''stochastic'', ''true'')] e of
        Some v \<Rightarrow> v
      | None \<Rightarrow> [])"

theorem quantize_dispatch_exact_witness:
  "exec sample_call (dispatch_tree ''input'' quant_leaf)
     = Some ''quant_bf16_g32_top1_4bit_E2M1_stochastic(input, output, compact)''"
  using quantize_dispatch_exact[of sample_call "''E2M1''"]
  by (simp add: sample_call_def list_defs quant_func_name_def dtype_to_str_def)


end
