(* ===== verification/Gen_Dequant.thy ===== *)
theory Gen_Dequant
  imports Gen_Dispatch
begin

text \<open>
  \<open>csrc/quantization/gen_code_dequant.py\<close>: the script that writes \<open>gen_dequant_api.cu\<close>, in the
  terms of \<open>Gen_Dispatch\<close>.  Each kernel function holds the size of one group of its payload as
  a constant, which the script computes.
\<close>

section \<open>The texts\<close>

definition dequant_headers :: string where
  \<open>dequant_headers = text_of [
   ''#include <cuda.h>'',
   ''#include <cuda_runtime.h>'',
   ''#include <cuda_bf16.h>'',
   ''#include <cuda_fp16.h>'',
   ''#include <curand_kernel.h>'',
   ''#include <torch/torch.h>'',
   ''#include <torch/extension.h>'',
   ''#include <c10/cuda/CUDAGuard.h>'',
   ''#include <c10/cuda/CUDAException.h>'',
   '''',
   ''#include "dequant_api.cuh"'',
   ''#include "dequant_kernel.cuh"'',
   ''#include "dequant_kernel_fp32.cuh"'',
   ''#include "enum.cuh"'',
   '''',
   ''#define QUANT_SHAREDMEM_SIZE(group_size, threads_per_group) (2*((128 / threads_per_group) * group_size))'']\<close>

definition dequant_template_lines :: "string list" where
  \<open>dequant_template_lines = [
   '''',
   ''template __global__ void dequant_kernel<{dtype}, {group_size}, {topk}, {threads_per_group}, {bit}, ReduceOP::NONE, QuantType::{quant_type}, true>(uint16_t* input, uint16_t* output, int64_t length);'',
   ''template __global__ void dequant_kernel<{dtype}, {group_size}, {topk}, {threads_per_group}, {bit}, ReduceOP::NONE, QuantType::{quant_type}, false>(uint16_t* input, uint16_t* output, int64_t length);'',
   ''template __global__ void dequant_kernel<{dtype}, {group_size}, {topk}, {threads_per_group}, {bit}, ReduceOP::SUM, QuantType::{quant_type}, true>(uint16_t* input, uint16_t* output, int64_t length);'',
   ''template __global__ void dequant_kernel<{dtype}, {group_size}, {topk}, {threads_per_group}, {bit}, ReduceOP::SUM, QuantType::{quant_type}, false>(uint16_t* input, uint16_t* output, int64_t length);'',
   ''template __global__ void dequant_kernel_compact<{dtype}, {group_size}, {topk}, {threads_per_group}, {bit}, ReduceOP::NONE, QuantType::{quant_type}, true>(uint16_t* input, uint16_t* output, int64_t length);'',
   ''template __global__ void dequant_kernel_compact<{dtype}, {group_size}, {topk}, {threads_per_group}, {bit}, ReduceOP::NONE, QuantType::{quant_type}, false>(uint16_t* input, uint16_t* output, int64_t length);'',
   ''template __global__ void dequant_kernel_compact<{dtype}, {group_size}, {topk}, {threads_per_group}, {bit}, ReduceOP::SUM, QuantType::{quant_type}, true>(uint16_t* input, uint16_t* output, int64_t length);'',
   ''template __global__ void dequant_kernel_compact<{dtype}, {group_size}, {topk}, {threads_per_group}, {bit}, ReduceOP::SUM, QuantType::{quant_type}, false>(uint16_t* input, uint16_t* output, int64_t length);'',
   '''',
   ''void {func_name}(torch::Tensor input, torch::Tensor output, ReduceOP reduce_op = ReduceOP::NONE, bool compact = false) {{'',
   ''    const int64_t input_bytes_per_group = {input_bytes_per_group};'',
   ''    TORCH_CHECK(input.numel() % input_bytes_per_group == 0, "input numel should be multiple of input_bytes_per_group");'',
   ''    c10::cuda::CUDAGuard device_guard(input.device());'',
   ''    int64_t num_groups = input.numel() / input_bytes_per_group;'',
   ''    int64_t num_blocks = (num_groups + 127) / 128;'',
   ''    cudaStream_t stream = get_current_cuda_stream();'',
   ''    if (num_groups % 128 == 0) {{'',
   ''        if (reduce_op == ReduceOP::NONE)'',
   ''            if (!compact)'',
   ''                dequant_kernel<{dtype}, {group_size}, {topk}, {threads_per_group}, {bit}, ReduceOP::NONE, QuantType::{quant_type},true> <<<num_blocks, 128, QUANT_SHAREDMEM_SIZE({group_size}, {threads_per_group}), stream>>> ('',
   ''                    (uint16_t*)input.data_ptr(), '',
   ''                    (uint16_t*)output.data_ptr(),'',
   ''                    0'',
   ''                );'',
   ''            else'',
   ''                dequant_kernel_compact<{dtype}, {group_size}, {topk}, {threads_per_group}, {bit}, ReduceOP::NONE, QuantType::{quant_type},true> <<<num_blocks, 128, QUANT_SHAREDMEM_SIZE({group_size}, {threads_per_group}), stream>>> ('',
   ''                    (uint16_t*)input.data_ptr(), '',
   ''                    (uint16_t*)output.data_ptr(),'',
   ''                    0'',
   ''                );'',
   ''        else if (reduce_op == ReduceOP::SUM) '',
   ''            if (!compact)'',
   ''                dequant_kernel<{dtype}, {group_size}, {topk}, {threads_per_group}, {bit}, ReduceOP::SUM, QuantType::{quant_type}, true> <<<num_blocks, 128, QUANT_SHAREDMEM_SIZE({group_size}, {threads_per_group}), stream>>> ('',
   ''                    (uint16_t*)input.data_ptr(), '',
   ''                    (uint16_t*)output.data_ptr(),'',
   ''                    0'',
   ''                );'',
   ''            else'',
   ''                dequant_kernel_compact<{dtype}, {group_size}, {topk}, {threads_per_group}, {bit}, ReduceOP::SUM, QuantType::{quant_type}, true> <<<num_blocks, 128, QUANT_SHAREDMEM_SIZE({group_size}, {threads_per_group}), stream>>> ('',
   ''                    (uint16_t*)input.data_ptr(), '',
   ''                    (uint16_t*)output.data_ptr(),'',
   ''                    0'',
   ''                );'',
   ''    }} else {{'',
   ''        if (reduce_op == ReduceOP::NONE)'',
   ''            if (!compact)'',
   ''                dequant_kernel<{dtype}, {group_size}, {topk}, {threads_per_group}, {bit}, ReduceOP::NONE, QuantType::{quant_type}, false> <<<num_blocks, 128, QUANT_SHAREDMEM_SIZE({group_size}, {threads_per_group}), stream>>> ('',
   ''                    (uint16_t*)input.data_ptr(), '',
   ''                    (uint16_t*)output.data_ptr(),'',
   ''                    num_groups * {group_size}'',
   ''                );'',
   ''            else'',
   ''                dequant_kernel_compact<{dtype}, {group_size}, {topk}, {threads_per_group}, {bit}, ReduceOP::NONE, QuantType::{quant_type}, false> <<<num_blocks, 128, QUANT_SHAREDMEM_SIZE({group_size}, {threads_per_group}), stream>>> ('',
   ''                    (uint16_t*)input.data_ptr(), '',
   ''                    (uint16_t*)output.data_ptr(),'',
   ''                    num_groups * {group_size}'',
   ''                );'',
   ''        else if (reduce_op == ReduceOP::SUM) '',
   ''            if (!compact)'',
   ''                dequant_kernel<{dtype}, {group_size}, {topk}, {threads_per_group}, {bit}, ReduceOP::SUM, QuantType::{quant_type}, false> <<<num_blocks, 128, QUANT_SHAREDMEM_SIZE({group_size}, {threads_per_group}), stream>>> ('',
   ''                    (uint16_t*)input.data_ptr(), '',
   ''                    (uint16_t*)output.data_ptr(),'',
   ''                    num_groups * {group_size}'',
   ''                );'',
   ''            else'',
   ''                dequant_kernel_compact<{dtype}, {group_size}, {topk}, {threads_per_group}, {bit}, ReduceOP::SUM, QuantType::{quant_type}, false> <<<num_blocks, 128, QUANT_SHAREDMEM_SIZE({group_size}, {threads_per_group}), stream>>> ('',
   ''                    (uint16_t*)input.data_ptr(), '',
   ''                    (uint16_t*)output.data_ptr(),'',
   ''                    num_groups * {group_size}'',
   ''                );'',
   '''',
   ''    }}'',
   ''    C10_CUDA_KERNEL_LAUNCH_CHECK();'',
   ''}}'',
   '''',
   '''']\<close>

definition dequant_template_fp32_lines :: "string list" where
  \<open>dequant_template_fp32_lines = [
   '''',
   ''template __global__ void dequant_kernel_fp32<{group_size}, {topk}, {threads_per_group}, {bit}, ReduceOP::NONE, QuantType::{quant_type}, true>(uint32_t* input, uint32_t* output, int64_t length);'',
   ''template __global__ void dequant_kernel_fp32<{group_size}, {topk}, {threads_per_group}, {bit}, ReduceOP::NONE, QuantType::{quant_type}, false>(uint32_t* input, uint32_t* output, int64_t length);'',
   ''template __global__ void dequant_kernel_fp32<{group_size}, {topk}, {threads_per_group}, {bit}, ReduceOP::SUM, QuantType::{quant_type}, true>(uint32_t* input, uint32_t* output, int64_t length);'',
   ''template __global__ void dequant_kernel_fp32<{group_size}, {topk}, {threads_per_group}, {bit}, ReduceOP::SUM, QuantType::{quant_type}, false>(uint32_t* input, uint32_t* output, int64_t length);'',
   ''template __global__ void dequant_kernel_fp32_compact<{group_size}, {topk}, {threads_per_group}, {bit}, ReduceOP::NONE, QuantType::{quant_type}, true>(uint32_t* input, uint32_t* output, int64_t length);'',
   ''template __global__ void dequant_kernel_fp32_compact<{group_size}, {topk}, {threads_per_group}, {bit}, ReduceOP::NONE, QuantType::{quant_type}, false>(uint32_t* input, uint32_t* output, int64_t length);'',
   ''template __global__ void dequant_kernel_fp32_compact<{group_size}, {topk}, {threads_per_group}, {bit}, ReduceOP::SUM, QuantType::{quant_type}, true>(uint32_t* input, uint32_t* output, int64_t length);'',
   ''template __global__ void dequant_kernel_fp32_compact<{group_size}, {topk}, {threads_per_group}, {bit}, ReduceOP::SUM, QuantType::{quant_type}, false>(uint32_t* input, uint32_t* output, int64_t length);'',
   ''void {func_name}(torch::Tensor input, torch::Tensor output, ReduceOP reduce_op = ReduceOP::NONE, bool compact=false) {{'',
   ''    const int64_t input_bytes_per_group = {input_bytes_per_group};'',
   ''    TORCH_CHECK(input.numel() % input_bytes_per_group == 0, "input numel should be multiple of input_bytes_per_group");'',
   ''    c10::cuda::CUDAGuard device_guard(input.device());'',
   ''    int64_t num_groups = input.numel() / input_bytes_per_group;'',
   ''    int64_t num_blocks = (num_groups + 127) / 128;'',
   ''    cudaStream_t stream = get_current_cuda_stream();'',
   ''    if (num_groups % 128 == 0) {{'',
   ''        if (reduce_op == ReduceOP::NONE)'',
   ''            if (!compact)'',
   ''                dequant_kernel_fp32<{group_size}, {topk}, {threads_per_group}, {bit}, ReduceOP::NONE, QuantType::{quant_type},true> <<<num_blocks, 128, 2 * QUANT_SHAREDMEM_SIZE({group_size}, {threads_per_group}), stream>>> ('',
   ''                    (uint32_t*)input.data_ptr(), '',
   ''                    (uint32_t*)output.data_ptr(),'',
   ''                    0'',
   ''                );'',
   ''            else'',
   ''                dequant_kernel_fp32_compact<{group_size}, {topk}, {threads_per_group}, {bit}, ReduceOP::NONE, QuantType::{quant_type},true> <<<num_blocks, 128, 2 * QUANT_SHAREDMEM_SIZE({group_size}, {threads_per_group}), stream>>> ('',
   ''                    (uint32_t*)input.data_ptr(), '',
   ''                    (uint32_t*)output.data_ptr(),'',
   ''                    0'',
   ''                );'',
   ''        else if (reduce_op == ReduceOP::SUM) '',
   ''            if (!compact)'',
   ''                dequant_kernel_fp32<{group_size}, {topk}, {threads_per_group}, {bit}, ReduceOP::SUM, QuantType::{quant_type}, true> <<<num_blocks, 128, 2 * QUANT_SHAREDMEM_SIZE({group_size}, {threads_per_group}), stream>>> ('',
   ''                    (uint32_t*)input.data_ptr(), '',
   ''                    (uint32_t*)output.data_ptr(),'',
   ''                    0'',
   ''                );'',
   ''            else'',
   ''                dequant_kernel_fp32_compact<{group_size}, {topk}, {threads_per_group}, {bit}, ReduceOP::SUM, QuantType::{quant_type}, true> <<<num_blocks, 128, 2 * QUANT_SHAREDMEM_SIZE({group_size}, {threads_per_group}), stream>>> ('',
   ''                    (uint32_t*)input.data_ptr(), '',
   ''                    (uint32_t*)output.data_ptr(),'',
   ''                    0'',
   ''                );'',
   ''    }} else {{'',
   ''        if (reduce_op == ReduceOP::NONE)'',
   ''            if (!compact)'',
   ''                dequant_kernel_fp32<{group_size}, {topk}, {threads_per_group}, {bit}, ReduceOP::NONE, QuantType::{quant_type}, false> <<<num_blocks, 128, 2 * QUANT_SHAREDMEM_SIZE({group_size}, {threads_per_group}), stream>>> ('',
   ''                    (uint32_t*)input.data_ptr(), '',
   ''                    (uint32_t*)output.data_ptr(),'',
   ''                    num_groups * {group_size}'',
   ''                );'',
   ''            else'',
   ''                dequant_kernel_fp32_compact<{group_size}, {topk}, {threads_per_group}, {bit}, ReduceOP::NONE, QuantType::{quant_type}, false> <<<num_blocks, 128, 2 * QUANT_SHAREDMEM_SIZE({group_size}, {threads_per_group}), stream>>> ('',
   ''                    (uint32_t*)input.data_ptr(), '',
   ''                    (uint32_t*)output.data_ptr(),'',
   ''                    num_groups * {group_size}'',
   ''                );'',
   ''        else if (reduce_op == ReduceOP::SUM) '',
   ''            if (!compact)'',
   ''                dequant_kernel_fp32<{group_size}, {topk}, {threads_per_group}, {bit}, ReduceOP::SUM, QuantType::{quant_type}, false> <<<num_blocks, 128, 2 * QUANT_SHAREDMEM_SIZE({group_size}, {threads_per_group}), stream>>> ('',
   ''                    (uint32_t*)input.data_ptr(), '',
   ''                    (uint32_t*)output.data_ptr(),'',
   ''                    num_groups * {group_size}'',
   ''                );'',
   ''            else'',
   ''                dequant_kernel_fp32_compact<{group_size}, {topk}, {threads_per_group}, {bit}, ReduceOP::SUM, QuantType::{quant_type}, false> <<<num_blocks, 128, 2 * QUANT_SHAREDMEM_SIZE({group_size}, {threads_per_group}), stream>>> ('',
   ''                    (uint32_t*)input.data_ptr(), '',
   ''                    (uint32_t*)output.data_ptr(),'',
   ''                    num_groups * {group_size}'',
   ''                );'',
   ''    }}'',
   ''    C10_CUDA_KERNEL_LAUNCH_CHECK();'',
   ''}}'',
   '''',
   '''']\<close>

definition dequant_inplace_func :: string where
  \<open>dequant_inplace_func = text_of [
   '''',
   ''void inplace_dequantize(torch::Tensor input, torch::Tensor output, int64_t group_size, int64_t topk, int64_t bit, ReduceOP reduce_op, QuantType quant_type, bool compact) {'',
   ''    TORCH_CHECK(bit == 8 || bit == 4, "bit must be 8 or 4");'',
   ''    TORCH_CHECK(input.dtype() == torch::kUInt8, "input must be uint8");'',
   '''']\<close>

definition dequant_func :: string where
  \<open>dequant_func = text_of [
   '''',
   '''',
   ''torch::Tensor dequantize(torch::Tensor input, int64_t group_size, int64_t topk, int64_t bit, ReduceOP reduce_op, QuantType quant_type, DType dtype, bool compact) {'',
   ''    TORCH_CHECK(bit == 8 || bit == 4, "bit must be 8 or 4");'',
   ''    TORCH_CHECK(input.dtype() == torch::kUInt8, "input must be uint8");'',
   ''    auto torch_dtype = torch::kHalf;'',
   ''    if (dtype == DType::FP16)'',
   ''        torch_dtype = torch::kHalf;'',
   ''    else if (dtype == DType::BF16)'',
   ''        torch_dtype = torch::kBFloat16;'',
   ''    else if (dtype == DType::FP32)'',
   ''        torch_dtype = torch::kFloat32;'',
   '''',
   ''    auto options = torch::TensorOptions().dtype(torch_dtype).device(input.device());'',
   ''    int64_t input_bytes_per_group;'',
   ''    if (dtype == DType::FP32) {'',
   ''        input_bytes_per_group = group_size * bit / 8 + 4;'',
   ''        if (topk == 1) input_bytes_per_group += 8;'',
   ''        else if (topk == 2) input_bytes_per_group += 12;'',
   ''    } else {'',
   ''        input_bytes_per_group = group_size * bit / 8 + 2;'',
   ''        if (topk == 1) input_bytes_per_group += 4;'',
   ''        else if (topk == 2) input_bytes_per_group += 6;'',
   ''    }'',
   ''    int64_t num_groups = input.numel() / input_bytes_per_group;'',
   ''    torch::Tensor output = torch::empty({num_groups * group_size}, options);'',
   ''    inplace_dequantize(input, output, group_size, topk, bit, reduce_op, quant_type, compact);'',
   ''    return output;'',
   ''}'']\<close>

definition dequant_inner_template :: "string list" where
  "dequant_inner_template = [''{func_name}(input, output, reduce_op, compact);'', ''return;'']"

section \<open>The generator\<close>

definition dequant_func_name ::
    "string \<Rightarrow> string \<Rightarrow> string \<Rightarrow> string \<Rightarrow> string \<Rightarrow> string \<Rightarrow> string" where
  "dequant_func_name dtype group_size topk threads_per_group bits quant_type =
     ''dequant_'' @ dtype_to_str dtype @ ''_g'' @ group_size @ ''_top'' @ topk @ ''_'' @ bits @ ''bit_'' @ quant_type"

text \<open>The builtin \<open>int\<close> on a string.\<close>

definition int_of_str :: "string \<Rightarrow> int res" where
  "int_of_str s =
     (case py_int (py_strip s) of
        None \<Rightarrow> Inl (ValueError ''invalid literal for int'')
      | Some i \<Rightarrow> Inr i)"

definition input_bytes_per_group :: "string \<Rightarrow> string \<Rightarrow> string \<Rightarrow> string \<Rightarrow> int res" where
  "input_bytes_per_group dtype group_size bits topk =
     rbind (int_of_str group_size) (\<lambda>g. rbind (int_of_str bits) (\<lambda>b. rbind (int_of_str topk) (\<lambda>t.
       if dtype = ''float'' then Inr (g * b div 8 + 4 + (if t = 1 then 8 else if t = 2 then 12 else 0))
       else Inr (g * b div 8 + 2 + (if t = 1 then 4 else if t = 2 then 6 else 0)))))"

definition dequant_fields ::
    "string \<Rightarrow> string \<Rightarrow> string \<Rightarrow> string \<Rightarrow> string \<Rightarrow> int \<Rightarrow> string \<Rightarrow> (string \<times> string) list" where
  "dequant_fields dtype group_size topk bits func_name bytes quant_type =
     [(''dtype'', dtype), (''group_size'', group_size), (''topk'', topk), (''threads_per_group'', ''1''),
      (''bit'', bits), (''func_name'', func_name), (''input_bytes_per_group'', py_str_int bytes),
      (''quant_type'', quant_type)]"

definition dequant_gen_inner :: gen_inner where
  "dequant_gen_inner dtype group_size bits topk indent quant_type txt =
     (let func_name = dequant_func_name dtype group_size topk ''1'' bits quant_type in
      rbind (rmap (\<lambda>line. py_format line [(''func_name'', func_name)]) dequant_inner_template) (\<lambda>s_list.
      let s = concat (map (\<lambda>line. spaces indent @ line @ [CHR 0x0A]) s_list) in
      rbind (input_bytes_per_group dtype group_size bits topk) (\<lambda>bytes.
      let template = text_of (if dtype = ''float'' then dequant_template_fp32_lines else dequant_template_lines) in
      rbind (py_format template (dequant_fields dtype group_size topk bits func_name bytes quant_type)) (\<lambda>text.
      Inr (s, txt @ text)))))"

definition gen_dequant :: "string res" where
  "gen_dequant =
     rbind (dtype_loop dequant_gen_inner ''output''
              \<lparr>gs_txt = dequant_headers, gs_inplace = dequant_inplace_func, gs_indent = 4\<rparr>)
       (\<lambda>s. Inr (gs_txt s @ gs_inplace (finish_dispatch s) @ dequant_func))"

section \<open>Its contract\<close>

definition dequant_field_names :: "string set" where
  "dequant_field_names = {''dtype'', ''group_size'', ''topk'', ''threads_per_group'', ''bit'', ''func_name'',
     ''input_bytes_per_group'', ''quant_type''}"

lemma dequant_template_closed: "list_all (closed_from dequant_field_names Plain) dequant_template_lines"
  unfolding dequant_template_lines_def dequant_field_names_def by code_simp

lemma dequant_template_fp32_closed: "list_all (closed_from dequant_field_names Plain) dequant_template_fp32_lines"
  unfolding dequant_template_fp32_lines_def dequant_field_names_def by code_simp

text \<open>The size of a group of a kernel of the lists.\<close>

definition kernel_group_bytes :: "string \<Rightarrow> string \<Rightarrow> string \<Rightarrow> string \<Rightarrow> int" where
  "kernel_group_bytes d b g t = (case input_bytes_per_group d g b t of Inl e \<Rightarrow> 0 | Inr n \<Rightarrow> n)"

lemma int_of_str_digits:
  "int_of_str ''0'' = Inr 0" "int_of_str ''1'' = Inr 1" "int_of_str ''2'' = Inr 2" "int_of_str ''4'' = Inr 4"
  "int_of_str ''8'' = Inr 8" "int_of_str ''16'' = Inr 16" "int_of_str ''32'' = Inr 32" "int_of_str ''64'' = Inr 64"
  by code_simp+

lemma kernel_ints:
  "b \<in> set bit_list \<Longrightarrow> int_of_str b = Inr (if b = ''4'' then 4 else 8)"
  "g \<in> set group_size_list \<Longrightarrow> int_of_str g = Inr (if g = ''16'' then 16 else if g = ''32'' then 32 else 64)"
  "t \<in> set topk_list \<Longrightarrow> int_of_str t = Inr (if t = ''0'' then 0 else if t = ''1'' then 1 else 2)"
  by (auto simp: list_defs int_of_str_digits)

lemma kernel_bytes:
  "b \<in> set bit_list \<Longrightarrow> g \<in> set group_size_list \<Longrightarrow> t \<in> set topk_list \<Longrightarrow>
     input_bytes_per_group d g b t = Inr (kernel_group_bytes d b g t)"
  by (simp add: kernel_group_bytes_def input_bytes_per_group_def kernel_ints)

definition dequant_instance :: "string per_kernel" where
  "dequant_instance d b g t q =
     (case py_format (text_of (if d = ''float'' then dequant_template_fp32_lines else dequant_template_lines))
             (dequant_fields d g t b (dequant_func_name d g t ''1'' b q) (kernel_group_bytes d b g t) q) of
        Inl e \<Rightarrow> []
      | Inr s \<Rightarrow> s)"

lemma dequant_template_format:
  "py_format (text_of (if d = ''float'' then dequant_template_fp32_lines else dequant_template_lines))
      (dequant_fields d g t b (dequant_func_name d g t ''1'' b q) (kernel_group_bytes d b g t) q)
     = Inr (dequant_instance d b g t q)"
proof -
  let ?t = "text_of (if d = ''float'' then dequant_template_fp32_lines else dequant_template_lines)"
  let ?args = "dequant_fields d g t b (dequant_func_name d g t ''1'' b q) (kernel_group_bytes d b g t) q"
  have "closed_from dequant_field_names Plain ?t"
    using dequant_template_closed dequant_template_fp32_closed by (simp add: closed_text)
  moreover have "dequant_field_names \<subseteq> dom (map_of ?args)"
    by (simp add: dequant_field_names_def dequant_fields_def)
  ultimately obtain s where "py_format ?t ?args = Inr s"
    unfolding py_format_def by (metis closed_format)
  then show ?thesis unfolding dequant_instance_def by (simp only: sum.case)
qed

definition dequant_leaf :: "block per_kernel" where
  "dequant_leaf d b g t q =
     Return_call (dequant_func_name d g t ''1'' b q @ ''(input, output, reduce_op, compact)'')"

lemma dequant_inner_lines:
  "rmap (\<lambda>line. py_format line [(''func_name'', f)]) dequant_inner_template
     = Inr [f @ ''(input, output, reduce_op, compact);'', ''return;'']"
  by (simp add: dequant_inner_template_def py_format_def)

interpretation dequant: kernel_generator dequant_gen_inner dequant_leaf dequant_instance
proof unfold_locales
  fix d b g t q u :: string and n :: nat
  assume "b \<in> set bit_list" "g \<in> set group_size_list" "t \<in> set topk_list"
  then have bytes: "input_bytes_per_group d g b t = Inr (kernel_group_bytes d b g t)"
    by (rule kernel_bytes)
  show "dequant_gen_inner d g b t n q u = Inr (render n (dequant_leaf d b g t q), u @ dequant_instance d b g t q)"
    unfolding dequant_gen_inner_def Let_def dequant_inner_lines bytes rbind.simps dequant_template_format
    by (simp add: dequant_leaf_def)
qed

section \<open>Function names\<close>

type_synonym kernel = "string \<times> string \<times> string \<times> string \<times> string"

definition dequant_name_of :: "kernel \<Rightarrow> string" where
  "dequant_name_of = (\<lambda>(d, b, g, t, q). dequant_func_name d g t ''1'' b q)"

definition dequant_text_of :: "kernel \<Rightarrow> string" where
  "dequant_text_of = (\<lambda>(d, b, g, t, q). dequant_instance d b g t q)"

lemma dequant_name_inj: "inj_on dequant_name_of (set kernels)"
proof (rule inj_onI)
  fix x y
  assume x: "x \<in> set kernels" and y: "y \<in> set kernels" and eq: "dequant_name_of x = dequant_name_of y"
  obtain d b g t q d' b' g' t' q' where xy: "x = (d, b, g, t, q)" "y = (d', b', g', t', q')"
    by (metis prod.collapse)
  have parts: "d \<in> set dtype_list" "d' \<in> set dtype_list" "b \<in> set bit_list" "b' \<in> set bit_list"
      "g \<in> set group_size_list" "g' \<in> set group_size_list" "t \<in> set topk_list" "t' \<in> set topk_list"
    using x y by (auto simp: xy set_kernels)
  note lengths = kernel_part_lengths(1)[OF parts(1)] kernel_part_lengths(1)[OF parts(2)]
    kernel_part_lengths(2)[OF parts(3)] kernel_part_lengths(2)[OF parts(4)]
    kernel_part_lengths(3)[OF parts(5)] kernel_part_lengths(3)[OF parts(6)]
    kernel_part_lengths(4)[OF parts(7)] kernel_part_lengths(4)[OF parts(8)]
  have "dtype_to_str d = dtype_to_str d' \<and> g = g' \<and> t = t' \<and> b = b' \<and> q = q'"
    using eq by (simp add: dequant_name_of_def xy dequant_func_name_def lengths)
  then show "x = y"
    using inj_onD[OF dtype_to_str_inj, of d d'] parts(1,2) by (simp add: xy)
qed

text \<open>The lines of a kernel's text that define the function and check its payload.\<close>

lemma dequant_lines:
  defines "text_has \<equiv> \<lambda>text line. \<exists>before after. text = before @ line @ [CHR 0x0A] @ after"
  shows "text_has (dequant_instance d b g t q)
       (''    const int64_t input_bytes_per_group = '' @ py_str_int (kernel_group_bytes d b g t) @ '';'')"
    and "(\<exists>tail. text_has (dequant_instance d b g t q) (''void '' @ dequant_func_name d g t ''1'' b q @ ''('' @ tail))"
proof -
  let ?ls = "if d = ''float'' then dequant_template_fp32_lines else dequant_template_lines"
  let ?args = "dequant_fields d g t b (dequant_func_name d g t ''1'' b q) (kernel_group_bytes d b g t) q"
  have closed: "list_all (closed_from dequant_field_names Plain) ?ls"
    using dequant_template_closed dequant_template_fp32_closed by simp
  have args: "dequant_field_names \<subseteq> dom (map_of ?args)"
    by (simp add: dequant_field_names_def dequant_fields_def)
  note line = format_line[OF closed args dequant_template_format]
  have "''    const int64_t input_bytes_per_group = {input_bytes_per_group};'' \<in> set ?ls"
    by (simp add: dequant_template_lines_def dequant_template_fp32_lines_def)
  moreover have "py_format ''    const int64_t input_bytes_per_group = {input_bytes_per_group};'' ?args
      = Inr (''    const int64_t input_bytes_per_group = '' @ py_str_int (kernel_group_bytes d b g t) @ '';'')"
    by (simp add: py_format_def dequant_fields_def)
  ultimately show "text_has (dequant_instance d b g t q)
       (''    const int64_t input_bytes_per_group = '' @ py_str_int (kernel_group_bytes d b g t) @ '';'')"
    unfolding text_has_def by (rule line)
  let ?l = "''void {func_name}(torch::Tensor input, torch::Tensor output, ReduceOP reduce_op = ReduceOP::NONE, bool compact''
      @ (if d = ''float'' then ''=false) {{'' else '' = false) {{'')"
  let ?tail = "''torch::Tensor input, torch::Tensor output, ReduceOP reduce_op = ReduceOP::NONE, bool compact''
      @ (if d = ''float'' then ''=false) {'' else '' = false) {'')"
  have "?l \<in> set ?ls"
    by (simp add: dequant_template_lines_def dequant_template_fp32_lines_def)
  moreover have "py_format ?l ?args = Inr (''void '' @ dequant_func_name d g t ''1'' b q @ ''('' @ ?tail)"
    by (simp add: py_format_def dequant_fields_def)
  ultimately have "text_has (dequant_instance d b g t q) (''void '' @ dequant_func_name d g t ''1'' b q @ ''('' @ ?tail)"
    unfolding text_has_def by (rule line)
  then show "\<exists>tail. text_has (dequant_instance d b g t q) (''void '' @ dequant_func_name d g t ''1'' b q @ ''('' @ tail)"
    by (rule exI)
qed

section \<open>Properties\<close>

lemma exec_dequant_leaf:
  "exec env (dequant_leaf d b g t q) = Some (dequant_func_name d g t ''1'' b q @ ''(input, output, reduce_op, compact)'')"
  by (simp add: dequant_leaf_def)

lemma gen_dequant_text:
  "gen_dequant = Inr (dequant_headers @ concat (map dequant_text_of kernels) @ dequant_inplace_func
     @ render 4 (dispatch_tree ''output'' dequant_leaf)
     @ ''    assert(false);'' @ [CHR 0x0A] @ ''}'' @ [CHR 0x0A] @ dequant_func)"
  by (simp add: gen_dequant_def dequant.dtype_loop_adds finish_dispatch_def emit_def Let_def dispatch_tree_def
      dequant_text_of_def spaces_def numeral_eq_Suc)

text \<open>C38: the dequantiser generator succeeds; the file it writes is the headers, the text of the 162
  kernels, pairwise different in name, the dispatcher, one well-nested conditional followed by
  an assertion, and the allocating wrapper; a call of the dispatcher reaches the kernel of its
  arguments for exactly the same combinations as the quantiser's, and falls through to the
  assertion for all others.\<close>

theorem dequantize_dispatch_exact:
  assumes "env ''quant_type'' = ''QuantType::'' @ q"
  shows "gen_dequant = Inr (dequant_headers @ concat (map dequant_text_of kernels) @ dequant_inplace_func
       @ render 4 (dispatch_tree ''output'' dequant_leaf)
       @ ''    assert(false);'' @ [CHR 0x0A] @ ''}'' @ [CHR 0x0A] @ dequant_func)
     \<and> length kernels = 162 \<and> distinct (map dequant_name_of kernels)
     \<and> exec env (dispatch_tree ''output'' dequant_leaf) =
       (case map_of (zip torch_dtype_list dtype_list) (env ''output.dtype()'') of
          None \<Rightarrow> None
        | Some d \<Rightarrow>
            if env ''bit'' \<in> set bit_list \<and> env ''group_size'' \<in> set group_size_list \<and> env ''topk'' \<in> set topk_list
               \<and> q \<in> set quant_type_list \<and> (q = ''Linear'' \<or> env ''bit'' = ''4'')
            then Some (dequant_name_of (d, env ''bit'', env ''group_size'', env ''topk'', q)
                   @ ''(input, output, reduce_op, compact)'')
            else None)"
proof (intro conjI)
  show "distinct (map dequant_name_of kernels)"
    using dequant_name_inj by (simp add: distinct_map distinct_kernels)
  show "exec env (dispatch_tree ''output'' dequant_leaf) =
       (case map_of (zip torch_dtype_list dtype_list) (env ''output.dtype()'') of
          None \<Rightarrow> None
        | Some d \<Rightarrow>
            if env ''bit'' \<in> set bit_list \<and> env ''group_size'' \<in> set group_size_list \<and> env ''topk'' \<in> set topk_list
               \<and> q \<in> set quant_type_list \<and> (q = ''Linear'' \<or> env ''bit'' = ''4'')
            then Some (dequant_name_of (d, env ''bit'', env ''group_size'', env ''topk'', q)
                   @ ''(input, output, reduce_op, compact)'')
            else None)"
    using exec_dispatch_tree[where env = env and q = q and tensor = "''output''" and leaf = dequant_leaf, OF assms]
    by (simp add: exec_dequant_leaf dequant_name_of_def split: option.splits)
qed (rule gen_dequant_text length_kernels)+

definition sample_dequant_call :: "string \<Rightarrow> string" where
  "sample_dequant_call e =
     (case map_of [(''output.dtype()'', ''torch::kFloat32''), (''bit'', ''8''), (''group_size'', ''64''), (''topk'', ''0''),
                   (''quant_type'', ''QuantType::Normal'')] e of
        Some v \<Rightarrow> v
      | None \<Rightarrow> [])"

text \<open>Eight bits, normal quantisation: no branch.\<close>

theorem dequantize_dispatch_exact_witness:
  "exec sample_dequant_call (dispatch_tree ''output'' dequant_leaf) = None"
  using dequantize_dispatch_exact[of sample_dequant_call "''Normal''"]
  by (simp add: sample_dequant_call_def list_defs)

end
