(* ===== verification/Gen_Codec.thy ===== *)
theory Gen_Codec
  imports Gen_Quant Gen_Dequant Codec
begin

text \<open>
  The codec facade of \<open>codec.py\<close> against the C++ that the two generators write: which kernel
  a call of \<open>quantize_into\<close> or \<open>dequantize_into\<close> reaches, and whether the payload whose size
  \<open>payload_nbytes\<close> computes passes the kernel's own check of it.
\<close>

definition torch_dtype_text :: "data_type \<Rightarrow> string" where
  "torch_dtype_text d =
     (case d of FP16 \<Rightarrow> ''torch::kHalf'' | BF16 \<Rightarrow> ''torch::kBFloat16'' | FP32 \<Rightarrow> ''torch::kFloat32'')"

definition kernel_dtype :: "data_type \<Rightarrow> string" where
  "kernel_dtype d = (case d of FP16 \<Rightarrow> ''__half'' | BF16 \<Rightarrow> ''__nv_bfloat16'' | FP32 \<Rightarrow> ''float'')"

text \<open>What the arguments of a native call are, on tensors of a dtype: the facade always passes
  top-k 0 and no stochastic rounding.\<close>

definition native_call :: "string \<Rightarrow> codec_args \<Rightarrow> data_type \<Rightarrow> string \<Rightarrow> string" where
  "native_call tensor args d e =
     (if e = tensor @ ''.dtype()'' then torch_dtype_text d
      else if e = ''group_size'' then py_str_int (ca_group_size args)
      else if e = ''bit'' then py_str_int (ca_bit args)
      else if e = ''topk'' then ''0''
      else if e = ''stochastic'' then ''false''
      else if e = ''quant_type'' then ''QuantType::'' @ ca_quant_type args
      else [])"

lemma py_str_wire:
  assumes "valid_wire w"
  shows "py_str_int (qw_bit w) = (if qw_bit w = 4 then ''4'' else ''8'')"
    and "py_str_int (qw_group_size w)
      = (if qw_group_size w = 16 then ''16'' else if qw_group_size w = 32 then ''32'' else ''64'')"
proof -
  have "py_str_int 4 = ''4''" "py_str_int 8 = ''8''" "py_str_int 16 = ''16''" "py_str_int 32 = ''32''" "py_str_int 64 = ''64''"
    by code_simp+
  then show "py_str_int (qw_bit w) = (if qw_bit w = 4 then ''4'' else ''8'')"
    and "py_str_int (qw_group_size w)
      = (if qw_group_size w = 16 then ''16'' else if qw_group_size w = 32 then ''32'' else ''64'')"
    using assms by (auto simp: valid_wire_def)
qed

lemma native_call_args:
  assumes "valid_wire w"
  shows "native_call ''input'' (wire_args w q) d ''quant_type'' = ''QuantType::'' @ q"
    and "native_call ''output'' (wire_args w q) d ''quant_type'' = ''QuantType::'' @ q"
    and "map_of (zip torch_dtype_list dtype_list) (native_call ''input'' (wire_args w q) d ''input.dtype()'')
      = Some (kernel_dtype d)"
    and "map_of (zip torch_dtype_list dtype_list) (native_call ''output'' (wire_args w q) d ''output.dtype()'')
      = Some (kernel_dtype d)"
    and "native_call ''input'' (wire_args w q) d ''bit'' = py_str_int (qw_bit w)"
    and "native_call ''output'' (wire_args w q) d ''bit'' = py_str_int (qw_bit w)"
    and "native_call ''input'' (wire_args w q) d ''group_size'' = py_str_int (qw_group_size w)"
    and "native_call ''output'' (wire_args w q) d ''group_size'' = py_str_int (qw_group_size w)"
    and "native_call ''input'' (wire_args w q) d ''topk'' = ''0''"
    and "native_call ''output'' (wire_args w q) d ''topk'' = ''0''"
    and "native_call ''input'' (wire_args w q) d ''stochastic'' = ''false''"
  by (simp_all add: native_call_def wire_args_def torch_dtype_list_def dtype_list_def torch_dtype_text_def
      kernel_dtype_def split: data_type.splits)

lemma wire_in_lists:
  assumes "valid_wire w" and "quant_type_names (qw_quant_type w) = Some q"
  shows "py_str_int (qw_bit w) \<in> set bit_list" and "py_str_int (qw_group_size w) \<in> set group_size_list"
    and "q \<in> set quant_type_list" and "py_str_int (qw_bit w) = ''4'' \<longleftrightarrow> qw_bit w = 4"
  using assms(2)
  by (auto simp: py_str_wire[OF assms(1)] list_defs quant_type_names_def split: if_splits)

lemma wire_group_bytes:
  assumes "valid_wire w"
  shows "kernel_group_bytes (kernel_dtype d) (py_str_int (qw_bit w)) (py_str_int (qw_group_size w)) ''0''
     = group_nbytes d w"
  using assms
  by (auto simp: kernel_group_bytes_def input_bytes_per_group_def py_str_wire[OF assms] int_of_str_digits
      kernel_dtype_def group_nbytes_def dtype_bytes_def valid_wire_def split: data_type.splits)

text \<open>C35: a valid wire whose quantisation type the codec knows makes both native calls reach a kernel
  exactly when it is a 4-bit or a linear wire; for the others both fall through to the
  assertion.  Where it is reached, the payload that \<open>payload_nbytes\<close> sizes is a whole number of
  the groups of that kernel, as its text checks, and one group per group of elements.\<close>

theorem codec_kernels_reached:
  assumes w: "valid_wire w" and q: "quant_type_names (qw_quant_type w) = Some q"
    and n: "0 \<le> n" "n < 2 ^ 53"
  shows "exec (native_call ''input'' (wire_args w q) d) (dispatch_tree ''input'' quant_leaf)
       = (if qw_bit w = 4 \<or> q = ''Linear''
          then Some (quant_func_name (kernel_dtype d) (py_str_int (qw_group_size w)) ''0'' ''false'' ''1''
                 (py_str_int (qw_bit w)) q @ ''(input, output, compact)'') else None)
     \<and> exec (native_call ''output'' (wire_args w q) d) (dispatch_tree ''output'' dequant_leaf)
       = (if qw_bit w = 4 \<or> q = ''Linear''
          then Some (dequant_name_of (kernel_dtype d, py_str_int (qw_bit w), py_str_int (qw_group_size w), ''0'', q)
                 @ ''(input, output, reduce_op, compact)'') else None)
     \<and> (\<exists>p. payload_nbytes (PInt n) (PDataType d) (Some w) = Inr p
          \<and> (let g = kernel_group_bytes (kernel_dtype d) (py_str_int (qw_bit w)) (py_str_int (qw_group_size w)) ''0''
             in p mod g = 0 \<and> p div g = group_count n w)
          \<and> (\<exists>before after.
               dequant_text_of (kernel_dtype d, py_str_int (qw_bit w), py_str_int (qw_group_size w), ''0'', q)
                 = before @ ''    const int64_t input_bytes_per_group = '' @ py_str_int (group_nbytes d w) @ '';''
                     @ [CHR 0x0A] @ after))"
proof (intro conjI)
  note args = native_call_args[OF w, of q d] and lists = wire_in_lists[OF w q]
  note quant = exec_dispatch_tree[where env = "native_call ''input'' (wire_args w q) d" and q = q
      and tensor = "''input''" and leaf = quant_leaf, OF args(1)]
  note dequant = exec_dispatch_tree[where env = "native_call ''output'' (wire_args w q) d" and q = q
      and tensor = "''output''" and leaf = dequant_leaf, OF args(2)]
  have top: "''0'' \<in> set topk_list" by (simp add: topk_list_def)
  show "exec (native_call ''input'' (wire_args w q) d) (dispatch_tree ''input'' quant_leaf)
       = (if qw_bit w = 4 \<or> q = ''Linear''
          then Some (quant_func_name (kernel_dtype d) (py_str_int (qw_group_size w)) ''0'' ''false'' ''1''
                 (py_str_int (qw_bit w)) q @ ''(input, output, compact)'') else None)"
    unfolding quant using lists top by (simp add: args quant_leaf_def disj_commute)
  show "exec (native_call ''output'' (wire_args w q) d) (dispatch_tree ''output'' dequant_leaf)
       = (if qw_bit w = 4 \<or> q = ''Linear''
          then Some (dequant_name_of (kernel_dtype d, py_str_int (qw_bit w), py_str_int (qw_group_size w), ''0'', q)
                 @ ''(input, output, reduce_op, compact)'') else None)"
    unfolding dequant using lists top by (simp add: args exec_dequant_leaf dequant_name_of_def disj_commute)
  have "0 < group_nbytes d w" using group_nbytes_bounds(1)[OF w, of d] by simp
  then show "\<exists>p. payload_nbytes (PInt n) (PDataType d) (Some w) = Inr p
      \<and> (let g = kernel_group_bytes (kernel_dtype d) (py_str_int (qw_bit w)) (py_str_int (qw_group_size w)) ''0''
         in p mod g = 0 \<and> p div g = group_count n w)
      \<and> (\<exists>before after.
           dequant_text_of (kernel_dtype d, py_str_int (qw_bit w), py_str_int (qw_group_size w), ''0'', q)
             = before @ ''    const int64_t input_bytes_per_group = '' @ py_str_int (group_nbytes d w) @ '';''
                 @ [CHR 0x0A] @ after)"
    using dequant_lines(1)[of "kernel_dtype d" "py_str_int (qw_bit w)" "py_str_int (qw_group_size w)" "''0''" q]
    by (simp add: payload_nbytes_exact[OF w n] wire_group_bytes[OF w] dequant_text_of_def)
qed

text \<open>An 8-bit normal wire: accepted by its constructor and by the codec, and no kernel.\<close>

theorem codec_kernels_reached_witness:
  "make_QuantizedWire (PInt 8) (PInt 64) (PStr ''normal'') (PBool True)
     = Inr \<lparr>qw_bit = 8, qw_group_size = 64, qw_quant_type = ''normal'', qw_compact = True\<rparr>
   \<and> exec (native_call ''output'' (wire_args \<lparr>qw_bit = 8, qw_group_size = 64, qw_quant_type = ''normal'', qw_compact = True\<rparr>
         ''Normal'') FP32) (dispatch_tree ''output'' dequant_leaf) = None"
proof -
  let ?w = "\<lparr>qw_bit = 8, qw_group_size = 64, qw_quant_type = ''normal'', qw_compact = True\<rparr>"
  have w: "valid_wire ?w" and q: "quant_type_names (qw_quant_type ?w) = Some ''Normal''"
    by (simp_all add: valid_wire_def quant_type_names_def py_strip_def py_isspace_def)
  have made: "make_QuantizedWire (PInt 8) (PInt 64) (PStr ''normal'') (PBool True) = Inr ?w"
    by (simp add: make_QuantizedWire_def py_strip_def py_isspace_def)
  show ?thesis
    using codec_kernels_reached[OF w q, of 100 FP32] by (intro conjI made) simp
qed

end
