(* ===== verification/Native_Collectives.thy ===== *)
theory Native_Collectives
  imports Work
begin

text \<open>
  \<open>backends/cuda/native_collectives.py\<close>, the events over handles of torch.distributed that it
  and \<open>p2p.py\<close> use, and the spin loop that waits for a CUDA stream.  \<open>torch.distributed\<close> is a
  parameter: an operation takes its positional and keyword arguments and the process group and
  leaves a handle, on a heap \<open>'h\<close>.
\<close>

section \<open>Handles and their events\<close>

text \<open>A handle is read through its methods; \<open>is_completed\<close> and \<open>query\<close> may be missing.\<close>

record 'h handle =
  hd_is_completed :: "(bool, 'h) action option"
  hd_query :: "(bool, 'h) action option"
  hd_wait :: "(unit, 'h) action"

definition handle_query :: "'h handle \<Rightarrow> (bool, 'h) action" where
  "handle_query hdl h = (case hd_is_completed hdl of Some query \<Rightarrow> query h | None \<Rightarrow> (Inr False, h))"

text \<open>The timeout is dropped.\<close>

definition handle_wait :: "'h handle \<Rightarrow> pyfloat option \<Rightarrow> (bool, 'h) action" where
  "handle_wait hdl timeout h = (case hd_wait hdl h of (Inl e, h) \<Rightarrow> (Inl e, h) | (Inr _, h) \<Rightarrow> (Inr True, h))"

definition handle_done :: "'h handle \<Rightarrow> (bool, 'h) action" where
  "handle_done hdl h =
     (case hd_is_completed hdl of
        Some query \<Rightarrow> query h
      | None \<Rightarrow> (case hd_query hdl of Some query \<Rightarrow> query h | None \<Rightarrow> (Inr False, h)))"

text \<open>\<open>all\<close> stops at the first handle that is not done.\<close>

fun handles_query :: "'h handle list \<Rightarrow> (bool, 'h) action" where
  "handles_query [] h = (Inr True, h)"
| "handles_query (hdl # hdls) h =
     (case handle_done hdl h of
        (Inl e, h) \<Rightarrow> (Inl e, h)
      | (Inr False, h) \<Rightarrow> (Inr False, h)
      | (Inr True, h) \<Rightarrow> handles_query hdls h)"

fun wait_each :: "'h handle list \<Rightarrow> (unit, 'h) action" where
  "wait_each [] h = (Inr (), h)"
| "wait_each (hdl # hdls) h =
     (case hd_wait hdl h of (Inl e, h) \<Rightarrow> (Inl e, h) | (Inr _, h) \<Rightarrow> wait_each hdls h)"

definition handles_wait :: "'h handle list \<Rightarrow> pyfloat option \<Rightarrow> (bool, 'h) action" where
  "handles_wait hdls timeout h = (case wait_each hdls h of (Inl e, h) \<Rightarrow> (Inl e, h) | (Inr _, h) \<Rightarrow> (Inr True, h))"

text \<open>Neither event ever reports a timeout.\<close>

lemma handle_wait_no_timeout: "fst (handle_wait hdl timeout h) \<noteq> Inr False"
  by (auto simp: handle_wait_def split: prod.splits sum.splits)

lemma handles_wait_no_timeout: "fst (handles_wait hdls timeout h) \<noteq> Inr False"
  by (auto simp: handles_wait_def split: prod.splits sum.splits)

lemma wait_each_append:
  "wait_each (xs @ ys) h = (case wait_each xs h of (Inl e, h) \<Rightarrow> (Inl e, h) | (Inr _, h) \<Rightarrow> wait_each ys h)"
  by (induction xs arbitrary: h) (auto split: prod.splits sum.splits)

text \<open>
  \<open>CudaQuantizedSender.send\<close>: an \<open>isend\<close>, which leaves the handles of metadata and payload, and
  one wait on its work.  The resources of that work are tensors, which have no \<open>release\<close>.
\<close>

definition sender_send :: "('h handle \<times> 'h handle, 'h) action \<Rightarrow> nat \<Rightarrow> (unit, 'h) action" where
  "sender_send isend n_resources h =
     (case isend h of
        (Inl e, h) \<Rightarrow> (Inl e, h)
      | (Inr (metadata_handle, payload_handle), h) \<Rightarrow>
          (case handles_wait [metadata_handle, payload_handle] None h of (outcome, h) \<Rightarrow>
           case work_wait (make_CompletionWork () None (replicate n_resources None)) outcome h of (r, w, h) \<Rightarrow> (r, h)))"

lemma release_all_none: "(\<And>r. r \<in> set rs \<Longrightarrow> r = None) \<Longrightarrow> release_all rs h = (Inr (), h)"
  by (induction rs) force+

lemma release_replicate_none: "release_all (replicate n None) h = (Inr (), h)"
  by (rule release_all_none) auto

text \<open>A send returns once both transfers have been waited for, the metadata first.\<close>

lemma sender_send_waits:
  "isend h = (Inr (metadata_handle, payload_handle), h1) \<Longrightarrow>
     sender_send isend n h = wait_each [metadata_handle, payload_handle] h1"
  by (auto simp: sender_send_def handles_wait_def work_wait_def make_CompletionWork_def run_complete_def deliver_def
      release_replicate_none Let_def split: prod.splits sum.splits)

section \<open>Waiting for a stream\<close>

text \<open>
  An event is recorded on the current stream and polled with \<open>sleep(0)\<close> in between.  \<open>fired n\<close>
  is what the \<open>n\<close>-th query answers; a stream that never gets there keeps the loop running.
\<close>

partial_function (option) poll_event :: "(nat \<Rightarrow> bool) \<Rightarrow> nat \<Rightarrow> nat option" where
  "poll_event fired n = (if fired n then Some n else poll_event fired (Suc n))"

definition wait_current_stream :: "(nat \<Rightarrow> bool) \<Rightarrow> nat option" where
  "wait_current_stream fired = poll_event fired 0"

lemma poll_event_fires: "n \<le> m \<Longrightarrow> fired m \<Longrightarrow> (\<And>k. n \<le> k \<Longrightarrow> k < m \<Longrightarrow> \<not> fired k) \<Longrightarrow> poll_event fired n = Some m"
proof (induction "m - n" arbitrary: n)
  case 0
  then show ?case by (subst poll_event.simps) auto
next
  case (Suc d)
  then have "\<not> fired n" and "poll_event fired (Suc n) = Some m"
    by (auto intro!: Suc.hyps(1))
  then show ?case by (subst poll_event.simps) simp
qed

lemma poll_event_SomeD:
  assumes "poll_event fired n = Some m"
  shows "fired m"
proof (rule poll_event.raw_induct[OF _ assms])
  fix poll :: "(nat \<Rightarrow> bool) \<Rightarrow> nat \<Rightarrow> nat option" and fired :: "nat \<Rightarrow> bool" and n m
  assume "\<And>fired n m. poll fired n = Some m \<Longrightarrow> fired m" and "(if fired n then Some n else poll fired (Suc n)) = Some m"
  then show "fired m" by (auto split: if_splits)
qed

text \<open>The wait ends, after the fewest queries, exactly when some query answers yes.\<close>

lemma wait_current_stream_exact:
  "wait_current_stream fired = (if \<exists>n. fired n then Some (LEAST n. fired n) else None)"
proof (cases "\<exists>n. fired n")
  case True
  have "poll_event fired 0 = Some (LEAST n. fired n)"
    using True by (intro poll_event_fires) (auto intro: LeastI_ex dest: not_less_Least)
  then show ?thesis using True by (simp add: wait_current_stream_def)
next
  case False
  then show ?thesis
    using poll_event_SomeD[of fired 0] by (auto simp: wait_current_stream_def) (metis not_None_eq)
qed

section \<open>The facade\<close>

datatype ('t, 'o) native_value = Tensor 't | Tensors "'t list" | Reduce_op 'o | Rank int

text \<open>An operation of torch.distributed, by name, with \<open>async_op=True\<close>.\<close>

type_synonym ('t, 'o, 'g, 'h) torch_dist =
  "string \<Rightarrow> ('t, 'o) native_value list \<Rightarrow> (string \<times> ('t, 'o) native_value) list \<Rightarrow> 'g option \<Rightarrow> ('h handle, 'h) action"

record ('t, 'o, 'g, 'h) native_collectives =
  nc_group :: "'g option"
  nc_dist :: "('t, 'o, 'g, 'h) torch_dist"
  nc_release :: "('t, 'o) native_value \<Rightarrow> (unit, 'h) action option"

text \<open>The work a submission returns, with the handle its event holds.\<close>

record ('t, 'o, 'h) native_work =
  nw_work :: "(('t, 'o) native_value option, 'h) work"
  nw_handle :: "'h handle"

definition native_submit ::
    "('t, 'o, 'g, 'h) native_collectives \<Rightarrow> string \<Rightarrow> ('t, 'o) native_value list
     \<Rightarrow> (string \<times> ('t, 'o) native_value option) list \<Rightarrow> ('t, 'o) native_value option
     \<Rightarrow> (('t, 'o, 'h) native_work, 'h) action" where
  "native_submit nc operation args kwargs result h =
     (let kwargs = [(name, v). (name, Some v) \<leftarrow> kwargs] in
      case nc_dist nc operation args kwargs (nc_group nc) h of
        (Inl e, h) \<Rightarrow> (Inl e, h)
      | (Inr handle, h) \<Rightarrow>
          (Inr \<lparr>nw_work = make_CompletionWork result None (map (nc_release nc) (args @ map snd kwargs)),
                nw_handle = handle\<rparr>, h))"

definition native_all_reduce ::
    "('t, 'o, 'g, 'h) native_collectives \<Rightarrow> 't \<Rightarrow> 'o option \<Rightarrow> (('t, 'o, 'h) native_work, 'h) action" where
  "native_all_reduce nc tensor op =
     native_submit nc ''all_reduce'' [Tensor tensor] [(''op'', map_option Reduce_op op)] (Some (Tensor tensor))"

definition native_all_gather_into_tensor ::
    "('t, 'o, 'g, 'h) native_collectives \<Rightarrow> 't \<Rightarrow> 't \<Rightarrow> (('t, 'o, 'h) native_work, 'h) action" where
  "native_all_gather_into_tensor nc output tensor =
     native_submit nc ''all_gather_into_tensor'' [Tensor output, Tensor tensor] [] (Some (Tensor output))"

definition native_reduce_scatter_tensor ::
    "('t, 'o, 'g, 'h) native_collectives \<Rightarrow> 't \<Rightarrow> 't \<Rightarrow> 'o option \<Rightarrow> (('t, 'o, 'h) native_work, 'h) action" where
  "native_reduce_scatter_tensor nc output tensor op =
     native_submit nc ''reduce_scatter_tensor'' [Tensor output, Tensor tensor] [(''op'', map_option Reduce_op op)]
       (Some (Tensor output))"

definition native_all_to_all_single ::
    "('t, 'o, 'g, 'h) native_collectives \<Rightarrow> 't \<Rightarrow> 't \<Rightarrow> (('t, 'o, 'h) native_work, 'h) action" where
  "native_all_to_all_single nc output tensor =
     native_submit nc ''all_to_all_single'' [Tensor output, Tensor tensor] [] (Some (Tensor output))"

definition native_broadcast ::
    "('t, 'o, 'g, 'h) native_collectives \<Rightarrow> 't \<Rightarrow> int \<Rightarrow> (('t, 'o, 'h) native_work, 'h) action" where
  "native_broadcast nc tensor src =
     native_submit nc ''broadcast'' [Tensor tensor] [(''src'', Some (Rank src))] (Some (Tensor tensor))"

definition native_reduce ::
    "('t, 'o, 'g, 'h) native_collectives \<Rightarrow> 't \<Rightarrow> int \<Rightarrow> 'o option \<Rightarrow> (('t, 'o, 'h) native_work, 'h) action" where
  "native_reduce nc tensor dst op =
     native_submit nc ''reduce'' [Tensor tensor] [(''dst'', Some (Rank dst)), (''op'', map_option Reduce_op op)]
       (Some (Tensor tensor))"

definition native_gather ::
    "('t, 'o, 'g, 'h) native_collectives \<Rightarrow> 't \<Rightarrow> 't list option \<Rightarrow> int \<Rightarrow> (('t, 'o, 'h) native_work, 'h) action" where
  "native_gather nc tensor gather_list dst =
     native_submit nc ''gather'' [Tensor tensor]
       [(''gather_list'', map_option Tensors gather_list), (''dst'', Some (Rank dst))] (map_option Tensors gather_list)"

definition native_scatter ::
    "('t, 'o, 'g, 'h) native_collectives \<Rightarrow> 't \<Rightarrow> 't list option \<Rightarrow> int \<Rightarrow> (('t, 'o, 'h) native_work, 'h) action" where
  "native_scatter nc tensor scatter_list src =
     native_submit nc ''scatter'' [Tensor tensor]
       [(''scatter_list'', map_option Tensors scatter_list), (''src'', Some (Rank src))] (Some (Tensor tensor))"

definition native_barrier :: "('t, 'o, 'g, 'h) native_collectives \<Rightarrow> (('t, 'o, 'h) native_work, 'h) action" where
  "native_barrier nc = native_submit nc ''barrier'' [] [] None"

text \<open>One \<open>wait\<close> of the work: its event's \<open>wait\<close>, then the work's own part.\<close>

definition native_wait ::
    "('t, 'o, 'h) native_work \<Rightarrow> pyfloat option \<Rightarrow> 'h
     \<Rightarrow> ('t, 'o) native_value option res \<times> ('t, 'o, 'h) native_work \<times> 'h" where
  "native_wait w timeout h =
     (case handle_wait (nw_handle w) timeout h of (outcome, h) \<Rightarrow>
      case work_wait (nw_work w) outcome h of (r, work, h) \<Rightarrow> (r, w\<lparr>nw_work := work\<rparr>, h))"

fun native_waits ::
    "('t, 'o, 'h) native_work \<Rightarrow> pyfloat option list \<Rightarrow> 'h \<Rightarrow> ('t, 'o) native_value option res list \<times> 'h" where
  "native_waits w [] h = ([], h)"
| "native_waits w (timeout # ts) h =
     (case native_wait w timeout h of (r, w, h) \<Rightarrow>
      case native_waits w ts h of (rs, h) \<Rightarrow> (r # rs, h))"

section \<open>What a submission does\<close>

datatype ('t, 'o) request =
    All_reduce 't "'o option"
  | All_gather_into_tensor 't 't
  | Reduce_scatter_tensor 't 't "'o option"
  | All_to_all_single 't 't
  | Broadcast 't int
  | Reduce 't int "'o option"
  | Gather 't "'t list option" int
  | Scatter 't "'t list option" int
  | Barrier

fun native_request :: "('t, 'o, 'g, 'h) native_collectives \<Rightarrow> ('t, 'o) request \<Rightarrow> (('t, 'o, 'h) native_work, 'h) action" where
  "native_request nc (All_reduce t op) = native_all_reduce nc t op"
| "native_request nc (All_gather_into_tensor out t) = native_all_gather_into_tensor nc out t"
| "native_request nc (Reduce_scatter_tensor out t op) = native_reduce_scatter_tensor nc out t op"
| "native_request nc (All_to_all_single out t) = native_all_to_all_single nc out t"
| "native_request nc (Broadcast t src) = native_broadcast nc t src"
| "native_request nc (Reduce t dst op) = native_reduce nc t dst op"
| "native_request nc (Gather t ts dst) = native_gather nc t ts dst"
| "native_request nc (Scatter t ts src) = native_scatter nc t ts src"
| "native_request nc Barrier = native_barrier nc"

text \<open>The signature of each collective in torch.distributed: name, positional and given keyword
  arguments, and the argument that holds the outcome.\<close>

fun torch_call ::
    "('t, 'o) request \<Rightarrow> string \<times> ('t, 'o) native_value list \<times> (string \<times> ('t, 'o) native_value) list
     \<times> ('t, 'o) native_value option" where
  "torch_call (All_reduce t None) = (''all_reduce'', [Tensor t], [], Some (Tensor t))"
| "torch_call (All_reduce t (Some op)) = (''all_reduce'', [Tensor t], [(''op'', Reduce_op op)], Some (Tensor t))"
| "torch_call (All_gather_into_tensor out t) = (''all_gather_into_tensor'', [Tensor out, Tensor t], [], Some (Tensor out))"
| "torch_call (Reduce_scatter_tensor out t None) = (''reduce_scatter_tensor'', [Tensor out, Tensor t], [], Some (Tensor out))"
| "torch_call (Reduce_scatter_tensor out t (Some op)) =
     (''reduce_scatter_tensor'', [Tensor out, Tensor t], [(''op'', Reduce_op op)], Some (Tensor out))"
| "torch_call (All_to_all_single out t) = (''all_to_all_single'', [Tensor out, Tensor t], [], Some (Tensor out))"
| "torch_call (Broadcast t src) = (''broadcast'', [Tensor t], [(''src'', Rank src)], Some (Tensor t))"
| "torch_call (Reduce t dst None) = (''reduce'', [Tensor t], [(''dst'', Rank dst)], Some (Tensor t))"
| "torch_call (Reduce t dst (Some op)) =
     (''reduce'', [Tensor t], [(''dst'', Rank dst), (''op'', Reduce_op op)], Some (Tensor t))"
| "torch_call (Gather t None dst) = (''gather'', [Tensor t], [(''dst'', Rank dst)], None)"
| "torch_call (Gather t (Some ts) dst) =
     (''gather'', [Tensor t], [(''gather_list'', Tensors ts), (''dst'', Rank dst)], Some (Tensors ts))"
| "torch_call (Scatter t None src) = (''scatter'', [Tensor t], [(''src'', Rank src)], Some (Tensor t))"
| "torch_call (Scatter t (Some ts) src) =
     (''scatter'', [Tensor t], [(''scatter_list'', Tensors ts), (''src'', Rank src)], Some (Tensor t))"
| "torch_call Barrier = (''barrier'', [], [], None)"

lemma native_request_call:
  assumes "torch_call req = (name, args, kwargs, result)"
  shows "native_request nc req h =
     (case nc_dist nc name args kwargs (nc_group nc) h of
        (Inl e, h) \<Rightarrow> (Inl e, h)
      | (Inr handle, h) \<Rightarrow>
          (Inr \<lparr>nw_work = make_CompletionWork result None (map (nc_release nc) (args @ map snd kwargs)),
                nw_handle = handle\<rparr>, h))"
  using assms
  by (cases req rule: torch_call.cases)
    (auto simp: native_submit_def native_all_reduce_def native_all_gather_into_tensor_def
      native_reduce_scatter_tensor_def native_all_to_all_single_def native_broadcast_def native_reduce_def
      native_gather_def native_scatter_def native_barrier_def Let_def split: prod.splits sum.splits)

text \<open>The waits of a handle itself.\<close>

fun handle_waits :: "'h handle \<Rightarrow> nat \<Rightarrow> 'h \<Rightarrow> unit res list \<times> 'h" where
  "handle_waits hdl 0 h = ([], h)"
| "handle_waits hdl (Suc n) h =
     (case hd_wait hdl h of (r, h) \<Rightarrow> case handle_waits hdl n h of (rs, h) \<Rightarrow> (r # rs, h))"

lemma native_waits_handle:
  assumes "\<And>r. r \<in> set (wk_resources w) \<Longrightarrow> r = None" and "wk_complete w = None" and "wk_error w = None"
  shows "native_waits \<lparr>nw_work = w, nw_handle = hdl\<rparr> ts h
     = (let (rs, h') = handle_waits hdl (length ts) h
        in (map (\<lambda>r. case r of Inl e \<Rightarrow> Inl e | Inr _ \<Rightarrow> Inr (wk_result w)) rs, h'))"
  using assms
proof (induction ts arbitrary: w h)
  case Nil
  then show ?case by simp
next
  case (Cons timeout ts)
  let ?done = "w\<lparr>wk_finished := True\<rparr>"
  obtain r h1 where wait: "hd_wait hdl h = (r, h1)" by fastforce
  show ?case
  proof (cases r)
    case (Inl e)
    then show ?thesis
      using Cons.IH[OF Cons.prems] wait
      by (simp add: native_wait_def handle_wait_def work_wait_def Let_def split: prod.splits)
  next
    case (Inr u)
    have "native_wait \<lparr>nw_work = w, nw_handle = hdl\<rparr> timeout h = (Inr (wk_result w), \<lparr>nw_work = ?done, nw_handle = hdl\<rparr>, h1)"
      using wait Inr Cons.prems release_all_none[of "rev (wk_resources w)" h1]
      by (cases "wk_finished w")
        (simp_all add: native_wait_def handle_wait_def work_wait_def run_complete_def deliver_def Let_def)
    moreover have "native_waits \<lparr>nw_work = ?done, nw_handle = hdl\<rparr> ts h1
        = (let (rs, h') = handle_waits hdl (length ts) h1
           in (map (\<lambda>r. case r of Inl e \<Rightarrow> Inl e | Inr _ \<Rightarrow> Inr (wk_result w)) rs, h'))"
      using Cons.IH[of ?done h1] Cons.prems by simp
    ultimately show ?thesis
      using wait Inr by (simp add: Let_def split: prod.splits)
  qed
qed

section \<open>Properties\<close>

text \<open>C39: each method of the facade makes exactly one call of torch.distributed, the one of its name
  with its positional arguments and the keyword arguments that were given; what that call raises
  is raised.  Every wait on the returned work then waits for that call's handle once more and
  returns the argument that holds the outcome, or raises what the handle raises: whatever the
  timeouts are, none is ever reported.\<close>

theorem native_request_exact:
  assumes "torch_call req = (name, args, kwargs, result)" and "\<And>v. nc_release nc v = None"
  shows "case nc_dist nc name args kwargs (nc_group nc) h of
       (Inl e, h1) \<Rightarrow> native_request nc req h = (Inl e, h1)
     | (Inr hdl, h1) \<Rightarrow>
         \<exists>w. native_request nc req h = (Inr w, h1)
           \<and> (\<forall>timeouts. native_waits w timeouts h1
                = (let (rs, h2) = handle_waits hdl (length timeouts) h1
                   in (map (\<lambda>r. case r of Inl e \<Rightarrow> Inl e | Inr _ \<Rightarrow> Inr result) rs, h2)))"
proof -
  let ?w = "make_CompletionWork result None (map (nc_release nc) (args @ map snd kwargs))"
  have "native_waits \<lparr>nw_work = ?w, nw_handle = hdl\<rparr> timeouts h1
      = (let (rs, h2) = handle_waits hdl (length timeouts) h1
         in (map (\<lambda>r. case r of Inl e \<Rightarrow> Inl e | Inr _ \<Rightarrow> Inr result) rs, h2))" for hdl timeouts h1
    using native_waits_handle[of ?w hdl timeouts h1] assms(2) by (auto simp: make_CompletionWork_def)
  then show ?thesis
    by (auto simp: native_request_call[OF assms(1)] split: prod.splits sum.splits)
qed

text \<open>A collective that fails once its wait is called a second time, waited for with short timeouts.\<close>

definition sample_handle :: "nat handle" where
  "sample_handle = \<lparr>hd_is_completed = None, hd_query = None,
     hd_wait = (\<lambda>h. (if h = 1 then Inl (RuntimeError ''aborted'') else Inr (), Suc h))\<rparr>"

definition sample_collectives :: "(string, string, unit, nat) native_collectives" where
  "sample_collectives = \<lparr>nc_group = None, nc_dist = (\<lambda>name args kwargs g h. (Inr sample_handle, h)), nc_release = (\<lambda>v. None)\<rparr>"

theorem native_request_exact_witness:
  "\<exists>w. native_request sample_collectives (Reduce ''x'' 0 None) 0 = (Inr w, 0)
     \<and> native_waits w [Some (Fin 0), Some (Fin 0), None] 0
       = ([Inr (Some (Tensor ''x'')), Inl (RuntimeError ''aborted''), Inr (Some (Tensor ''x''))], 3)"
proof -
  have "torch_call (Reduce ''x'' 0 None :: (string, string) request)
      = (''reduce'', [Tensor ''x''], [(''dst'', Rank 0)], Some (Tensor ''x''))" by simp
  moreover have "nc_release sample_collectives v = None" for v by (simp add: sample_collectives_def)
  ultimately have "case nc_dist sample_collectives ''reduce'' [Tensor ''x''] [(''dst'', Rank 0)] (nc_group sample_collectives) 0 of
       (Inl e, h1) \<Rightarrow> native_request sample_collectives (Reduce ''x'' 0 None) 0 = (Inl e, h1)
     | (Inr hdl, h1) \<Rightarrow>
         \<exists>w. native_request sample_collectives (Reduce ''x'' 0 None) 0 = (Inr w, h1)
           \<and> (\<forall>timeouts. native_waits w timeouts h1
                = (let (rs, h2) = handle_waits hdl (length timeouts) h1
                   in (map (\<lambda>r. case r of Inl e \<Rightarrow> Inl e | Inr _ \<Rightarrow> Inr (Some (Tensor ''x''))) rs, h2)))"
    by (rule native_request_exact)
  then obtain w where "native_request sample_collectives (Reduce ''x'' 0 None) 0 = (Inr w, 0)"
    and waits: "\<forall>timeouts. native_waits w timeouts 0 = (let (rs, h2) = handle_waits sample_handle (length timeouts) 0
         in (map (\<lambda>r. case r of Inl e \<Rightarrow> Inl e | Inr _ \<Rightarrow> Inr (Some (Tensor ''x''))) rs, h2))"
    unfolding sample_collectives_def by auto
  moreover note spec[OF waits, of "[Some (Fin 0), Some (Fin 0), None]"]
  moreover have "handle_waits sample_handle 3 0 = ([Inr (), Inl (RuntimeError ''aborted''), Inr ()], 3)"
    by (simp add: sample_handle_def numeral_3_eq_3)
  ultimately show ?thesis by (intro exI[of _ w]) (simp add: sample_handle_def)
qed

end
