(* ===== verification/Build.thy ===== *)
theory Build
  imports Gen_Quant Gen_Dequant "HOL-Library.AList" "HOL-Library.Char_ord" "HOL-Library.List_Lexorder"
begin

text \<open>
  \<open>backends/cuda/build.py\<close>: generating the missing C++ sources and collecting all sources of
  the extension.  The file system is the list of its entries in directory order, a path a
  string.  The two generator scripts run as \<open>Gen_Quant\<close> and \<open>Gen_Dequant\<close> say; what builds the
  extension from its specification is a parameter.
\<close>

section \<open>Files\<close>

datatype entry = File string | Directory

type_synonym files = "(string \<times> entry) list"

definition is_file :: "files \<Rightarrow> string \<Rightarrow> bool" where
  "is_file fs p = (case map_of fs p of Some (File _) \<Rightarrow> True | _ \<Rightarrow> False)"

definition is_dir :: "files \<Rightarrow> string \<Rightarrow> bool" where
  "is_dir fs p = (map_of fs p = Some Directory)"

definition path_join :: "string \<Rightarrow> string \<Rightarrow> string" where
  "path_join dir name = dir @ CHR ''/'' # name"

text \<open>\<open>dir.glob("*" + suffix)\<close>: the entries right below \<open>dir\<close> whose name ends so.\<close>

definition glob :: "files \<Rightarrow> string \<Rightarrow> string \<Rightarrow> string list" where
  "glob fs dir suffix =
     filter (\<lambda>p. \<exists>name \<in> {py_removeprefix p (path_join dir [])}.
         p = path_join dir name \<and> CHR ''/'' \<notin> set name \<and> py_startswith (rev name) (rev suffix)) (map fst fs)"

text \<open>A path right below a directory whose name ends in a suffix.\<close>

definition named :: "string \<Rightarrow> string \<Rightarrow> string \<Rightarrow> bool" where
  "named dir suffix p \<longleftrightarrow> (\<exists>stem. p = path_join dir (stem @ suffix) \<and> CHR ''/'' \<notin> set (stem @ suffix))"

lemma set_glob: "set (glob fs dir suffix) = {p \<in> fst ` set fs. named dir suffix p}"
proof -
  have pre: "py_removeprefix (path_join dir name) (path_join dir []) = name" for name
    using py_removeprefix_append[of "path_join dir []" name] by (simp add: path_join_def)
  have suf: "py_startswith (rev name) (rev suffix) \<longleftrightarrow> (\<exists>stem. name = stem @ suffix)" for name
    unfolding py_startswith_iff by (metis rev_append rev_rev_ident)
  have "(\<exists>name \<in> {py_removeprefix p (path_join dir [])}.
      p = path_join dir name \<and> CHR ''/'' \<notin> set name \<and> py_startswith (rev name) (rev suffix)) \<longleftrightarrow> named dir suffix p" for p
    unfolding named_def suf using pre by auto
  then show ?thesis by (simp add: glob_def)
qed

lemma distinct_glob: "distinct (map fst fs) \<Longrightarrow> distinct (glob fs dir suffix)"
  by (simp add: glob_def)

section \<open>Running the generators\<close>

text \<open>
  \<open>subprocess.run([python, script, "--output-dir-path", out], check=True)\<close>: a script that is not
  there, an output path that is no directory (the script's own assertion) and a script that
  fails end with a non-zero status; otherwise the script writes its file.
\<close>

definition write_file :: "string \<Rightarrow> string \<Rightarrow> (unit res \<times> files) \<Rightarrow> unit res \<times> files" where
  "write_file p text r = (if is_dir (snd r) p then (Inl (CalledProcessError ''non-zero exit status''), snd r)
     else (Inr (), AList.update p (File text) (snd r)))"

definition run_script :: "string \<Rightarrow> string \<Rightarrow> files \<Rightarrow> unit res \<times> files" where
  "run_script script out fs =
     (if \<not> is_file fs (path_join out script) \<or> \<not> is_dir fs out
        then (Inl (CalledProcessError ''non-zero exit status''), fs)
      else
        case (if script = ''gen_code_quant.py'' then gen_quant else gen_dequant) of
          Inl e \<Rightarrow> (Inl (CalledProcessError ''non-zero exit status''), fs)
        | Inr text \<Rightarrow>
            write_file (path_join out (if script = ''gen_code_quant.py'' then ''gen_quant_api.cu'' else ''gen_dequant_api.cu''))
              text (Inr (), fs))"

definition GENERATED_SOURCES :: "string list" where
  "GENERATED_SOURCES = [''gen_quant_api.cu'', ''gen_dequant_api.cu'']"

definition missing_sources :: "string \<Rightarrow> files \<Rightarrow> string list" where
  "missing_sources source_dir fs = filter (\<lambda>name. \<not> is_file fs (path_join source_dir name)) GENERATED_SOURCES"

fun run_scripts :: "string list \<Rightarrow> string \<Rightarrow> files \<Rightarrow> unit res \<times> files" where
  "run_scripts [] source_dir fs = (Inr (), fs)"
| "run_scripts (script # scripts) source_dir fs =
     (case run_script script source_dir fs of
        (Inl e, fs) \<Rightarrow> (Inl e, fs)
      | (Inr _, fs) \<Rightarrow> run_scripts scripts source_dir fs)"

definition ensure_generated_sources :: "string \<Rightarrow> files \<Rightarrow> unit res \<times> files" where
  "ensure_generated_sources source_dir fs =
     (if missing_sources source_dir fs = [] then (Inr (), fs)
      else
        case run_scripts [''gen_code_quant.py'', ''gen_code_dequant.py''] source_dir fs of
          (Inl e, fs) \<Rightarrow> (Inl e, fs)
        | (Inr _, fs) \<Rightarrow>
            if missing_sources source_dir fs \<noteq> []
              then (Inl (RuntimeError ''CUDA code generation did not produce''), fs)
            else (Inr (), fs))"

section \<open>The extension\<close>

record extension_spec =
  es_name :: string
  es_sources :: "string list"
  es_cxx :: "string list"
  es_nvcc :: "string list"

text \<open>\<open>csrc\<close> is \<open>CSRC_ROOT\<close>; \<open>torch_factory\<close> is what importing \<open>CUDAExtension\<close> gives or raises.\<close>

definition create_cuda_extension ::
    "string \<Rightarrow> (extension_spec \<Rightarrow> 'e res) option \<Rightarrow> (extension_spec \<Rightarrow> 'e res) res
     \<Rightarrow> (string \<Rightarrow> files \<Rightarrow> unit res \<times> files) \<Rightarrow> files \<Rightarrow> 'e res \<times> files" where
  "create_cuda_extension csrc extension_factory torch_factory ensure_generated fs =
     (let quantization = path_join csrc ''quantization'' in
      case ensure_generated quantization fs of
        (Inl e, fs) \<Rightarrow> (Inl e, fs)
      | (Inr _, fs) \<Rightarrow>
          let sources = path_join csrc ''pybind.cpp'' # glob fs (path_join csrc ''executor'') ''.cpp''
                @ glob fs quantization ''.cu'';
              source_names = sort sources in
          (rbind (case extension_factory of Some f \<Rightarrow> Inr f | None \<Rightarrow> torch_factory)
             (\<lambda>factory. factory \<lparr>es_name = ''lowbit_comm_cuda_ops'', es_sources = source_names,
                 es_cxx = [''-O3''], es_nvcc = [''-O3'', ''-U__CUDA_NO_HALF_OPERATORS__'']\<rparr>), fs))"


section \<open>What a build collects\<close>

definition quant_file :: string where
  "quant_file = (case gen_quant of Inl e \<Rightarrow> [] | Inr text \<Rightarrow> text)"

definition dequant_file :: string where
  "dequant_file = (case gen_dequant of Inl e \<Rightarrow> [] | Inr text \<Rightarrow> text)"

lemma generated_files: "gen_quant = Inr quant_file" "gen_dequant = Inr dequant_file"
  by (simp_all only: quant_file_def dequant_file_def gen_quant_text gen_dequant_text sum.case)

text \<open>The scripts are in place, and no directory is where they write.\<close>

definition scripts_ready :: "string \<Rightarrow> files \<Rightarrow> bool" where
  "scripts_ready dir fs \<longleftrightarrow>
     is_dir fs dir \<and> is_file fs (path_join dir ''gen_code_quant.py'') \<and> is_file fs (path_join dir ''gen_code_dequant.py'')
     \<and> \<not> is_dir fs (path_join dir ''gen_quant_api.cu'') \<and> \<not> is_dir fs (path_join dir ''gen_dequant_api.cu'')"

definition generated :: "string \<Rightarrow> files \<Rightarrow> files" where
  "generated dir fs =
     (if is_file fs (path_join dir ''gen_quant_api.cu'') \<and> is_file fs (path_join dir ''gen_dequant_api.cu'') then fs
      else AList.update (path_join dir ''gen_dequant_api.cu'') (File dequant_file)
             (AList.update (path_join dir ''gen_quant_api.cu'') (File quant_file) fs))"

lemma path_join_inj [simp]: "path_join dir a = path_join dir b \<longleftrightarrow> a = b"
  by (simp add: path_join_def)

lemma path_join_dir [simp]: "dir \<noteq> path_join dir a"
  by (simp add: path_join_def)

lemma is_file_update [simp]: "is_file (AList.update p (File t) fs) q \<longleftrightarrow> p = q \<or> is_file fs q"
  by (auto simp: is_file_def update_conv' split: option.splits entry.splits)

lemma is_dir_update [simp]: "is_dir (AList.update p (File t) fs) q \<longleftrightarrow> p \<noteq> q \<and> is_dir fs q"
  by (auto simp: is_dir_def update_conv')

lemma generated_ready:
  assumes "scripts_ready dir fs"
  shows "ensure_generated_sources dir fs = (Inr (), generated dir fs)"
  using assms
  by (auto simp: ensure_generated_sources_def missing_sources_def GENERATED_SOURCES_def generated_def scripts_ready_def
      run_script_def generated_files write_file_def)

lemma generated_is_file:
  "is_file (generated dir fs) (path_join dir ''gen_quant_api.cu'')"
  "is_file (generated dir fs) (path_join dir ''gen_dequant_api.cu'')"
  by (auto simp: generated_def)

lemma is_file_entry: "is_file fs p \<Longrightarrow> p \<in> fst ` set fs"
  by (auto simp: is_file_def split: option.splits dest: map_of_SomeD intro: rev_image_eqI)

lemma distinct_generated: "distinct (map fst fs) \<Longrightarrow> distinct (map fst (generated dir fs))"
  by (simp add: generated_def distinct_update)

lemma keys_generated: "map_of fs = map_of gs \<Longrightarrow> fst ` set (generated dir fs) = fst ` set (generated dir gs)"
  by (simp add: dom_map_of_conv_image_fst[symmetric] generated_def update_conv' is_file_def)

text \<open>The sources of a build on given entries.\<close>

definition build_sources :: "string \<Rightarrow> string set \<Rightarrow> string set" where
  "build_sources csrc entries =
     {path_join csrc ''pybind.cpp''}
     \<union> {p \<in> entries. named (path_join csrc ''executor'') ''.cpp'' p \<or> named (path_join csrc ''quantization'') ''.cu'' p}"

lemma namedI: "CHR ''/'' \<notin> set (stem @ suffix) \<Longrightarrow> named dir suffix (path_join dir (stem @ suffix))"
  unfolding named_def by blast

lemma generated_named: "named dir ''.cu'' (path_join dir ''gen_quant_api.cu'')" "named dir ''.cu'' (path_join dir ''gen_dequant_api.cu'')"
  using namedI[of "''gen_quant_api''" "''.cu''" dir] namedI[of "''gen_dequant_api''" "''.cu''" dir] by simp_all

lemma create_cuda_extension_ready:
  fixes csrc
  defines "q \<equiv> path_join csrc ''quantization''"
  assumes "distinct (map fst fs)" and "scripts_ready q fs"
  obtains sources where "create_cuda_extension csrc (Some factory) torch_factory ensure_generated_sources fs
      = (factory \<lparr>es_name = ''lowbit_comm_cuda_ops'', es_sources = sources, es_cxx = [''-O3''],
           es_nvcc = [''-O3'', ''-U__CUDA_NO_HALF_OPERATORS__'']\<rparr>, generated q fs)"
    and "sorted sources" and "distinct sources" and "set sources = build_sources csrc (fst ` set (generated q fs))"
proof -
  let ?g = "generated q fs"
  let ?sources = "path_join csrc ''pybind.cpp'' # glob ?g (path_join csrc ''executor'') ''.cpp'' @ glob ?g q ''.cu''"
  have "set ?sources = build_sources csrc (fst ` set ?g)"
    by (auto simp: build_sources_def set_glob q_def)
  moreover have "distinct ?sources"
    using distinct_glob[OF distinct_generated[OF assms(2)]]
    by (auto simp: set_glob named_def path_join_def q_def)
  moreover have "create_cuda_extension csrc (Some factory) torch_factory ensure_generated_sources fs
      = (factory \<lparr>es_name = ''lowbit_comm_cuda_ops'', es_sources = sort ?sources, es_cxx = [''-O3''],
           es_nvcc = [''-O3'', ''-U__CUDA_NO_HALF_OPERATORS__'']\<rparr>, ?g)"
    using generated_ready[OF assms(3)] by (simp add: create_cuda_extension_def Let_def q_def)
  ultimately show thesis
    using that[of "sort ?sources"] by (simp only: sorted_sort distinct_sort set_sort)
qed

section \<open>Properties\<close>

text \<open>C40: with the generator scripts in place a build succeeds in collecting its sources: it writes
  the two generated files, with the texts the generators print, when one of them is missing and
  touches nothing otherwise; the extension is specified over the binding file, every C++ file of
  the executor directory and every CUDA file of the quantisation directory, the generated ones
  among them, each once and in order; and the order in which the file system lists its entries
  changes nothing.\<close>

theorem build_collects_generated:
  assumes "distinct (map fst fs)" and "scripts_ready (path_join csrc ''quantization'') fs"
  shows "(\<exists>sources. create_cuda_extension csrc (Some factory) torch_factory ensure_generated_sources fs
        = (factory \<lparr>es_name = ''lowbit_comm_cuda_ops'', es_sources = sources, es_cxx = [''-O3''],
             es_nvcc = [''-O3'', ''-U__CUDA_NO_HALF_OPERATORS__'']\<rparr>, generated (path_join csrc ''quantization'') fs)
        \<and> sorted sources \<and> distinct sources
        \<and> set sources = build_sources csrc (fst ` set (generated (path_join csrc ''quantization'') fs))
        \<and> path_join (path_join csrc ''quantization'') ''gen_quant_api.cu'' \<in> set sources
        \<and> path_join (path_join csrc ''quantization'') ''gen_dequant_api.cu'' \<in> set sources)
     \<and> (\<forall>gs. distinct (map fst gs) \<and> map_of gs = map_of fs \<longrightarrow>
          fst (create_cuda_extension csrc (Some factory) torch_factory ensure_generated_sources gs)
            = fst (create_cuda_extension csrc (Some factory) torch_factory ensure_generated_sources fs))"
proof -
  let ?q = "path_join csrc ''quantization''"
  obtain sources where made: "create_cuda_extension csrc (Some factory) torch_factory ensure_generated_sources fs
      = (factory \<lparr>es_name = ''lowbit_comm_cuda_ops'', es_sources = sources, es_cxx = [''-O3''],
           es_nvcc = [''-O3'', ''-U__CUDA_NO_HALF_OPERATORS__'']\<rparr>, generated ?q fs)"
    and ord: "sorted sources" "distinct sources" and set: "set sources = build_sources csrc (fst ` set (generated ?q fs))"
    by (rule create_cuda_extension_ready[OF assms])
  have "path_join ?q ''gen_quant_api.cu'' \<in> set sources" "path_join ?q ''gen_dequant_api.cu'' \<in> set sources"
    unfolding set build_sources_def
    by (simp_all only: Un_iff mem_Collect_eq is_file_entry[OF generated_is_file(1)] is_file_entry[OF generated_is_file(2)]
        generated_named simp_thms)
  moreover have "fst (create_cuda_extension csrc (Some factory) torch_factory ensure_generated_sources gs)
      = fst (create_cuda_extension csrc (Some factory) torch_factory ensure_generated_sources fs)"
    if "distinct (map fst gs)" and same: "map_of gs = map_of fs" for gs
  proof -
    have "scripts_ready ?q gs" using assms(2) by (simp add: scripts_ready_def is_file_def is_dir_def same)
    from create_cuda_extension_ready[OF that(1) this] obtain sources' where
      made': "create_cuda_extension csrc (Some factory) torch_factory ensure_generated_sources gs
        = (factory \<lparr>es_name = ''lowbit_comm_cuda_ops'', es_sources = sources', es_cxx = [''-O3''],
             es_nvcc = [''-O3'', ''-U__CUDA_NO_HALF_OPERATORS__'']\<rparr>, generated ?q gs)"
      and "sorted sources'" "distinct sources'" "set sources' = build_sources csrc (fst ` set (generated ?q gs))" .
    then have "sources' = sources"
      using ord set keys_generated[OF same, of ?q] by (intro sorted_distinct_set_unique) simp_all
    then show ?thesis by (simp add: made made')
  qed
  ultimately show ?thesis using made ord set by auto
qed


definition sample_files :: files where
  "sample_files =
     [(''c/quantization'', Directory), (''c/quantization/utils.cu'', File []),
      (''c/quantization/gen_code_quant.py'', File []), (''c/quantization/gen_code_dequant.py'', File []),
      (''c/quantization/gen_quant_api.cu'', File ''old''), (''c/executor/run.cpp'', File [])]"

text \<open>One generated file is missing: both are written again.\<close>

theorem build_collects_generated_witness:
  "\<exists>spec fs. create_cuda_extension ''c'' (Some Inr) (Inl (ImportError ''torch'')) ensure_generated_sources sample_files
       = (Inr spec, fs)
     \<and> {''c/pybind.cpp'', ''c/quantization/gen_quant_api.cu'', ''c/quantization/gen_dequant_api.cu''} \<subseteq> set (es_sources spec)
     \<and> map_of fs ''c/quantization/gen_quant_api.cu'' = Some (File quant_file)"
proof -
  let ?q = "path_join ''c'' ''quantization''"
  have "distinct (map fst sample_files)" and "scripts_ready ?q sample_files"
    by (simp_all add: sample_files_def scripts_ready_def is_dir_def is_file_def path_join_def)
  from build_collects_generated[OF this, of Inr "Inl (ImportError ''torch'')"]
  obtain sources where made: "create_cuda_extension ''c'' (Some Inr) (Inl (ImportError ''torch'')) ensure_generated_sources sample_files
      = (Inr \<lparr>es_name = ''lowbit_comm_cuda_ops'', es_sources = sources, es_cxx = [''-O3''],
           es_nvcc = [''-O3'', ''-U__CUDA_NO_HALF_OPERATORS__'']\<rparr>, generated ?q sample_files)"
    and set: "set sources = build_sources ''c'' (fst ` set (generated ?q sample_files))"
      "path_join ?q ''gen_quant_api.cu'' \<in> set sources" "path_join ?q ''gen_dequant_api.cu'' \<in> set sources"
    by blast
  have "map_of (generated ?q sample_files) ''c/quantization/gen_quant_api.cu'' = Some (File quant_file)"
    by (simp add: generated_def sample_files_def is_file_def path_join_def update_conv')
  moreover have "''c/pybind.cpp'' \<in> set sources"
    unfolding set(1) by (simp add: build_sources_def path_join_def)
  moreover have "''c/quantization/gen_quant_api.cu'' \<in> set sources" "''c/quantization/gen_dequant_api.cu'' \<in> set sources"
    using set(2,3) by (simp_all add: path_join_def)
  ultimately show ?thesis unfolding made by simp
qed

end
