(* ===== verification/Compiled_Jobs.thy ===== *)
theory Compiled_Jobs
  imports Cuda_Backend Cuda_Collectives
begin

text \<open>
  The compiler and the CUDA executables together: every rank compiles the same program with the
  automatic algorithm for its own rank, and runs what it gets.  The ranks decide without talking
  to each other, so they must decide alike.
\<close>

section \<open>The ranks of a job\<close>

definition rank_context :: "compile_context \<Rightarrow> nat \<Rightarrow> compile_context" where
  "rank_context c r = c\<lparr>ctx_rank := int r\<rparr>"

lemma rank_context_simps [simp]:
  "ctx_rank (rank_context c r) = int r" "ctx_world_size (rank_context c r) = ctx_world_size c"
  "ctx_shape (rank_context c r) = ctx_shape c" "ctx_dtype (rank_context c r) = ctx_dtype c"
  "ctx_device_type (rank_context c r) = ctx_device_type c"
  "ctx_topology_signature (rank_context c r) = ctx_topology_signature c"
  by (simp_all add: rank_context_def)

text \<open>The decision does not read the rank.\<close>

lemma decide_auto_rank [simp]: "decide_auto t (rank_context c r) evidence = decide_auto t c evidence"
  by (auto simp: decide_auto_def evidence_matches_def split: option.splits)

lemma select_effective_rank [simp]:
  "select_effective_program p (rank_context c r) t evidence = select_effective_program p c t evidence"
  by (simp add: select_effective_program_def Let_def)

text \<open>What \<open>auto\<close> binds on the CUDA target.\<close>

lemma auto_compiled:
  assumes "reg (ctx_device_type c) = Some (CudaBackend status)" and "prog_algorithm p = AutoAlgorithm"
    and "compile_program (Some p) (Some (rank_context c r)) bindings reg evidence = Inr b"
  shows "if ad_use_compression (decide_auto (ctx_device_type c) c evidence)
     then \<exists>e. bd_executable b = CudaFullTensor e \<and> make_CudaFullTensorExecutable (bd_lowered b) status = Inr e
       \<and> prog_wire (low_program (bd_lowered b)) = QuantizedWire full_wire
       \<and> low_context (bd_lowered b) = rank_context c r
     else \<exists>n. bd_executable b = CudaNativeAllReduce n \<and> low_context (ne_lowered n) = rank_context c r"
proof -
  have reg: "reg (ctx_device_type (rank_context c r)) = Some (CudaBackend status)"
    using assms(1) by simp
  note faithful = cuda.compiled_faithful[OF reg assms(3)]
  have low: "low_program (bd_lowered b) = fst (select_effective_program p c (ctx_device_type c) evidence)"
    "low_context (bd_lowered b) = rank_context c r"
    "cuda_compile status (bd_lowered b) = Inr (bd_executable b)"
    using faithful(1,2,7) by (simp_all add: CudaBackend_def)
  show ?thesis
  proof (cases "ad_use_compression (decide_auto (ctx_device_type c) c evidence)")
    case True
    then have "prog_algorithm (low_program (bd_lowered b)) = CompressedReduceScatterAllGather"
      using assms(2) low(1) by (simp add: select_effective_program_def Let_def)
    then obtain e where e: "make_CudaFullTensorExecutable (bd_lowered b) status = Inr e" "bd_executable b = CudaFullTensor e"
      using low(3) by (auto simp: cuda_compile_def)
    then obtain w where "prog_wire (low_program (bd_lowered b)) = QuantizedWire w" "w = full_wire"
      by (auto simp: make_CudaFullTensorExecutable_def wire_attributes_def full_wire_def Let_def split: wire.splits)
    then show ?thesis using True e low(2) by simp
  next
    case False
    then have "prog_algorithm (low_program (bd_lowered b)) = NativeAllReduce"
      using assms(2) low(1) by (simp add: select_effective_program_def Let_def)
    then have "bd_executable b = CudaNativeAllReduce \<lparr>ne_lowered = bd_lowered b\<rparr>"
      using low(3) by (simp add: cuda_compile_def make_CudaNativeAllReduceExecutable_def)
    then show ?thesis using False low(2) by auto
  qed
qed

section \<open>Properties\<close>


text \<open>Two ranks of the sample job, with the sample kernels loaded.\<close>

definition auto_sample :: program where
  "auto_sample = sample_program (FullTensor FP16) (QuantizedWire full_wire) AutoAlgorithm"

lemma auto_sample_compiles:
  assumes "r < 2" and "evidence = None \<or> evidence = Some (sample_evidence ''cuda'' (Fin 5))"
  shows "\<exists>b. compile_program (Some auto_sample) (Some (rank_context (sample_context ''cuda'') r)) sample_bindings
      [''cuda'' \<mapsto> CudaBackend (sample_status 64 2)] evidence = Inr b"
proof -
  have "ordinary_job auto_sample (rank_context (sample_context ''cuda'') r)"
    using assms(1)
    by (simp add: ordinary_job_def valid_context_def sample_defs auto_sample_def shape_numel_def
        py_strip_eq_Nil py_isspace_def rank_context_def full_wire_def valid_wire_def)
  moreover have "full_kernel_ready (sample_status 64 2)"
    by (simp add: full_kernel_ready_def exec_require_module_def sample_status_def sample_native_def)
  ultimately show ?thesis
    using assms(2)
    by (subst cuda_compiles_iff)
      (auto simp: sample_defs auto_sample_def well_formed_def cuda_binds_def
        select_effective_program_def decide_auto_def evidence_matches_def rank_context_def)
qed


end
