(* ===== verification/Spec2Isabelle.thy ===== *)
theory Spec2Isabelle
  imports Ring Tree_Schedule Hierarchical Workspace Reference_Backend Cuda_Backend
    Transfer_Properties DDP_Hook QWD Gen_Codec Native_Collectives Build
    Compiled_Jobs
begin

text \<open>
  A model of \<open>lowbit_comm\<close>, a library of low-bit communication for distributed training, and
  what makes it correct.  All paths below are relative to \<open>src/src/lowbit_comm\<close>.

  The program.  A user writes a \<^emph>\<open>communication program\<close> (an operation, an output, a wire and an
  algorithm) and compiles it for a context (rank, world size, shape, dtype, device).  The
  compiler verifies it, replaces the \<open>auto\<close> algorithm by compression or by the native collective
  according to benchmark evidence, lets the backend of the context's device lower it to stages
  and compile it, and returns a bound executable.  The reference backend runs on host values; the
  CUDA backend packs tensors with a native codec and moves the payloads with torch.distributed.
  A run returns a work: an event, a completion callback and resources that are released once.
  Beside the compiler stand quantised point-to-point transfers and an all-gather of tensors of
  different shapes, both led by a metadata packet; static schedules (ring, tree, hierarchy,
  shards); a workspace pool; adapters for DDP error feedback and for sharded optimisers; and the
  scripts that generate the C++ dispatchers of the codec, with the build that runs them.

  Theories, in the order of the code.
  \<^item> \<open>Prelude\<close>: exceptions as values, what is used of Python's strings and floats, round-up
    division, slices.
  \<^item> \<open>Core_Types\<close>: \<open>core/types.py\<close>, \<open>operations.py\<close>, \<open>program.py\<close>, \<open>context.py\<close>, \<open>lowered.py\<close>,
    \<open>backend.py\<close>, \<open>execution_info.py\<close>.  A frozen dataclass is a record, its \<open>__post_init__\<close> a
    function \<open>make_...\<close> on dynamically typed values that returns the record or the exception.
  \<^item> \<open>Metadata\<close>: \<open>core/metadata.py\<close>.  Encoder and decoder of the 24-word packet; the locale
    \<open>packet_codec\<close> states a codec's laws, and both directions of the round trip rest on it.
  \<^item> \<open>Shard_Plan\<close>: \<open>transports/reduce_scatter.py\<close> and \<open>core/values.py\<close>.  The shard layout covers a
    tensor tightly and gives every element one owner.
  \<^item> \<open>Ring\<close>, \<open>Tree_Schedule\<close>: \<open>transports/ring.py\<close>, \<open>tree.py\<close>.  The schedules, and executions of them
    that sum over a ring and broadcast down a tree.
  \<^item> \<open>Topology\<close>, \<open>Hierarchical\<close>: \<open>compiler/passes/topology.py\<close>, \<open>transports/hierarchical.py\<close>.  Each
    rank's run is its list of collective calls; all ranks together are a step relation in which
    a collective of a group fires when every member is at it.  An invariant of the reachable
    states gives the mean, the absence of deadlock and the bound on the length of a run.
  \<^item> \<open>Work\<close>, \<open>Workspace\<close>: \<open>runtime/event.py\<close>, \<open>work.py\<close>, \<open>workspace.py\<close>.  Callbacks and releases act
    on a heap.  The lock makes \<open>CompletionWork.wait\<close> one step; a release of a lease is two steps,
    between which other threads may run, and the pool is a step relation over them.  The locale
    \<open>releasable\<close> is what a work asks of a resource; leases provide it.
  \<^item> \<open>Compiler\<close>, \<open>Reference_Backend\<close>, \<open>Cuda_Backend\<close>: \<open>compiler/*.py\<close>, \<open>backends/*/backend.py\<close>.  The
    pipeline is proved against the locale \<open>backend_contract\<close>, interpreted by both backends; each
    gets an exact characterisation of what compiles.
  \<^item> \<open>Codec\<close>: \<open>backends/cuda/loader.py\<close>, \<open>codec.py\<close>.  The native module is a record of kernels.
  \<^item> \<open>Executors\<close>, \<open>Full_Tensor\<close>, \<open>Cuda_Collectives\<close>: \<open>backends/cuda/executors.py\<close>.  An executable's
    run is split at its collectives into what a rank sends and what it makes of what it
    received; \<open>Cuda_Collectives\<close> puts the ranks together and bounds the distance of every result
    from the exact mean by the codec's errors, for the four executables.
  \<^item> \<open>Compiled_Jobs\<close>: the pipeline and the executables together.  Every rank of a job compiles one
    program with the automatic algorithm and runs what it gets; the decision does not read the
    rank, so all ranks bind the same kind of executable, and the bounds above hold of the job.
  \<^item> \<open>P2P\<close>, \<open>Dynamic_All_Gather\<close>, \<open>Transfer_Properties\<close>: \<open>p2p.py\<close>, \<open>dynamic_all_gather.py\<close>.  A link is
    two queues of messages, one per tag, and the receiver's tasks.
  \<^item> \<open>Native_Collectives\<close>: \<open>native_collectives.py\<close>, the events over handles of \<open>p2p.py\<close>, the polling
    loop of \<open>executors.py\<close> (a \<open>partial_function\<close>: it returns exactly if a query answers yes).
  \<^item> \<open>DDP_State\<close>, \<open>DDP_Hook\<close>: \<open>adapters/ddp\<close>.  The hook is split into the part that runs in DDP's
    thread and the part that runs in the pool's; interleavings are a step relation.
  \<^item> \<open>Sharded\<close>, \<open>QWD\<close>: \<open>adapters/sharded\<close>.  Optimiser steps, checkpoints, weight differences.
  \<^item> \<open>Gen_Dispatch\<close>, \<open>Gen_Quant\<close>, \<open>Gen_Dequant\<close>, \<open>Gen_Codec\<close>: \<open>csrc/quantization/gen_code_*.py\<close>.  The
    templates are there line by line and the loops write the dispatcher's text; that text is the
    rendering of a nested conditional, whose execution says which kernel is called.  The locale
    \<open>kernel_generator\<close> is what the loops ask of a script's inner function; both scripts provide
    it.  \<open>Gen_Codec\<close> meets the calls of \<open>codec.py\<close> with the kernels.
  \<^item> \<open>Build\<close>: \<open>backends/cuda/build.py\<close> over a file system of entries.

  Bounds.  Integers are Python's, so the model's are unbounded, except where torch stores them:
  metadata words pass through a parameter that is only assumed to keep what fits 63 bits.
  \<open>payload_nbytes\<close> divides in floating point; the exact size is proved below \<open>2 ^ 53\<close> elements,
  and a lemma shows it wrong beyond.  No fuel is used anywhere: the loops are structural, the
  step relations carry a measure (\<open>calls_left\<close>), and waits that may block return an option.

  Idealisations.  Tensor elements of the collectives are rational or of an arbitrary type, those of the
  optimisers real numbers: rounding of float arithmetic is outside, as are NaN hyperparameters,
  while floats that are only compared (timeouts, thresholds, speedups) have NaN and infinities.
  Messages of exceptions are kept without the values interpolated into them.  Strings hold code points
  below 256.  Locks are atomicity of steps, thread pools interleavings.

  Parameters.  torch.distributed, torch's device and stream functions, the native module's kernels,
  benchmark evidence, DDP's bucket and future objects, and the extension factory.  What a
  property asks of them is a named hypothesis, and its witness shows a concrete instance.

  Not modelled.  The CUDA and C++ sources below \<open>csrc\<close> (another language, behind the native
  module); the argument parsers of the two scripts beyond the check of the directory; the package
  \<open>__init__\<close> files, which only re-export; \<open>__annotations__\<close> of the DDP hook; tests, documents
  and packaging.
\<close>

end
